(* ===== verification/Js_Prelude.thy ===== *)
theory Js_Prelude
  imports Main "HOL-Library.Word" "HOL-Library.Sublist"
begin

text \<open>
  What the user interface's code takes from its language and what the component theories share:
  JavaScript strings and the string methods the code calls, the browser's key-value storage, and
  three interfaces that several components implement: a key-value store, a machine with an
  invariant, and a generation counter that tells live callbacks from stale ones.
\<close>

named_theorems js_defs \<open>unfolding rules of the JavaScript string methods\<close>

section \<open>JavaScript strings\<close>

text \<open>
  A JavaScript string is a list of UTF-16 code units. \<open>js\<close> writes an ASCII literal of the
  source; text outside ASCII is written as its code units.
\<close>

type_synonym js_string = "16 word list"

definition js :: "string \<Rightarrow> js_string" where
  "js s = map (\<lambda>c. word_of_nat (of_char c)) s"

lemma js_Nil [simp]: "js [] = []"
  by (simp add: js_def)

lemma js_Cons: "js (c # cs) = word_of_nat (of_char c) # js cs"
  by (simp add: js_def)

lemma js_append: "js (a @ b) = js a @ js b"
  by (simp add: js_def)

lemma length_js [simp]: "length (js s) = length s"
  by (simp add: js_def)

lemma js_eq_Nil [simp]: "js s = [] \<longleftrightarrow> s = []" "[] = js s \<longleftrightarrow> s = []"
  by (auto simp: js_def)

lemma of_char_unit: "unat (word_of_nat (of_char c) :: 16 word) = of_char c"
proof -
  have "(of_char c :: nat) < 65536"
    by (rule less_trans [of _ 256]) simp_all
  then show ?thesis
    by (simp add: unat_of_nat)
qed

lemma js_unit_inject:
  "(word_of_nat (of_char c) :: 16 word) = word_of_nat (of_char d) \<longleftrightarrow> c = d"
  by (metis of_char_unit of_char_eq_iff)

lemma js_inject [simp]: "js a = js b \<longleftrightarrow> a = b"
  unfolding js_def by (rule inj_map_eq_map) (auto simp: inj_def js_unit_inject)

text \<open>The values a condition treats as false: an empty string and, in an option, an absent one.\<close>

definition truthy :: "js_string \<Rightarrow> bool" where
  "truthy s \<longleftrightarrow> s \<noteq> []"

definition or_else :: "js_string option \<Rightarrow> js_string \<Rightarrow> js_string" where
  "or_else v d = (case v of Some s \<Rightarrow> (if truthy s then s else d) | None \<Rightarrow> d)"

lemma or_else_simps [simp]:
  "or_else None d = d"
  "or_else (Some []) d = d"
  "s \<noteq> [] \<Longrightarrow> or_else (Some s) d = s"
  by (auto simp: or_else_def truthy_def)

lemma or_else_empty [simp]: "or_else v [] = (case v of Some s \<Rightarrow> s | None \<Rightarrow> [])"
  by (auto simp: or_else_def truthy_def split: option.splits)

subsection \<open>String methods\<close>

text \<open>\<open>String.prototype.trim\<close>: the white space and line terminators of ECMAScript.\<close>

definition js_space :: "16 word \<Rightarrow> bool" where
  "js_space u \<longleftrightarrow>
     (0x0009 \<le> u \<and> u \<le> 0x000D) \<or> u = 0x0020 \<or> u = 0x00A0 \<or> u = 0x1680 \<or>
     (0x2000 \<le> u \<and> u \<le> 0x200A) \<or> u = 0x2028 \<or> u = 0x2029 \<or> u = 0x202F \<or>
     u = 0x205F \<or> u = 0x3000 \<or> u = 0xFEFF"

definition trim_start :: "js_string \<Rightarrow> js_string" where
  "trim_start s = dropWhile js_space s"

definition js_trim :: "js_string \<Rightarrow> js_string" where
  "js_trim s = rev (trim_start (rev (trim_start s)))"

text \<open>\<open>split\<close> on a separator of one code unit, \<open>join\<close>, \<open>startsWith\<close> and \<open>includes\<close>.\<close>

fun js_split :: "16 word \<Rightarrow> js_string \<Rightarrow> js_string list" where
  "js_split c [] = [[]]"
| "js_split c (u # us) =
     (if u = c then [] # js_split c us
      else (case js_split c us of p # ps \<Rightarrow> (u # p) # ps | [] \<Rightarrow> [[u]]))"

fun js_join :: "js_string \<Rightarrow> js_string list \<Rightarrow> js_string" where
  "js_join sep [] = []"
| "js_join sep [p] = p"
| "js_join sep (p # ps) = p @ sep @ js_join sep ps"

definition starts_with :: "js_string \<Rightarrow> js_string \<Rightarrow> bool" where
  "starts_with s p \<longleftrightarrow> take (length p) s = p"

fun js_includes :: "js_string \<Rightarrow> js_string \<Rightarrow> bool" where
  "js_includes [] p = (p = [])"
| "js_includes (u # us) p = (starts_with (u # us) p \<or> js_includes us p)"

text \<open>Numbers inside template strings: decimal digits without leading zeros.\<close>

definition digit_unit :: "nat \<Rightarrow> 16 word" where
  "digit_unit n = word_of_nat (48 + n)"

fun nat_digits :: "nat \<Rightarrow> js_string" where
  "nat_digits n =
     (if n < 10 then [digit_unit n] else nat_digits (n div 10) @ [digit_unit (n mod 10)])"

declare nat_digits.simps [simp del]

definition int_digits :: "int \<Rightarrow> js_string" where
  "int_digits i = (if i < 0 then 0x2D # nat_digits (nat (- i)) else nat_digits (nat i))"

text \<open>The reader of such digits, used to state that printing loses nothing.\<close>

definition digit_val :: "16 word \<Rightarrow> nat" where
  "digit_val u = unat u - 48"

definition is_digit :: "16 word \<Rightarrow> bool" where
  "is_digit u \<longleftrightarrow> 48 \<le> u \<and> u \<le> 57"

definition digits_val :: "js_string \<Rightarrow> nat" where
  "digits_val s = foldl (\<lambda>n u. 10 * n + digit_val u) 0 s"

lemma js_split_not_Nil [simp]: "js_split c s \<noteq> []"
  by (induction s) (auto split: list.splits)

lemma js_join_Cons: "ps \<noteq> [] \<Longrightarrow> js_join sep (p # ps) = p @ sep @ js_join sep ps"
  by (cases ps) auto

lemma js_join_split: "js_join [c] (js_split c s) = s"
proof (induction s)
  case (Cons u us)
  show ?case
  proof (cases "js_split c us")
    case (Cons p ps)
    then show ?thesis
      using Cons.IH by (cases ps) auto
  qed simp
qed simp

lemma js_split_pieces: "p \<in> set (js_split c s) \<Longrightarrow> c \<notin> set p"
  by (induction s arbitrary: p) (auto split: if_splits list.splits)

lemma js_split_append_sep:
  "c \<notin> set p \<Longrightarrow> js_split c (p @ c # s) = p # js_split c s"
  by (induction p) auto

lemma js_split_plain: "c \<notin> set p \<Longrightarrow> js_split c p = [p]"
  by (induction p) auto

lemma js_split_join:
  "ps \<noteq> [] \<Longrightarrow> \<forall>p \<in> set ps. c \<notin> set p \<Longrightarrow> js_split c (js_join [c] ps) = ps"
proof (induction ps)
  case (Cons p ps)
  then show ?case
    by (cases ps) (auto simp: js_split_plain js_split_append_sep)
qed simp

lemma starts_with_prefix: "starts_with s p \<longleftrightarrow> prefix p s"
  unfolding starts_with_def by (metis append_eq_conv_conj prefix_def)

lemma js_includes_iff: "js_includes s p \<longleftrightarrow> sublist p s"
proof (induction s)
  case Nil
  show ?case by simp
next
  case (Cons u us)
  show ?case
    using Cons.IH by (auto simp: starts_with_prefix sublist_Cons_right)
qed

lemma dropWhile_idem_hd: "dropWhile P (dropWhile P xs) = dropWhile P xs"
  by (induction xs) auto

lemma trim_start_suffix: "suffix (trim_start s) s"
  unfolding trim_start_def by (rule suffix_dropWhile)

lemma js_trim_hd: "js_trim s \<noteq> [] \<Longrightarrow> \<not> js_space (hd (js_trim s))"
proof -
  assume ne: "js_trim s \<noteq> []"
  obtain zs where zs: "rev (trim_start s) = zs @ trim_start (rev (trim_start s))"
    using trim_start_suffix suffix_def by blast
  then have "trim_start s = js_trim s @ rev zs"
    unfolding js_trim_def by (metis rev_append rev_rev_ident)
  with ne have "hd (js_trim s) = hd (trim_start s)" and "trim_start s \<noteq> []"
    by auto
  then show ?thesis
    using hd_dropWhile unfolding trim_start_def by metis
qed

lemma js_trim_last: "js_trim s \<noteq> [] \<Longrightarrow> \<not> js_space (last (js_trim s))"
  unfolding js_trim_def trim_start_def by (simp add: last_rev hd_dropWhile)

lemma dropWhile_keep: "s = [] \<or> \<not> P (hd s) \<Longrightarrow> dropWhile P s = s"
  by (cases s) auto

lemma js_trim_id: "s = [] \<or> \<not> js_space (hd s) \<and> \<not> js_space (last s) \<Longrightarrow> js_trim s = s"
  unfolding js_trim_def trim_start_def by (auto simp: dropWhile_keep hd_rev)

lemma js_trim_idem: "js_trim (js_trim s) = js_trim s"
  by (rule js_trim_id) (use js_trim_hd js_trim_last in blast)

lemma digits_val_append: "digits_val (s @ [u]) = 10 * digits_val s + digit_val u"
  by (simp add: digits_val_def)

lemma unat_digit_unit: "n < 10 \<Longrightarrow> unat (digit_unit n) = 48 + n"
  unfolding digit_unit_def by (subst unat_of_nat) simp

lemma digit_val_unit [simp]: "n < 10 \<Longrightarrow> digit_val (digit_unit n) = n"
  by (simp add: digit_val_def unat_digit_unit)

lemma is_digit_unit [simp]: "n < 10 \<Longrightarrow> is_digit (digit_unit n)"
  by (simp add: is_digit_def word_le_nat_alt unat_digit_unit)

lemma nat_digits_not_Nil [simp]: "nat_digits n \<noteq> []"
  by (subst nat_digits.simps) simp

lemma nat_digits_are_digits: "\<forall>u \<in> set (nat_digits n). is_digit u"
proof (induction n rule: nat_digits.induct)
  case (1 n)
  then show ?case
    by (subst nat_digits.simps) auto
qed

lemma digits_val_nat_digits [simp]: "digits_val (nat_digits n) = n"
proof (induction n rule: nat_digits.induct)
  case (1 n)
  show ?case
  proof (cases "n < 10")
    case True
    then show ?thesis
      by (subst nat_digits.simps) (simp add: digits_val_def)
  next
    case False
    with 1 show ?thesis
      by (subst nat_digits.simps) (simp add: digits_val_append)
  qed
qed

lemma nat_digits_inject: "nat_digits m = nat_digits n \<longleftrightarrow> m = n"
  by (metis digits_val_nat_digits)

end
