(* ===== verification/Codec.thy ===== *)
theory Codec
  imports Js_Prelude
begin

text \<open>
  The two codecs of the web platform the code calls: \<open>TextEncoder.encode\<close> (UTF-16 code units to
  UTF-8 bytes, a lone surrogate becoming U+FFFD) and \<open>TextDecoder.decode\<close> (the WHATWG UTF-8 decoder,
  not fatal, which drops a leading byte order mark). The main fact is the round trip on well-formed
  text.
\<close>

type_synonym bytes = "8 word list"

definition high_surrogate :: "16 word \<Rightarrow> bool" where
  "high_surrogate u \<longleftrightarrow> 0xD800 \<le> u \<and> u \<le> 0xDBFF"

definition low_surrogate :: "16 word \<Rightarrow> bool" where
  "low_surrogate u \<longleftrightarrow> 0xDC00 \<le> u \<and> u \<le> 0xDFFF"

definition surrogate_pair :: "16 word \<Rightarrow> 16 word \<Rightarrow> nat" where
  "surrogate_pair u v = 0x10000 + (unat u - 0xD800) * 0x400 + (unat v - 0xDC00)"

fun code_points :: "js_string \<Rightarrow> nat list" where
  "code_points [] = []"
| "code_points [u] = [if high_surrogate u \<or> low_surrogate u then 0xFFFD else unat u]"
| "code_points (u # v # us) =
     (if high_surrogate u \<and> low_surrogate v then surrogate_pair u v # code_points us
      else if high_surrogate u \<or> low_surrogate u then 0xFFFD # code_points (v # us)
      else unat u # code_points (v # us))"

definition byte :: "nat \<Rightarrow> 8 word" where
  "byte n = word_of_nat n"

definition utf8 :: "nat \<Rightarrow> bytes" where
  "utf8 c =
     (if c < 0x80 then [byte c]
      else if c < 0x800 then [byte (0xC0 + c div 64), byte (0x80 + c mod 64)]
      else if c < 0x10000 then
        [byte (0xE0 + c div 4096), byte (0x80 + c div 64 mod 64), byte (0x80 + c mod 64)]
      else
        [byte (0xF0 + c div 262144), byte (0x80 + c div 4096 mod 64),
         byte (0x80 + c div 64 mod 64), byte (0x80 + c mod 64)])"

definition text_encode :: "js_string \<Rightarrow> bytes" where
  "text_encode s = concat (map utf8 (code_points s))"

section \<open>The decoder\<close>

text \<open>What a byte does when no sequence is open: emit a code point, open a sequence (bytes still
  needed, bits so far, bounds of the next byte), or fail.\<close>

datatype lead = Emit nat | Need nat nat nat nat | Bad

definition lead_of :: "nat \<Rightarrow> lead" where
  "lead_of b =
     (if b < 0x80 then Emit b
      else if b < 0xC2 then Bad
      else if b < 0xE0 then Need 1 (b - 0xC0) 0x80 0xBF
      else if b < 0xF0 then
        Need 2 (b - 0xE0) (if b = 0xE0 then 0xA0 else 0x80) (if b = 0xED then 0x9F else 0xBF)
      else if b < 0xF5 then
        Need 3 (b - 0xF0) (if b = 0xF0 then 0x90 else 0x80) (if b = 0xF4 then 0x8F else 0xBF)
      else Bad)"

fun utf8_points :: "nat \<Rightarrow> nat \<Rightarrow> nat \<Rightarrow> nat \<Rightarrow> bytes \<Rightarrow> nat list" where
  "utf8_points need c lo hi [] = (if need = 0 then [] else [0xFFFD])"
| "utf8_points need c lo hi (b # bs) =
     (if need > 0 \<and> lo \<le> unat b \<and> unat b \<le> hi then
        (if need = 1 then (c * 64 + (unat b - 0x80)) # utf8_points 0 0 0 0 bs
         else utf8_points (need - 1) (c * 64 + (unat b - 0x80)) 0x80 0xBF bs)
      else
        (if need > 0 then [0xFFFD] else []) @
        (case lead_of (unat b) of
           Emit d \<Rightarrow> d # utf8_points 0 0 0 0 bs
         | Need n d l h \<Rightarrow> utf8_points n d l h bs
         | Bad \<Rightarrow> 0xFFFD # utf8_points 0 0 0 0 bs))"

definition units_of :: "nat \<Rightarrow> js_string" where
  "units_of c =
     (if c < 0x10000 then [word_of_nat c]
      else [word_of_nat (0xD800 + (c - 0x10000) div 0x400),
            word_of_nat (0xDC00 + (c - 0x10000) mod 0x400)])"

definition strip_bom :: "nat list \<Rightarrow> nat list" where
  "strip_bom cs = (case cs of c # cs' \<Rightarrow> if c = 0xFEFF then cs' else cs | [] \<Rightarrow> [])"

definition text_decode :: "bytes \<Rightarrow> js_string" where
  "text_decode bs = concat (map units_of (strip_bom (utf8_points 0 0 0 0 bs)))"

section \<open>Round trip\<close>

definition scalar :: "nat \<Rightarrow> bool" where
  "scalar c \<longleftrightarrow> c < 0xD800 \<or> (0xE000 \<le> c \<and> c < 0x110000)"

lemma unat_byte [simp]: "n < 256 \<Longrightarrow> unat (byte n) = n"
  unfolding byte_def by (subst unat_of_nat) simp

lemma lead_of_two: "2 \<le> a \<Longrightarrow> a < 32 \<Longrightarrow> lead_of (0xC0 + a) = Need 1 a 0x80 0xBF"
  by (simp add: lead_of_def)

lemma lead_of_three:
  "a < 16 \<Longrightarrow> lead_of (0xE0 + a) = Need 2 a (if a = 0 then 0xA0 else 0x80) (if a = 13 then 0x9F else 0xBF)"
  by (simp add: lead_of_def)

lemma lead_of_four:
  "a < 5 \<Longrightarrow> lead_of (0xF0 + a) = Need 3 a (if a = 0 then 0x90 else 0x80) (if a = 4 then 0x8F else 0xBF)"
  by (simp add: lead_of_def)

lemma utf8_points_lead:
  "n < 256 \<Longrightarrow> lead_of n = Need k d l h \<Longrightarrow>
   utf8_points 0 c lo hi (byte n # bs) = utf8_points k d l h bs"
  by simp

lemma utf8_points_last:
  "b < 64 \<Longrightarrow> lo \<le> 0x80 + b \<Longrightarrow> 0x80 + b \<le> hi \<Longrightarrow>
   utf8_points 1 c lo hi (byte (0x80 + b) # bs) = (c * 64 + b) # utf8_points 0 0 0 0 bs"
  by simp

lemma utf8_points_more:
  "b < 64 \<Longrightarrow> lo \<le> 0x80 + b \<Longrightarrow> 0x80 + b \<le> hi \<Longrightarrow> 1 < k \<Longrightarrow>
   utf8_points k c lo hi (byte (0x80 + b) # bs) = utf8_points (k - 1) (c * 64 + b) 0x80 0xBF bs"
  by simp

lemma utf8_points_two:
  assumes "2 \<le> a" "a < 32" "b < 64"
  shows "utf8_points 0 0 0 0 (byte (0xC0 + a) # byte (0x80 + b) # bs)
    = (a * 64 + b) # utf8_points 0 0 0 0 bs"
  using assms by (subst utf8_points_lead [OF _ lead_of_two]) (auto intro: utf8_points_last)

lemma utf8_points_tail_two:
  assumes "lo \<le> 0x80 + b" "0x80 + b \<le> hi" "b < 64" "d < 64"
  shows "utf8_points 2 c lo hi (byte (0x80 + b) # byte (0x80 + d) # bs)
    = ((c * 64 + b) * 64 + d) # utf8_points 0 0 0 0 bs"
proof -
  have "utf8_points 2 c lo hi (byte (0x80 + b) # byte (0x80 + d) # bs)
    = utf8_points (2 - 1) (c * 64 + b) 0x80 0xBF (byte (0x80 + d) # bs)"
    using assms by (intro utf8_points_more) simp_all
  also have "2 - 1 = (1 :: nat)" by simp
  also have "utf8_points 1 (c * 64 + b) 0x80 0xBF (byte (0x80 + d) # bs)
    = ((c * 64 + b) * 64 + d) # utf8_points 0 0 0 0 bs"
    using assms by (intro utf8_points_last) simp_all
  finally show ?thesis .
qed

lemma utf8_points_three:
  assumes "a < 16" "b < 64" "d < 64" "a = 0 \<Longrightarrow> 0x20 \<le> b" "a = 13 \<Longrightarrow> b < 0x20"
  shows "utf8_points 0 0 0 0 (byte (0xE0 + a) # byte (0x80 + b) # byte (0x80 + d) # bs)
    = ((a * 64 + b) * 64 + d) # utf8_points 0 0 0 0 bs"
proof -
  have "utf8_points 0 0 0 0 (byte (0xE0 + a) # byte (0x80 + b) # byte (0x80 + d) # bs)
    = utf8_points 2 a (if a = 0 then 0xA0 else 0x80) (if a = 13 then 0x9F else 0xBF)
        (byte (0x80 + b) # byte (0x80 + d) # bs)"
    using assms(1) by (intro utf8_points_lead lead_of_three) simp_all
  also have "\<dots> = ((a * 64 + b) * 64 + d) # utf8_points 0 0 0 0 bs"
    using assms by (intro utf8_points_tail_two) auto
  finally show ?thesis .
qed

lemma utf8_points_four:
  assumes "a < 5" "b < 64" "d < 64" "f < 64" "a = 0 \<Longrightarrow> 0x10 \<le> b" "a = 4 \<Longrightarrow> b < 0x10"
  shows "utf8_points 0 0 0 0
      (byte (0xF0 + a) # byte (0x80 + b) # byte (0x80 + d) # byte (0x80 + f) # bs)
    = (((a * 64 + b) * 64 + d) * 64 + f) # utf8_points 0 0 0 0 bs"
proof -
  let ?rest = "byte (0x80 + d) # byte (0x80 + f) # bs"
  have "utf8_points 0 0 0 0 (byte (0xF0 + a) # byte (0x80 + b) # ?rest)
    = utf8_points 3 a (if a = 0 then 0x90 else 0x80) (if a = 4 then 0x8F else 0xBF)
        (byte (0x80 + b) # ?rest)"
    using assms(1) by (intro utf8_points_lead lead_of_four) simp_all
  also have "\<dots> = utf8_points (3 - 1) (a * 64 + b) 0x80 0xBF ?rest"
    using assms by (intro utf8_points_more) auto
  also have "3 - 1 = (2 :: nat)" by simp
  also have "utf8_points 2 (a * 64 + b) 0x80 0xBF ?rest
    = (((a * 64 + b) * 64 + d) * 64 + f) # utf8_points 0 0 0 0 bs"
    using assms by (intro utf8_points_tail_two) simp_all
  finally show ?thesis .
qed

declare utf8_points.simps [simp del]

lemma div_parts:
  fixes c :: nat
  shows "c div 4096 = c div 64 div 64" "c div 262144 = c div 64 div 64 div 64"
  by (simp_all flip: div_mult2_eq)

lemma utf8_points_utf8:
  assumes "scalar c"
  shows "utf8_points 0 0 0 0 (utf8 c @ bs) = c # utf8_points 0 0 0 0 bs"
proof -
  define q where "q = c div 64"
  define d where "d = c mod 64"
  define r where "r = q div 64"
  define e where "e = q mod 64"
  define t where "t = r div 64"
  define f where "f = r mod 64"
  have c: "c = q * 64 + d" and q: "q = r * 64 + e" and r: "r = t * 64 + f"
    and bd: "d < 64" "e < 64" "f < 64"
    unfolding q_def d_def r_def e_def t_def f_def by simp_all
  consider "c < 0x80" | "0x80 \<le> c" "c < 0x800" | "0x800 \<le> c" "c < 0x10000"
    | "0x10000 \<le> c" "c < 0x110000"
    using assms unfolding scalar_def by linarith
  then show ?thesis
  proof cases
    case 1
    then show ?thesis by (simp add: utf8_def lead_of_def utf8_points.simps)
  next
    case 2
    then have "2 \<le> q" "q < 32"
      using c bd by linarith+
    moreover have "utf8 c = [byte (0xC0 + q), byte (0x80 + d)]"
      using 2 by (simp add: utf8_def q_def d_def)
    ultimately show ?thesis
      using utf8_points_two [of q d bs] bd c by simp
  next
    case 3
    then have "r < 16" "r = 0 \<Longrightarrow> 0x20 \<le> e" "r = 13 \<Longrightarrow> e < 0x20"
      using c q bd assms unfolding scalar_def by linarith+
    moreover have "utf8 c = [byte (0xE0 + r), byte (0x80 + e), byte (0x80 + d)]"
      using 3 by (simp add: utf8_def div_parts q_def d_def r_def e_def)
    moreover have "(r * 64 + e) * 64 + d = c"
      using c q by simp
    ultimately show ?thesis
      using utf8_points_three [of r e d bs] bd by simp
  next
    case 4
    then have "t < 5" "t = 0 \<Longrightarrow> 0x10 \<le> f" "t = 4 \<Longrightarrow> f < 0x10"
      using c q r bd by linarith+
    moreover have "utf8 c = [byte (0xF0 + t), byte (0x80 + f), byte (0x80 + e), byte (0x80 + d)]"
      using 4 by (simp add: utf8_def div_parts q_def d_def r_def e_def t_def f_def)
    moreover have "((t * 64 + f) * 64 + e) * 64 + d = c"
      using c q r by simp
    ultimately show ?thesis
      using utf8_points_four [of t f e d bs] bd by simp
  qed
qed

lemma utf8_points_encode:
  "\<forall>c \<in> set cs. scalar c \<Longrightarrow> utf8_points 0 0 0 0 (concat (map utf8 cs)) = cs"
  by (induction cs) (simp_all add: utf8_points_utf8 utf8_points.simps(1))

lemma unit_bound: "unat (u :: 16 word) < 65536"
proof -
  have "unat u < 2 ^ LENGTH(16)"
    by (rule unsigned_less)
  then show ?thesis by simp
qed

lemma code_points_scalar: "\<forall>c \<in> set (code_points s). scalar c"
proof (induction s rule: code_points.induct)
  case (2 u)
  then show ?case
    using unit_bound [of u]
    by (auto simp: scalar_def high_surrogate_def low_surrogate_def word_le_nat_alt)
next
  case (3 u v us)
  have "unat u < 65536" "unat v < 65536"
    by (rule unit_bound)+
  with 3 show ?case
    by (auto simp: scalar_def high_surrogate_def low_surrogate_def surrogate_pair_def word_le_nat_alt)
qed simp

text \<open>Well-formed text: every surrogate is half of a pair.\<close>

fun well_formed :: "js_string \<Rightarrow> bool" where
  "well_formed [] = True"
| "well_formed [u] = (\<not> high_surrogate u \<and> \<not> low_surrogate u)"
| "well_formed (u # v # us) =
     (if high_surrogate u then low_surrogate v \<and> well_formed us
      else \<not> low_surrogate u \<and> well_formed (v # us))"

lemma units_of_pair:
  assumes "high_surrogate u" "low_surrogate v"
  shows "units_of (surrogate_pair u v) = [u, v]"
proof -
  have "0xD800 \<le> unat u" "0xDC00 \<le> unat v" "unat v < 0xDC00 + 0x400"
    using assms by (auto simp: high_surrogate_def low_surrogate_def word_le_nat_alt)
  then obtain a b where "unat u = 0xD800 + a" "unat v = 0xDC00 + b" "b < 0x400"
    by (metis add_less_cancel_left le_Suc_ex)
  then have "0xD800 + (surrogate_pair u v - 0x10000) div 0x400 = unat u"
    and "0xDC00 + (surrogate_pair u v - 0x10000) mod 0x400 = unat v"
    unfolding surrogate_pair_def by simp_all
  moreover have "\<not> surrogate_pair u v < 0x10000"
    by (simp add: surrogate_pair_def)
  ultimately show ?thesis
    unfolding units_of_def by (simp only: if_False of_nat_unat ucast_id)
qed

lemma units_of_unit: "units_of (unat u) = [u]"
  using unit_bound [of u] by (simp add: units_of_def)

lemma units_code_points: "well_formed s \<Longrightarrow> concat (map units_of (code_points s)) = s"
  by (induction s rule: code_points.induct)
    (auto simp: units_of_pair units_of_unit split: if_splits)

lemma strip_bom_id: "well_formed s \<Longrightarrow> s = [] \<or> hd s \<noteq> 0xFEFF \<Longrightarrow> strip_bom (code_points s) = code_points s"
proof (cases s rule: code_points.cases)
  case (2 u)
  assume "well_formed s" "s = [] \<or> hd s \<noteq> 0xFEFF"
  with 2 have "unat u \<noteq> 0xFEFF"
    by (auto simp: word_unat_eq_iff)
  with 2 show ?thesis by (simp add: strip_bom_def)
next
  case (3 u v us)
  assume "well_formed s" "s = [] \<or> hd s \<noteq> 0xFEFF"
  with 3 have "unat u \<noteq> 0xFEFF"
    by (auto simp: word_unat_eq_iff)
  with 3 show ?thesis
    by (auto simp: strip_bom_def surrogate_pair_def)
qed (auto simp: strip_bom_def)

lemma text_round_trip:
  "well_formed s \<Longrightarrow> s = [] \<or> hd s \<noteq> 0xFEFF \<Longrightarrow> text_decode (text_encode s) = s"
  by (simp add: text_decode_def text_encode_def utf8_points_encode code_points_scalar
      strip_bom_id units_code_points)

text \<open>ASCII text is encoded unit by unit.\<close>

definition ascii :: "js_string \<Rightarrow> bool" where
  "ascii s \<longleftrightarrow> (\<forall>u \<in> set s. u < 0x80)"

lemma text_encode_ascii: "ascii s \<Longrightarrow> text_encode s = map (\<lambda>u. byte (unat u)) s"
proof (induction s rule: code_points.induct)
  case (2 u)
  then show ?case
    by (auto simp: ascii_def text_encode_def utf8_def high_surrogate_def low_surrogate_def
        word_less_nat_alt word_le_nat_alt)
next
  case (3 u v us)
  then have "text_encode (v # us) = map (\<lambda>u. byte (unat u)) (v # us)"
    by (auto simp: ascii_def high_surrogate_def low_surrogate_def word_less_nat_alt word_le_nat_alt)
  with 3 show ?case
    by (auto simp: ascii_def text_encode_def utf8_def high_surrogate_def low_surrogate_def
        word_less_nat_alt word_le_nat_alt)
qed (simp add: text_encode_def)

lemma text_encode_Nil [simp]: "text_encode [] = []"
  by (simp add: text_encode_def)

lemma utf8_not_Nil: "utf8 c \<noteq> []"
  by (simp add: utf8_def)

lemma text_encode_not_Nil: "s \<noteq> [] \<Longrightarrow> text_encode s \<noteq> []"
  by (cases s rule: code_points.cases) (simp_all add: text_encode_def utf8_not_Nil)

lemma text_encode_inject:
  assumes "well_formed s" "well_formed t" "text_encode s = text_encode t"
  shows "s = t"
proof -
  have "code_points s = code_points t"
    using assms(3) utf8_points_encode [OF code_points_scalar]
    unfolding text_encode_def by metis
  then show ?thesis
    using units_code_points assms(1,2) by metis
qed

lemma ascii_well_formed: "ascii s \<Longrightarrow> well_formed s"
proof (induction s rule: well_formed.induct)
  case (3 u v us)
  then show ?case
    by (auto simp: ascii_def high_surrogate_def low_surrogate_def word_less_nat_alt word_le_nat_alt)
qed (auto simp: ascii_def high_surrogate_def low_surrogate_def word_less_nat_alt word_le_nat_alt)

end
