(* ===== verification/Json.thy ===== *)
theory Json
  imports Js_Prelude
begin

text \<open>
  \<open>JSON.parse\<close> of the language, which the terminal uses on status frames, and the text
  \<open>JSON.stringify\<close> gives for the pair of numbers it sends. A number written without fraction or
  exponent is \<open>JInt\<close>, any other the exact decimal \<open>m * 10 ^ e\<close> of its literal. The parser takes fuel; \<open>fuel_enough\<close> shows that the fuel
  \<open>json_parse\<close> gives never runs out: any larger amount gives the same result.
\<close>

datatype json =
    JNull
  | JBool bool
  | JInt int
  | JNum int int
  | JStr js_string
  | JArr "json list"
  | JObj "(js_string \<times> json) list"

definition json_ws :: "16 word \<Rightarrow> bool" where
  "json_ws u \<longleftrightarrow> u = 0x20 \<or> u = 0x09 \<or> u = 0x0A \<or> u = 0x0D"

definition skip_ws :: "js_string \<Rightarrow> js_string" where
  "skip_ws s = dropWhile json_ws s"

definition hex_val :: "16 word \<Rightarrow> nat option" where
  "hex_val u =
     (if 0x30 \<le> u \<and> u \<le> 0x39 then Some (unat u - 0x30)
      else if 0x41 \<le> u \<and> u \<le> 0x46 then Some (unat u - 0x41 + 10)
      else if 0x61 \<le> u \<and> u \<le> 0x66 then Some (unat u - 0x61 + 10)
      else None)"

definition hex4 :: "js_string \<Rightarrow> 16 word option" where
  "hex4 s = (case s of
       [a, b, c, d] \<Rightarrow>
         (case (hex_val a, hex_val b, hex_val c, hex_val d) of
            (Some w, Some x, Some y, Some z) \<Rightarrow>
              Some (word_of_nat (((w * 16 + x) * 16 + y) * 16 + z))
          | _ \<Rightarrow> None)
     | _ \<Rightarrow> None)"

definition escape :: "16 word \<Rightarrow> 16 word option" where
  "escape e =
     (if e = 0x22 \<or> e = 0x5C \<or> e = 0x2F then Some e
      else if e = 0x62 then Some 0x08 else if e = 0x66 then Some 0x0C
      else if e = 0x6E then Some 0x0A else if e = 0x72 then Some 0x0D
      else if e = 0x74 then Some 0x09 else None)"

definition push :: "16 word \<Rightarrow> (js_string \<times> js_string) option \<Rightarrow> (js_string \<times> js_string) option" where
  "push u r = map_option (map_prod ((#) u) id) r"

function p_string :: "js_string \<Rightarrow> (js_string \<times> js_string) option" where
  "p_string [] = None"
| "p_string (c # cs) =
     (if c = 0x22 then Some ([], cs)
      else if c < 0x20 then None
      else if c \<noteq> 0x5C then push c (p_string cs)
      else (case cs of
          [] \<Rightarrow> None
        | e # es \<Rightarrow>
            if e = 0x75 then
              (case hex4 (take 4 es) of
                 None \<Rightarrow> None
               | Some u \<Rightarrow> push u (p_string (drop 4 es)))
            else (case escape e of None \<Rightarrow> None | Some u \<Rightarrow> push u (p_string es))))"
  by pat_completeness auto
termination
  by (relation "measure length") auto

definition exp_part :: "js_string \<Rightarrow> (int \<times> js_string) option" where
  "exp_part s = (case s of
       e # es \<Rightarrow>
         if e = 0x65 \<or> e = 0x45 then
           (let neg = (es \<noteq> [] \<and> hd es = 0x2D);
                ds = (if es \<noteq> [] \<and> (hd es = 0x2D \<or> hd es = 0x2B) then tl es else es);
                v = takeWhile is_digit ds
            in if v = [] then None
               else Some (if neg then - int (digits_val v) else int (digits_val v), dropWhile is_digit ds))
         else Some (0, s)
     | [] \<Rightarrow> Some (0, []))"

definition frac_part :: "js_string \<Rightarrow> (js_string \<times> js_string) option" where
  "frac_part s = (case s of
       d # ds \<Rightarrow>
         if d = 0x2E then
           (if takeWhile is_digit ds = [] then None
            else Some (takeWhile is_digit ds, dropWhile is_digit ds))
         else Some ([], s)
     | [] \<Rightarrow> Some ([], []))"

definition p_number :: "js_string \<Rightarrow> (json \<times> js_string) option" where
  "p_number s =
     (let neg = (s \<noteq> [] \<and> hd s = 0x2D);
          t = (if neg then tl s else s);
          i = (if t \<noteq> [] \<and> hd t = 0x30 then [0x30] else takeWhile is_digit t);
          r = drop (length i) t
      in if i = [] then None
         else (case frac_part r of
             None \<Rightarrow> None
           | Some (f, r2) \<Rightarrow>
               (case exp_part r2 of
                  None \<Rightarrow> None
                | Some (e, r3) \<Rightarrow>
                    (let m = int (digits_val (i @ f));
                         v = (if neg then - m else m)
                     in Some (if r3 = r then JInt v else JNum v (e - int (length f)), r3)))))"

fun p_value :: "nat \<Rightarrow> js_string \<Rightarrow> (json \<times> js_string) option"
  and p_elems :: "nat \<Rightarrow> js_string \<Rightarrow> (json list \<times> js_string) option"
  and p_members :: "nat \<Rightarrow> js_string \<Rightarrow> ((js_string \<times> json) list \<times> js_string) option" where
  "p_value 0 s = None"
| "p_value (Suc n) s = (case s of
       [] \<Rightarrow> None
     | c # cs \<Rightarrow>
         if c = 0x7B then
           (case skip_ws cs of
              [] \<Rightarrow> None
            | d # ds \<Rightarrow> if d = 0x7D then Some (JObj [], ds)
                else map_option (map_prod JObj id) (p_members n (d # ds)))
         else if c = 0x5B then
           (case skip_ws cs of
              [] \<Rightarrow> None
            | d # ds \<Rightarrow> if d = 0x5D then Some (JArr [], ds)
                else map_option (map_prod JArr id) (p_elems n (d # ds)))
         else if c = 0x22 then map_option (map_prod JStr id) (p_string cs)
         else if starts_with s (js ''true'') then Some (JBool True, drop 4 s)
         else if starts_with s (js ''false'') then Some (JBool False, drop 5 s)
         else if starts_with s (js ''null'') then Some (JNull, drop 4 s)
         else p_number s)"
| "p_elems 0 s = None"
| "p_elems (Suc n) s = (case p_value n (skip_ws s) of
       None \<Rightarrow> None
     | Some (v, r) \<Rightarrow> (case skip_ws r of
           [] \<Rightarrow> None
         | c # cs \<Rightarrow>
             if c = 0x5D then Some ([v], cs)
             else if c = 0x2C then map_option (map_prod ((#) v) id) (p_elems n cs)
             else None))"
| "p_members 0 s = None"
| "p_members (Suc n) s = (case skip_ws s of
       [] \<Rightarrow> None
     | q # qs \<Rightarrow>
         if q \<noteq> 0x22 then None
         else (case p_string qs of
             None \<Rightarrow> None
           | Some (k, r) \<Rightarrow> (case skip_ws r of
                 [] \<Rightarrow> None
               | c # cs \<Rightarrow>
                   if c \<noteq> 0x3A then None
                   else (case p_value n (skip_ws cs) of
                       None \<Rightarrow> None
                     | Some (v, r2) \<Rightarrow> (case skip_ws r2 of
                           [] \<Rightarrow> None
                         | d # ds \<Rightarrow>
                             if d = 0x7D then Some ([(k, v)], ds)
                             else if d = 0x2C then map_option (map_prod ((#) (k, v)) id) (p_members n ds)
                             else None)))))"

definition json_parse :: "js_string \<Rightarrow> json option" where
  "json_parse s = (case p_value (2 * length s + 1) (skip_ws s) of
       Some (v, r) \<Rightarrow> if skip_ws r = [] then Some v else None
     | None \<Rightarrow> None)"

text \<open>The truth value of a JSON value, as \<open>||\<close> and \<open>if\<close> read it.\<close>

definition json_truthy :: "json \<Rightarrow> bool" where
  "json_truthy v = (case v of
       JNull \<Rightarrow> False | JBool b \<Rightarrow> b | JInt i \<Rightarrow> i \<noteq> 0 | JNum m _ \<Rightarrow> m \<noteq> 0 | JStr s \<Rightarrow> s \<noteq> []
     | JArr _ \<Rightarrow> True | JObj _ \<Rightarrow> True)"

text \<open>Reading a property of an object: the last of several equal keys wins.\<close>

definition json_prop :: "json \<Rightarrow> js_string \<Rightarrow> json option" where
  "json_prop v k = (case v of JObj kvs \<Rightarrow> map_of (rev kvs) k | _ \<Rightarrow> None)"

section \<open>The fuel is enough\<close>

lemma skip_ws_length: "length (skip_ws s) \<le> length s"
  unfolding skip_ws_def by (rule length_dropWhile_le)

lemma p_string_length: "p_string s = Some (k, r) \<Longrightarrow> length r < length s"
proof (induction s arbitrary: k r rule: p_string.induct)
  case (2 c cs)
  then show ?case
    by (fastforce simp: push_def split: if_splits list.splits option.splits)
qed simp

lemma exp_part_length: "exp_part s = Some (e, r) \<Longrightarrow> length r \<le> length s"
  by (auto simp: exp_part_def Let_def length_dropWhile_le le_SucI split: list.splits if_splits
      intro!: le_trans [OF length_dropWhile_le])

lemma frac_part_length: "frac_part s = Some (f, r) \<Longrightarrow> length r \<le> length s"
  by (auto simp: frac_part_def length_dropWhile_le le_SucI split: list.splits if_splits)

lemma p_number_length: "p_number s = Some (v, r) \<Longrightarrow> length r < length s"
proof -
  assume p: "p_number s = Some (v, r)"
  define t where "t = (if s \<noteq> [] \<and> hd s = 0x2D then tl s else s)"
  define i where "i = (if t \<noteq> [] \<and> hd t = 0x30 then [0x30] else takeWhile is_digit t)"
  obtain f r2 e where i: "i \<noteq> []" and f: "frac_part (drop (length i) t) = Some (f, r2)"
    and e: "exp_part r2 = Some (e, r)"
    using p unfolding p_number_def Let_def t_def [symmetric] i_def [symmetric]
    by (auto split: if_splits option.splits prod.splits)
  have "t \<noteq> []"
    using i by (auto simp: i_def)
  then have "length (drop (length i) t) < length t"
    using i by (cases i) auto
  moreover have "length t \<le> length s"
    by (auto simp: t_def)
  ultimately show ?thesis
    using frac_part_length [OF f] exp_part_length [OF e] by simp
qed

lemma starts_with_not_Nil: "starts_with s p \<Longrightarrow> p \<noteq> [] \<Longrightarrow> 0 < length s"
  by (auto simp: starts_with_def)

lemma parse_length:
  "p_value n s = Some (v, r) \<Longrightarrow> length r < length s"
  "p_elems n s = Some (vs, r) \<Longrightarrow> length r < length s"
  "p_members n s = Some (kvs, r) \<Longrightarrow> length r < length s"
proof (induction n s and n s and n s arbitrary: v r and vs r and kvs r
    rule: p_value_p_elems_p_members.induct)
  case (2 n s)
  show ?case
  proof (cases s)
    case (Cons c cs)
    note ws = skip_ws_length [of cs]
    show ?thesis
      using "2.prems" "2.IH" Cons ws
      by (fastforce split: if_splits list.splits dest: p_string_length p_number_length)
  qed (use "2.prems" in simp)
next
  case (4 n s)
  then obtain w q where w: "p_value n (skip_ws s) = Some (w, q)"
    by (auto split: option.splits)
  with "4.IH"(1) have "length q < length s"
    using skip_ws_length [of s] by fastforce
  then show ?case
    using 4 w skip_ws_length [of q] by (fastforce split: list.splits if_splits)
next
  case (6 n s)
  then obtain k q where w: "skip_ws s = 0x22 # q"
    by (auto split: list.splits if_splits)
  then have "length q < length s"
    using skip_ws_length [of s] by simp
  moreover obtain u r1 where u: "p_string q = Some (u, r1)"
    using "6.prems" w by (auto split: option.splits)
  moreover obtain cs where c: "skip_ws r1 = 0x3A # cs"
    using "6.prems" w u by (auto split: list.splits if_splits)
  moreover obtain x r2 where x: "p_value n (skip_ws cs) = Some (x, r2)"
    using "6.prems" w u c by (auto split: option.splits)
  moreover have "length r2 < length (skip_ws cs)"
    by (rule "6.IH"(1) [OF w _ u refl c _ x]) simp_all
  ultimately have "length r2 < length s"
    using p_string_length [OF u] skip_ws_length [of r1] skip_ws_length [of cs] by simp
  then show ?case
    using 6 w u c x skip_ws_length [of r2] by (fastforce split: list.splits if_splits)
qed auto

text \<open>Any two amounts of fuel above the bound agree, so running out is never the reason for a
  failure: twice the length and one for a value, one more for the elements of an array or object.\<close>

lemma fuel_step:
  assumes v: "\<And>s m. 2 * length s + 1 \<le> n \<Longrightarrow> 2 * length s + 1 \<le> m \<Longrightarrow> p_value n s = p_value m s"
    and e: "\<And>s m. 2 * length s + 2 \<le> n \<Longrightarrow> 2 * length s + 2 \<le> m \<Longrightarrow> p_elems n s = p_elems m s"
    and k: "\<And>s m. 2 * length s + 2 \<le> n \<Longrightarrow> 2 * length s + 2 \<le> m \<Longrightarrow> p_members n s = p_members m s"
  shows "2 * length s + 1 \<le> Suc n \<Longrightarrow> 2 * length s + 1 \<le> Suc m \<Longrightarrow> p_value (Suc n) s = p_value (Suc m) s"
    and "2 * length s + 2 \<le> Suc n \<Longrightarrow> 2 * length s + 2 \<le> Suc m \<Longrightarrow> p_elems (Suc n) s = p_elems (Suc m) s"
    and "2 * length s + 2 \<le> Suc n \<Longrightarrow> 2 * length s + 2 \<le> Suc m \<Longrightarrow> p_members (Suc n) s = p_members (Suc m) s"
proof -
  assume b: "2 * length s + 1 \<le> Suc n" "2 * length s + 1 \<le> Suc m"
  show "p_value (Suc n) s = p_value (Suc m) s"
  proof (cases s)
    case (Cons c cs)
    have "p_elems n (d # ds) = p_elems m (d # ds)" "p_members n (d # ds) = p_members m (d # ds)"
      if "skip_ws cs = d # ds" for d ds
      using that b Cons skip_ws_length [of cs] by (auto intro!: e k)
    then show ?thesis
      using Cons by (simp split: list.split)
  qed simp
next
  assume b: "2 * length s + 2 \<le> Suc n" "2 * length s + 2 \<le> Suc m"
  have w: "p_value n (skip_ws s) = p_value m (skip_ws s)"
    using b skip_ws_length [of s] by (intro v) auto
  have "p_elems n cs = p_elems m cs"
    if "p_value m (skip_ws s) = Some (x, r)" "skip_ws r = c # cs" for x r c cs
    using that b parse_length(1) [OF that(1)] skip_ws_length [of s] skip_ws_length [of r]
    by (intro e) auto
  then show "p_elems (Suc n) s = p_elems (Suc m) s"
    by (simp add: w split: list.split option.split)
next
  assume b: "2 * length s + 2 \<le> Suc n" "2 * length s + 2 \<le> Suc m"
  have w: "p_value n (skip_ws cs) = p_value m (skip_ws cs)"
    if "skip_ws s = q # qs" "p_string qs = Some (x, r)" "skip_ws r = c # cs" for q qs x r c cs
    using that b p_string_length [OF that(2)] skip_ws_length [of s] skip_ws_length [of r]
      skip_ws_length [of cs] by (intro v) auto
  have z: "p_members n ds = p_members m ds"
    if "skip_ws s = q # qs" "p_string qs = Some (x, r)" "skip_ws r = c # cs"
      "p_value m (skip_ws cs) = Some (y, r2)" "skip_ws r2 = d # ds" for q qs x r c cs y r2 d ds
    using that b p_string_length [OF that(2)] skip_ws_length [of s] skip_ws_length [of r]
      skip_ws_length [of cs] parse_length(1) [OF that(4)] skip_ws_length [of r2]
    by (intro k) auto
  show "p_members (Suc n) s = p_members (Suc m) s"
    using w z by (simp split: list.split option.split)
qed

lemma fuel_enough:
  "2 * length s + 1 \<le> n \<Longrightarrow> 2 * length s + 1 \<le> m \<Longrightarrow> p_value n s = p_value m s"
  "2 * length s + 2 \<le> n \<Longrightarrow> 2 * length s + 2 \<le> m \<Longrightarrow> p_elems n s = p_elems m s"
  "2 * length s + 2 \<le> n \<Longrightarrow> 2 * length s + 2 \<le> m \<Longrightarrow> p_members n s = p_members m s"
proof (induction n arbitrary: s m)
  case (Suc n)
  note step = fuel_step [of n, OF Suc.IH]
  {
    case 1
    then show ?case by (cases m) (auto intro: step(1) simp del: p_value.simps)
  next
    case 2
    then show ?case by (cases m) (auto intro: step(2) simp del: p_elems.simps)
  next
    case 3
    then show ?case by (cases m) (auto intro: step(3) simp del: p_members.simps)
  }
qed auto

section \<open>Printing a pair of numbers\<close>

text \<open>\<open>JSON.stringify({ a, b })\<close> for two natural numbers: the keys in the order they were written.\<close>

definition json_pair :: "js_string \<Rightarrow> nat \<Rightarrow> js_string \<Rightarrow> nat \<Rightarrow> js_string" where
  "json_pair k m l n =
     0x7B # 0x22 # k @ [0x22, 0x3A] @ nat_digits m @ [0x2C, 0x22] @ l @ [0x22, 0x3A] @
     nat_digits n @ [0x7D]"

definition plain_key :: "js_string \<Rightarrow> bool" where
  "plain_key k \<longleftrightarrow> (\<forall>u \<in> set k. u \<noteq> 0x22 \<and> u \<noteq> 0x5C \<and> 0x20 \<le> u)"

lemma p_string_plain: "plain_key k \<Longrightarrow> p_string (k @ 0x22 # s) = Some (k, s)"
  by (induction k) (auto simp: plain_key_def push_def)

lemma nat_digits_hd_nonzero: "0 < n \<Longrightarrow> hd (nat_digits n) \<noteq> 0x30"
proof (induction n rule: nat_digits.induct)
  case (1 n)
  show ?case
  proof (cases "n < 10")
    case True
    then have "unat (digit_unit n) \<noteq> unat (0x30 :: 16 word)"
      using "1.prems" by (simp add: unat_digit_unit)
    then show ?thesis
      using True by (subst nat_digits.simps) auto
  next
    case False
    then show ?thesis
      using "1.IH" by (subst nat_digits.simps) simp
  qed
qed

lemma nat_digits_0: "nat_digits 0 = [0x30]"
  by (subst nat_digits.simps) (simp add: digit_unit_def)

definition number_ends :: "js_string \<Rightarrow> bool" where
  "number_ends r \<longleftrightarrow>
     (r = [] \<or> \<not> is_digit (hd r) \<and> hd r \<noteq> 0x2E \<and> hd r \<noteq> 0x65 \<and> hd r \<noteq> 0x45)"

lemma takeWhile_digits:
  "number_ends r \<Longrightarrow> takeWhile is_digit (nat_digits n @ r) = nat_digits n"
  using nat_digits_are_digits [of n] by (cases r) (auto simp: number_ends_def takeWhile_append)

lemma number_rest: "number_ends r \<Longrightarrow> frac_part r = Some ([], r) \<and> exp_part r = Some (0, r)"
  by (cases r) (auto simp: number_ends_def frac_part_def exp_part_def)

lemma nat_digits_hd_digit: "is_digit (hd (nat_digits n @ r))"
  using nat_digits_are_digits [of n] by (simp add: hd_append)

lemma p_number_nat: "number_ends r \<Longrightarrow> p_number (nat_digits n @ r) = Some (JInt (int n), r)"
proof -
  assume r: "number_ends r"
  have m: "hd (nat_digits n @ r) \<noteq> 0x2D"
    using nat_digits_hd_digit [of n r] by (auto simp: is_digit_def word_le_nat_alt)
  have i: "(if hd (nat_digits n @ r) = 0x30 then [0x30] else takeWhile is_digit (nat_digits n @ r))
      = nat_digits n"
    using r nat_digits_hd_nonzero [of n]
    by (cases "n = 0") (simp_all add: nat_digits_0 takeWhile_digits)
  show ?thesis
    using m i number_rest [OF r] by (simp add: p_number_def Let_def cong: if_cong)
qed

lemma js_keyword_units:
  "hd (js ''true'') = 0x74" "hd (js ''false'') = 0x66" "hd (js ''null'') = 0x6E"
  by (simp_all add: js_def of_char_def)

lemma starts_with_hd: "starts_with s p \<Longrightarrow> p \<noteq> [] \<Longrightarrow> hd s = hd p"
  unfolding starts_with_def by (cases s; cases p) auto

lemma p_value_nat:
  assumes "number_ends r"
  shows "p_value (Suc k) (nat_digits n @ r) = Some (JInt (int n), r)"
proof -
  obtain c cs where c: "nat_digits n @ r = c # cs" and d: "is_digit c"
    using nat_digits_hd_digit [of n r] by (cases "nat_digits n @ r") auto
  have "c \<noteq> 0x7B" "c \<noteq> 0x5B" "c \<noteq> 0x22" "c \<noteq> 0x74" "c \<noteq> 0x66" "c \<noteq> 0x6E"
    using d by (auto simp: is_digit_def word_le_nat_alt)
  moreover from this have "\<not> starts_with (c # cs) (js ''true'')"
    "\<not> starts_with (c # cs) (js ''false'')" "\<not> starts_with (c # cs) (js ''null'')"
    using starts_with_hd [of "c # cs"] js_keyword_units by fastforce+
  ultimately show ?thesis
    using p_number_nat [OF assms, of n] by (simp add: c)
qed

lemma skip_ws_plain: "s = [] \<or> \<not> json_ws (hd s) \<Longrightarrow> skip_ws s = s"
  unfolding skip_ws_def by (rule dropWhile_keep)

lemma json_pair_members:
  assumes "plain_key k" "plain_key l"
  shows "p_members (Suc (Suc (Suc n))) (tl (json_pair k a l b))
    = Some ([(k, JInt (int a)), (l, JInt (int b))], [])"
proof -
  have w: "skip_ws (nat_digits x @ r) = nat_digits x @ r" for x r
    using nat_digits_hd_digit [of x r]
    by (intro skip_ws_plain) (auto simp: is_digit_def json_ws_def word_le_nat_alt)
  have v: "p_value (Suc m) (nat_digits x @ c # r) = Some (JInt (int x), c # r)"
    if "c = 0x2C \<or> c = 0x7D" for m x c r
    using that by (intro p_value_nat) (auto simp: number_ends_def is_digit_def word_le_nat_alt)
  have s: "skip_ws (c # r) = c # r" if "c \<in> {0x22, 0x2C, 0x3A, 0x7D}" for c r
    using that by (intro skip_ws_plain) (auto simp: json_ws_def)
  show ?thesis
    using assms by (simp add: json_pair_def s w v p_string_plain del: p_value.simps)
qed

lemma json_pair_round_trip:
  assumes "plain_key k" "plain_key l"
  shows "json_parse (json_pair k a l b)
    = Some (JObj [(k, JInt (int a)), (l, JInt (int b))])"
proof -
  let ?s = "json_pair k a l b"
  have ws: "skip_ws ?s = ?s"
    by (intro skip_ws_plain) (simp add: json_pair_def json_ws_def)
  have tl: "skip_ws (tl ?s) = tl ?s"
    by (intro skip_ws_plain) (simp add: json_pair_def json_ws_def)
  obtain n where n: "2 * length ?s + 1 = Suc (Suc (Suc (Suc n)))"
    by (simp add: json_pair_def)
  obtain t where t: "?s = 0x7B # 0x22 # t"
    by (simp add: json_pair_def)
  then have "p_value (Suc (Suc (Suc (Suc n)))) ?s
      = map_option (map_prod JObj id) (p_members (Suc (Suc (Suc n))) (tl ?s))"
    using tl by (simp del: p_members.simps)
  then have "p_value (2 * length ?s + 1) (skip_ws ?s)
      = Some (JObj [(k, JInt (int a)), (l, JInt (int b))], [])"
    unfolding n ws using json_pair_members [OF assms] by simp
  then show ?thesis
    unfolding json_parse_def by (simp add: skip_ws_def [of "[]"])
qed

end
