(* ===== verification/Terminal_Frames.thy ===== *)
theory Terminal_Frames
  imports Codec Json
begin

text \<open>
  The frames the terminal sends (\<open>hooks/useTerminalConnection.ts\<close>): \<open>inputFrames\<close> cuts the UTF-8
  bytes of typed or pasted text into chunks of at most 16 KiB, each behind the protocol byte 0, and
  the resize frame carries the JSON text of the terminal's size behind the byte 1.
\<close>

definition input_chunk_bytes :: nat where
  "input_chunk_bytes = 16 * 1024"

text \<open>The generator's loop, from an offset.\<close>

function frames_from :: "nat \<Rightarrow> bytes \<Rightarrow> bytes list" where
  "frames_from offset bs =
     (if offset < length bs
      then (0 # take input_chunk_bytes (drop offset bs)) # frames_from (offset + input_chunk_bytes) bs
      else [])"
  by pat_completeness auto
termination
  by (relation "measure (\<lambda>(offset, bs). length bs - offset)") (auto simp: input_chunk_bytes_def)

declare frames_from.simps [simp del]

definition input_frames :: "js_string \<Rightarrow> bytes list" where
  "input_frames data = frames_from 0 (text_encode data)"

definition resize_frame :: "nat \<Rightarrow> nat \<Rightarrow> bytes" where
  "resize_frame cols rows = 1 # text_encode (json_pair (js ''cols'') cols (js ''rows'') rows)"

text \<open>What a list of frames carries to the shell's standard input: the payloads of the frames that
  start with byte 0, in order.\<close>

definition stdin_of :: "bytes list \<Rightarrow> bytes" where
  "stdin_of fs = concat (map tl (filter (\<lambda>f. f \<noteq> [] \<and> hd f = 0) fs))"

lemma stdin_of_simps [simp]:
  "stdin_of [] = []"
  "stdin_of (f # fs) = (if f \<noteq> [] \<and> hd f = 0 then tl f else []) @ stdin_of fs"
  "stdin_of (fs @ gs) = stdin_of fs @ stdin_of gs"
  by (auto simp: stdin_of_def)

definition stdin_frame :: "bytes \<Rightarrow> bool" where
  "stdin_frame f \<longleftrightarrow> f \<noteq> [] \<and> hd f = 0 \<and> 1 < length f \<and> length f \<le> input_chunk_bytes + 1"

lemma chunk_pos: "0 < input_chunk_bytes"
  by (simp add: input_chunk_bytes_def)

lemma frames_from_stdin: "stdin_of (frames_from offset bs) = drop offset bs"
proof (induction offset bs rule: frames_from.induct)
  case (1 offset bs)
  show ?case
  proof (cases "offset < length bs")
    case True
    have "drop offset bs = take input_chunk_bytes (drop offset bs) @ drop (offset + input_chunk_bytes) bs"
      by (metis add.commute append_take_drop_id drop_drop)
    with True 1 show ?thesis
      by (subst frames_from.simps) simp
  next
    case False
    then show ?thesis
      by (subst frames_from.simps) simp
  qed
qed

lemma frames_from_shape: "f \<in> set (frames_from offset bs) \<Longrightarrow> stdin_frame f"
proof (induction offset bs rule: frames_from.induct)
  case (1 offset bs)
  then show ?case
    using chunk_pos by (subst (asm) frames_from.simps) (auto simp: stdin_frame_def split: if_splits)
qed

lemma ceil_div_step:
  fixes n k :: nat
  assumes "0 < k" "0 < n"
  shows "(n + (k - 1)) div k = Suc ((n - k + (k - 1)) div k)"
proof (cases "k \<le> n")
  case True
  then have "n + (k - 1) = k + (n - k + (k - 1))"
    by simp
  then show ?thesis
    using assms(1) div_add_self1 [of k "n - k + (k - 1)"] by simp
next
  case False
  then have e: "n + (k - 1) = k + (n - 1)" "(n - 1) div k = 0" "(n - k + (k - 1)) div k = 0"
    using assms by auto
  have "(k + (n - 1)) div k = (n - 1) div k + 1"
    using assms(1) by (intro div_add_self1) simp
  then show ?thesis
    by (simp only: e)
qed

lemma length_frames_from:
  "length (frames_from offset bs) = (length bs - offset + (input_chunk_bytes - 1)) div input_chunk_bytes"
proof (induction offset bs rule: frames_from.induct)
  case (1 offset bs)
  then show ?case
    using ceil_div_step [OF chunk_pos, of "length bs - offset"] chunk_pos
    by (subst frames_from.simps) (auto simp: diff_diff_left)
qed

lemma input_frames_stdin: "stdin_of (input_frames data) = text_encode data"
  by (simp add: input_frames_def frames_from_stdin)

lemma input_frames_shape: "f \<in> set (input_frames data) \<Longrightarrow> stdin_frame f"
  by (simp add: input_frames_def frames_from_shape)

lemma resize_frame_stdin [simp]: "stdin_of [resize_frame c r] = []"
  by (simp add: resize_frame_def)

text \<open>
  \<open>inputFrames\<close> neither drops, repeats nor reorders a byte: the payloads of the frames,
  in order, are the UTF-8 bytes of the text; every frame is the byte 0 followed by 1 to 16384 payload
  bytes; and there are as few frames as that bound allows.
\<close>

lemma input_frames_exact:
  "concat (map tl (input_frames data)) = text_encode data
   \<and> list_all (\<lambda>f. hd f = 0 \<and> 2 \<le> length f \<and> length f \<le> 16385) (input_frames data)
   \<and> length (input_frames data) = (length (text_encode data) + 16383) div 16384"
proof (intro conjI)
  have "filter (\<lambda>f. f \<noteq> [] \<and> hd f = 0) (input_frames data) = input_frames data"
    using input_frames_shape by (auto simp: stdin_frame_def intro: filter_True)
  then show "concat (map tl (input_frames data)) = text_encode data"
    using input_frames_stdin [of data] by (simp add: stdin_of_def)
  show "list_all (\<lambda>f. hd f = 0 \<and> 2 \<le> length f \<and> length f \<le> 16385) (input_frames data)"
    using input_frames_shape by (fastforce simp: list_all_iff stdin_frame_def input_chunk_bytes_def)
  show "length (input_frames data) = (length (text_encode data) + 16383) div 16384"
    by (simp add: input_frames_def length_frames_from input_chunk_bytes_def)
qed

text \<open>The text of a size.\<close>

lemma size_keys:
  "ascii (js ''cols'')" "ascii (js ''rows'')" "plain_key (js ''cols'')" "plain_key (js ''rows'')"
  by (simp_all add: ascii_def plain_key_def js_def of_char_def)

lemma size_text_ascii: "ascii (json_pair (js ''cols'') c (js ''rows'') r)"
proof -
  have "ascii (nat_digits n)" for n
    using nat_digits_are_digits [of n]
    by (auto simp: ascii_def is_digit_def word_less_nat_alt word_le_nat_alt)
  then show ?thesis
    using size_keys by (auto simp: json_pair_def ascii_def)
qed

text \<open>
  A resize frame loses nothing: the text behind its type byte decodes and parses as the
  object with exactly the two dimensions the terminal has.
\<close>

lemma resize_frame_round_trip:
  "hd (resize_frame cols rows) = 1
   \<and> json_parse (text_decode (tl (resize_frame cols rows)))
     = Some (JObj [(js ''cols'', JInt (int cols)), (js ''rows'', JInt (int rows))])"
proof -
  let ?t = "json_pair (js ''cols'') cols (js ''rows'') rows"
  have "hd ?t \<noteq> 0xFEFF"
    by (simp add: json_pair_def)
  then have "text_decode (text_encode ?t) = ?t"
    using size_text_ascii by (intro text_round_trip ascii_well_formed) auto
  then show ?thesis
    using size_keys by (simp add: resize_frame_def json_pair_round_trip)
qed

end
