(* ===== verification/Interfaces.thy ===== *)
theory Interfaces
  imports Js_Prelude
begin

text \<open>
  The contracts that several components share, as locales. Each is interpreted on the components'
  own definitions in the theory that declares them:
  \<^item> \<open>kv_store\<close>: a store with lookup, insertion and deletion (the browser's \<open>localStorage\<close>);
  \<^item> \<open>machine\<close>: a step function that keeps an invariant;
  \<^item> \<open>generation_machine\<close>: a machine with a counter that every new request or connection raises,
    so that a callback which remembers an old value of the counter is never current again.
\<close>

section \<open>Runs of a step function\<close>

definition run :: "('s \<Rightarrow> 'e \<Rightarrow> 's) \<Rightarrow> 's \<Rightarrow> 'e list \<Rightarrow> 's" where
  "run step s es = foldl step s es"

lemma run_simps [simp]:
  "run step s [] = s"
  "run step s (e # es) = run step (step s e) es"
  by (simp_all add: run_def)

lemma run_append: "run step s (xs @ ys) = run step (run step s xs) ys"
  by (simp add: run_def)

section \<open>Key-value stores\<close>

locale kv_store =
  fixes get :: "'s \<Rightarrow> 'k \<Rightarrow> 'v option"
    and put :: "'k \<Rightarrow> 'v \<Rightarrow> 's \<Rightarrow> 's"
    and del :: "'k \<Rightarrow> 's \<Rightarrow> 's"
  assumes get_put: "get (put k v s) j = (if j = k then Some v else get s j)"
    and get_del: "get (del k s) j = (if j = k then None else get s j)"
begin

lemma get_put_same: "get (put k v s) k = Some v"
  by (simp add: get_put)

lemma get_put_other: "j \<noteq> k \<Longrightarrow> get (put k v s) j = get s j"
  by (simp add: get_put)

lemma get_del_same: "get (del k s) k = None"
  by (simp add: get_del)

lemma get_put_pair:
  "k \<noteq> l \<Longrightarrow> get (put l w (put k v s)) k = Some v \<and> get (put l w (put k v s)) l = Some w"
  by (simp add: get_put)

lemma get_del_pair: "get (del l (del k s)) k = None \<and> get (del l (del k s)) l = None"
  by (simp add: get_del)

lemma get_frame_pair:
  "j \<noteq> k \<Longrightarrow> j \<noteq> l \<Longrightarrow> get (put l w (put k v s)) j = get s j \<and> get (del l (del k s)) j = get s j"
  by (simp add: get_put get_del)

end

section \<open>Machines with an invariant\<close>

locale machine =
  fixes step :: "'s \<Rightarrow> 'e \<Rightarrow> 's"
    and inv :: "'s \<Rightarrow> bool"
  assumes step_inv: "inv s \<Longrightarrow> inv (step s e)"
begin

lemma run_inv: "inv s \<Longrightarrow> inv (run step s es)"
  by (induction es arbitrary: s) (auto intro: step_inv)

lemma run_inv_prefix: "inv s \<Longrightarrow> \<exists>u. run step s (xs @ ys) = run step u ys \<and> inv u"
  by (auto simp: run_append intro: run_inv)

end

section \<open>Machines with a generation counter\<close>

locale generation_machine =
  fixes step :: "'s \<Rightarrow> 'e \<Rightarrow> 's"
    and gen :: "'s \<Rightarrow> nat"
    and starts :: "'s \<Rightarrow> 'e \<Rightarrow> bool"
  assumes gen_mono: "gen s \<le> gen (step s e)"
    and gen_starts: "starts s e \<Longrightarrow> gen s < gen (step s e)"
begin

lemma run_gen_mono: "gen s \<le> gen (run step s es)"
proof (induction es arbitrary: s)
  case (Cons e es)
  then show ?case
    using gen_mono [of s e] le_trans by fastforce
qed simp

lemma stale_stays_stale: "i < gen s \<Longrightarrow> gen (run step s es) \<noteq> i"
  using run_gen_mono [of s es] by simp

lemma superseded: "starts s e \<Longrightarrow> gen (run step (step s e) es) \<noteq> gen s"
  using stale_stays_stale [OF gen_starts] .

lemma superseded_later:
  "starts (run step s xs) e \<Longrightarrow> gen (run step s (xs @ e # ys)) \<noteq> gen s"
  using run_gen_mono [of s xs] gen_starts [of "run step s xs" e]
    stale_stays_stale [of "gen s" "step (run step s xs) e" ys]
  by (simp add: run_append)

end

end
