(* ===== verification/Browser.thy ===== *)
theory Browser
  imports Interfaces Codec
begin

text \<open>
  The parts of the browser the code talks to: \<open>localStorage\<close> (a map from strings to strings, and an
  instance of \<open>kv_store\<close>), \<open>location\<close>, \<open>encodeURIComponent\<close>, and the WebSocket object with the
  rules of its standard: \<open>send\<close> raises while the socket is connecting, adds to
  \<open>bufferedAmount\<close> and is silently discarded once the socket is closing.
\<close>

section \<open>Local storage\<close>

type_synonym storage = "js_string \<rightharpoonup> js_string"

definition get_item :: "storage \<Rightarrow> js_string \<Rightarrow> js_string option" where
  "get_item s k = s k"

definition set_item :: "js_string \<Rightarrow> js_string \<Rightarrow> storage \<Rightarrow> storage" where
  "set_item k v s = s(k \<mapsto> v)"

definition remove_item :: "js_string \<Rightarrow> storage \<Rightarrow> storage" where
  "remove_item k s = s(k := None)"

interpretation local_storage: kv_store get_item set_item remove_item
  by unfold_locales (auto simp: get_item_def set_item_def remove_item_def)

lemmas storage_simps [simp] = local_storage.get_put local_storage.get_del

section \<open>Location and URI components\<close>

record location =
  loc_protocol :: js_string
  loc_host :: js_string

text \<open>The characters \<open>encodeURIComponent\<close> leaves alone: letters, digits and \<open>-_.!~*'()\<close>.\<close>

definition unreserved :: "nat \<Rightarrow> bool" where
  "unreserved c \<longleftrightarrow>
     (0x41 \<le> c \<and> c \<le> 0x5A) \<or> (0x61 \<le> c \<and> c \<le> 0x7A) \<or> (0x30 \<le> c \<and> c \<le> 0x39) \<or>
     c \<in> {0x2D, 0x5F, 0x2E, 0x21, 0x7E, 0x2A, 0x27, 0x28, 0x29}"

definition hex_unit :: "nat \<Rightarrow> 16 word" where
  "hex_unit n = word_of_nat (if n < 10 then 0x30 + n else 0x37 + n)"

definition percent :: "8 word \<Rightarrow> js_string" where
  "percent b = [0x25, hex_unit (unat b div 16), hex_unit (unat b mod 16)]"

definition encode_point :: "nat \<Rightarrow> js_string" where
  "encode_point c = (if unreserved c then [word_of_nat c] else concat (map percent (utf8 c)))"

text \<open>A lone surrogate makes \<open>encodeURIComponent\<close> raise \<open>URIError\<close>: no value.\<close>

definition encode_uri_component :: "js_string \<Rightarrow> js_string option" where
  "encode_uri_component s =
     (if well_formed s then Some (concat (map encode_point (code_points s))) else None)"

text \<open>The reader of percent-encoded text, as a server applies it to a query value.\<close>

definition unhex :: "16 word \<Rightarrow> nat" where
  "unhex u = (if unat u < 0x3A then unat u - 0x30 else unat u - 0x37)"

fun percent_decode :: "js_string \<Rightarrow> bytes" where
  "percent_decode (u # h # l # us) =
     (if u = 0x25 then byte (unhex h * 16 + unhex l) # percent_decode us
      else byte (unat u) # percent_decode (h # l # us))"
| "percent_decode (u # us) = byte (unat u) # percent_decode us"
| "percent_decode [] = []"

lemma unat_hex_unit: "n < 16 \<Longrightarrow> unat (hex_unit n) = (if n < 10 then 0x30 + n else 0x37 + n)"
  unfolding hex_unit_def by (subst unat_of_nat) simp

lemma unhex_hex_unit [simp]: "n < 16 \<Longrightarrow> unhex (hex_unit n) = n"
  by (simp add: unhex_def unat_hex_unit)

lemma byte_unat [simp]: "byte (unat b) = b"
  by (simp add: byte_def)

lemma unat_byte_bound: "unat (b :: 8 word) < 256"
proof -
  have "unat b < 2 ^ LENGTH(8)"
    by (rule unsigned_less)
  then show ?thesis by simp
qed

lemma percent_decode_percent: "percent_decode (percent b @ s) = b # percent_decode s"
proof -
  have "unat b div 16 < 16"
    using unat_byte_bound [of b] by simp
  then show ?thesis
    by (simp add: percent_def)
qed

lemma percent_decode_percents: "percent_decode (concat (map percent bs) @ s) = bs @ percent_decode s"
  by (induction bs) (simp_all add: percent_decode_percent)

lemma percent_decode_plain: "u \<noteq> 0x25 \<Longrightarrow> percent_decode (u # s) = byte (unat u) # percent_decode s"
  by (cases "u # s" rule: percent_decode.cases) auto

lemma unreserved_ascii: "unreserved c \<Longrightarrow> c < 0x80 \<and> c \<noteq> 0x25"
  by (auto simp: unreserved_def)

lemma unat_small_unit: "c < 65536 \<Longrightarrow> unat (word_of_nat c :: 16 word) = c"
  by (subst unat_of_nat) simp

lemma percent_decode_point: "percent_decode (encode_point c @ s) = utf8 c @ percent_decode s"
proof (cases "unreserved c")
  case True
  then have c: "c < 0x80" "c \<noteq> 0x25" "unat (word_of_nat c :: 16 word) = c"
    using unreserved_ascii [of c] by (auto simp: unat_small_unit)
  then have "(word_of_nat c :: 16 word) \<noteq> 0x25"
    by (auto simp: word_unat_eq_iff)
  with True c show ?thesis
    by (simp add: encode_point_def percent_decode_plain utf8_def)
qed (simp add: encode_point_def percent_decode_percents)

lemma percent_decode_encode:
  "encode_uri_component s = Some t \<Longrightarrow> percent_decode t = text_encode s"
proof -
  have "percent_decode (concat (map encode_point cs)) = concat (map utf8 cs)" for cs
    by (induction cs) (simp_all add: percent_decode_point)
  then show "encode_uri_component s = Some t \<Longrightarrow> percent_decode t = text_encode s"
    by (auto simp: encode_uri_component_def text_encode_def split: if_splits)
qed

definition uri_safe :: "16 word \<Rightarrow> bool" where
  "uri_safe u \<longleftrightarrow> unreserved (unat u) \<or> u = 0x25"

lemma encode_point_safe: "u \<in> set (encode_point c) \<Longrightarrow> uri_safe u"
proof -
  have "unreserved (unat (hex_unit n))" if "n < 16" for n
    using that by (auto simp: unat_hex_unit unreserved_def)
  then have "\<forall>v \<in> set (percent b). uri_safe v" for b
    using unat_byte_bound [of b] by (auto simp: percent_def uri_safe_def)
  then show "u \<in> set (encode_point c) \<Longrightarrow> uri_safe u"
    using unreserved_ascii [of c]
    by (auto simp: encode_point_def uri_safe_def unat_small_unit split: if_splits)
qed

lemma encode_uri_component_safe:
  "encode_uri_component s = Some t \<Longrightarrow> u \<in> set t \<Longrightarrow> uri_safe u"
  by (auto simp: encode_uri_component_def encode_point_safe split: if_splits)

lemma encode_uri_component_defined: "well_formed s \<Longrightarrow> \<exists>t. encode_uri_component s = Some t"
  by (simp add: encode_uri_component_def)

section \<open>WebSocket\<close>

datatype ready_state = Ws_Connecting | Ws_Open | Ws_Closing | Ws_Closed

text \<open>
  \<open>sent\<close> holds the frames handed to an open socket, in order. \<open>faulty\<close> lets the host refuse a
  send for a reason of its own: \<open>ws_send\<close> then raises too, so that the code's \<open>catch\<close> branches
  are reachable.
\<close>

record socket =
  ready_state :: ready_state
  buffered :: nat
  sent :: "bytes list"
  handlers :: bool
  faulty :: bool
  url :: js_string

definition ws_open :: "js_string \<Rightarrow> socket" where
  "ws_open u = \<lparr>ready_state = Ws_Connecting, buffered = 0, sent = [], handlers = True,
     faulty = False, url = u\<rparr>"

definition ws_send :: "socket \<Rightarrow> bytes \<Rightarrow> socket option" where
  "ws_send w f =
     (if ready_state w = Ws_Connecting \<or> faulty w then None
      else if ready_state w = Ws_Open then
        Some (w\<lparr>buffered := buffered w + length f, sent := sent w @ [f]\<rparr>)
      else Some (w\<lparr>buffered := buffered w + length f\<rparr>))"

definition ws_close :: "socket \<Rightarrow> socket" where
  "ws_close w =
     (if ready_state w = Ws_Connecting \<or> ready_state w = Ws_Open
      then w\<lparr>ready_state := Ws_Closing\<rparr> else w)"

text \<open>The laws of a socket a sender relies on, and what follows for several sends.\<close>

locale socket_laws =
  fixes send :: "'w \<Rightarrow> bytes \<Rightarrow> 'w option"
    and is_open :: "'w \<Rightarrow> bool"
    and amount :: "'w \<Rightarrow> nat"
    and frames :: "'w \<Rightarrow> bytes list"
  assumes send_frames: "is_open w \<Longrightarrow> send w f = Some w' \<Longrightarrow> frames w' = frames w @ [f]"
    and send_amount: "is_open w \<Longrightarrow> send w f = Some w' \<Longrightarrow> amount w' = amount w + length f"
    and send_open: "is_open w \<Longrightarrow> send w f = Some w' \<Longrightarrow> is_open w'"
begin

lemma send_prefix: "is_open w \<Longrightarrow> send w f = Some w' \<Longrightarrow> prefix (frames w) (frames w')"
  by (simp add: send_frames)

lemma send_bound:
  "is_open w \<Longrightarrow> send w f = Some w' \<Longrightarrow> amount w < m \<Longrightarrow> length f \<le> k \<Longrightarrow> amount w' < m + k"
  by (simp add: send_amount)

end

interpretation ws: socket_laws ws_send "\<lambda>w. ready_state w = Ws_Open" buffered sent
  by unfold_locales (auto simp: ws_send_def split: if_splits)

lemma ws_send_frame:
  "ws_send w f = Some w' \<Longrightarrow> handlers w' = handlers w \<and> faulty w' = faulty w \<and> url w' = url w
     \<and> ready_state w' = ready_state w"
  by (auto simp: ws_send_def split: if_splits)

lemma ws_close_frame [simp]:
  "buffered (ws_close w) = buffered w" "sent (ws_close w) = sent w"
  "handlers (ws_close w) = handlers w" "faulty (ws_close w) = faulty w" "url (ws_close w) = url w"
  "ready_state (ws_close w) \<noteq> Ws_Connecting" "ready_state (ws_close w) \<noteq> Ws_Open"
  by (auto simp: ws_close_def)

end
