(* ===== verification/Theme.thy ===== *)
theory Theme
  imports Browser Json
begin

text \<open>
  The theme (\<open>contexts/ThemeContext.tsx\<close>) and the terminal colours derived from it
  (\<open>components/TerminalTab.tsx\<close>): the colour tables, loading the saved choice, the provider's
  operations over its state and the browser's storage, the CSS variables it writes, and the xterm
  theme with the accent colour mixed in.
\<close>

datatype theme_mode = Dark | Light

datatype accent_key = Blue | Green | Purple | Orange | Red

fun mode_name :: "theme_mode \<Rightarrow> js_string" where
  "mode_name Dark = js ''dark''"
| "mode_name Light = js ''light''"

fun accent_name :: "accent_key \<Rightarrow> js_string" where
  "accent_name Blue = js ''blue''"
| "accent_name Green = js ''green''"
| "accent_name Purple = js ''purple''"
| "accent_name Orange = js ''orange''"
| "accent_name Red = js ''red''"

fun accent_map :: "accent_key \<Rightarrow> js_string" where
  "accent_map Blue = js ''#1677ff''"
| "accent_map Green = js ''#52c41a''"
| "accent_map Purple = js ''#722ed1''"
| "accent_map Orange = js ''#fa8c16''"
| "accent_map Red = js ''#f5222d''"

text \<open>The menu of accents: key, colour and the label in Chinese.\<close>

definition accent_options :: "(js_string \<times> js_string \<times> js_string) list" where
  "accent_options =
    [(js ''blue'', js ''#1677ff'', [0x84DD, 0x8272]),
     (js ''green'', js ''#52c41a'', [0x7EFF, 0x8272]),
     (js ''purple'', js ''#722ed1'', [0x7D2B, 0x8272]),
     (js ''orange'', js ''#fa8c16'', [0x6A59, 0x8272]),
     (js ''red'', js ''#f5222d'', [0x7EA2, 0x8272])]"

record semantic_colors =
  bgBase :: js_string
  bgSidebar :: js_string
  bgTabBar :: js_string
  bgCardOverlay :: js_string
  textPrimary :: js_string
  textSecondary :: js_string
  textTertiary :: js_string
  borderSubtle :: js_string
  borderLight :: js_string
  fillHover :: js_string
  fillSubtle :: js_string
  fillMedium :: js_string
  scrollbarThumb :: js_string
  scrollbarHover :: js_string
  bgContextMenu :: js_string
  shadowContextMenu :: js_string
  gradientPage :: js_string
  gradientLogo :: js_string
  colorPrimary :: js_string
  terminalBg :: js_string
  terminalFg :: js_string

definition gradient_logo :: "js_string \<Rightarrow> js_string" where
  "gradient_logo primary =
     js ''linear-gradient(145deg, '' @ primary @ js '', '' @ primary @ js ''bb)''"

definition get_semantic_colors :: "theme_mode \<Rightarrow> accent_key \<Rightarrow> semantic_colors" where
  "get_semantic_colors mode accent =
     (case mode of
        Dark \<Rightarrow>
       \<lparr>bgBase = js ''#131320'',
        bgSidebar = js ''#181827'',
        bgTabBar = js ''#161625'',
        bgCardOverlay = js ''rgba(26, 26, 46, 0.96)'',
        textPrimary = js ''#eeeef6'',
        textSecondary = js ''#b4b4c9'',
        textTertiary = js ''#9090aa'',
        borderSubtle = js ''rgba(180,180,220,0.12)'',
        borderLight = js ''rgba(180,180,220,0.07)'',
        fillHover = js ''rgba(180,180,220,0.09)'',
        fillSubtle = js ''rgba(180,180,220,0.035)'',
        fillMedium = js ''rgba(180,180,220,0.07)'',
        scrollbarThumb = js ''rgba(180,180,220,0.2)'',
        scrollbarHover = js ''rgba(180,180,220,0.35)'',
        bgContextMenu = js ''#222238'',
        shadowContextMenu = js ''0 12px 36px rgba(0,0,0,0.3)'',
        gradientPage = js ''radial-gradient(ellipse at 50% 20%, #242444 0%, #171728 48%, #10101d 100%)'',
        gradientLogo = gradient_logo (accent_map accent),
        colorPrimary = accent_map accent,
        terminalBg = js ''#1a1a2e'',
        terminalFg = js ''#e0e0e0''\<rparr>
      | Light \<Rightarrow>
       \<lparr>bgBase = js ''#f3f5f9'',
        bgSidebar = js ''#fcfcfe'',
        bgTabBar = js ''#f8f9fc'',
        bgCardOverlay = js ''rgba(255,255,255,0.97)'',
        textPrimary = js ''#23243b'',
        textSecondary = js ''#5d617a'',
        textTertiary = js ''#70768c'',
        borderSubtle = js ''rgba(56,65,99,0.12)'',
        borderLight = js ''rgba(56,65,99,0.07)'',
        fillHover = js ''rgba(56,65,99,0.06)'',
        fillSubtle = js ''rgba(56,65,99,0.025)'',
        fillMedium = js ''rgba(56,65,99,0.05)'',
        scrollbarThumb = js ''rgba(56,65,99,0.2)'',
        scrollbarHover = js ''rgba(56,65,99,0.35)'',
        bgContextMenu = js ''#ffffff'',
        shadowContextMenu = js ''0 12px 36px rgba(36,44,80,0.12)'',
        gradientPage = js ''radial-gradient(ellipse at 50% 20%, #e4e8fa 0%, #eef0f8 48%, #f6f7fb 100%)'',
        gradientLogo = gradient_logo (accent_map accent),
        colorPrimary = accent_map accent,
        terminalBg = js ''#ffffff'',
        terminalFg = js ''#1a1a1a''\<rparr>)"

section \<open>The provider\<close>

definition mode_key :: js_string where
  "mode_key = js ''opsup_theme_mode''"

definition theme_accent_key :: js_string where
  "theme_accent_key = js ''opsup_theme_accent''"

definition load_mode :: "storage \<Rightarrow> theme_mode" where
  "load_mode s = (if get_item s mode_key = Some (js ''light'') then Light else Dark)"

fun accent_of_name :: "js_string \<Rightarrow> accent_key option" where
  "accent_of_name k = find (\<lambda>a. accent_name a = k) [Blue, Green, Purple, Orange, Red]"

definition load_accent :: "storage \<Rightarrow> accent_key" where
  "load_accent s =
     (case get_item s theme_accent_key of
        None \<Rightarrow> Blue
      | Some k \<Rightarrow>
          (case find (\<lambda>(key, _, _). key = k) accent_options of
             None \<Rightarrow> Blue
           | Some (key, _, _) \<Rightarrow> (case accent_of_name key of Some a \<Rightarrow> a | None \<Rightarrow> Blue)))"

record theme_state =
  mode :: theme_mode
  accent :: accent_key

definition provider_init :: "storage \<Rightarrow> theme_state" where
  "provider_init s = \<lparr>mode = load_mode s, accent = load_accent s\<rparr>"

definition set_mode :: "theme_mode \<Rightarrow> theme_state \<times> storage \<Rightarrow> theme_state \<times> storage" where
  "set_mode v = (\<lambda>(t, s). (t\<lparr>mode := v\<rparr>, set_item mode_key (mode_name v) s))"

definition set_accent :: "accent_key \<Rightarrow> theme_state \<times> storage \<Rightarrow> theme_state \<times> storage" where
  "set_accent v = (\<lambda>(t, s). (t\<lparr>accent := v\<rparr>, set_item theme_accent_key (accent_name v) s))"

definition toggle_mode :: "theme_state \<times> storage \<Rightarrow> theme_state \<times> storage" where
  "toggle_mode p = set_mode (if mode (fst p) = Dark then Light else Dark) p"

definition use_theme :: "'c option \<Rightarrow> string + 'c" where
  "use_theme ctx = (case ctx of
       None \<Rightarrow> Inl ''useTheme must be used within ThemeProvider''
     | Some c \<Rightarrow> Inr c)"

text \<open>The Ant Design tokens; the algorithm is named, since it belongs to that library.\<close>

record theme_config =
  algorithm :: js_string
  tokens :: "(js_string \<times> js_string) list"
  component_tokens :: "(js_string \<times> js_string) list"

definition get_theme_config :: "theme_mode \<Rightarrow> semantic_colors \<Rightarrow> theme_config" where
  "get_theme_config m c =
     \<lparr>algorithm = (if m = Dark then js ''darkAlgorithm'' else js ''defaultAlgorithm''),
      tokens =
        [(js ''colorPrimary'', colorPrimary c),
         (js ''colorBgContainer'', if m = Dark then js ''#1e1e32'' else js ''#ffffff''),
         (js ''colorBgElevated'', bgContextMenu c),
         (js ''colorBgLayout'', bgBase c),
         (js ''colorBorder'', if m = Dark then js ''#38384f'' else js ''#dfe3ed''),
         (js ''colorText'', textPrimary c),
         (js ''colorTextSecondary'', textSecondary c),
         (js ''colorTextPlaceholder'', textTertiary c),
         (js ''fontFamily'', js ''var(--font-ui)''),
         (js ''borderRadius'', js ''8''),
         (js ''controlHeight'', js ''34'')],
      component_tokens =
        [(js ''Modal.borderRadiusLG'', js ''12''),
         (js ''Table.headerBg'', fillSubtle c),
         (js ''Table.rowHoverBg'', fillHover c),
         (js ''Button.fontWeight'', js ''500'')]\<rparr>"

text \<open>The custom properties the effect writes on the document element, without the leading dashes.\<close>

definition css_variables :: "semantic_colors \<Rightarrow> (js_string \<times> js_string) list" where
  "css_variables c =
    [(js ''bg-base'', bgBase c),
     (js ''bg-sidebar'', bgSidebar c),
     (js ''bg-tab-bar'', bgTabBar c),
     (js ''bg-terminal'', terminalBg c),
     (js ''bg-elevated'', bgContextMenu c),
     (js ''text-primary'', textPrimary c),
     (js ''text-secondary'', textSecondary c),
     (js ''text-tertiary'', textTertiary c),
     (js ''scrollbar-thumb'', scrollbarThumb c),
     (js ''scrollbar-hover'', scrollbarHover c),
     (js ''fill-hover'', fillHover c),
     (js ''fill-subtle'', fillSubtle c),
     (js ''fill-medium'', fillMedium c),
     (js ''border-subtle'', borderSubtle c),
     (js ''border-light'', borderLight c),
     (js ''color-primary'', colorPrimary c),
     (js ''accent-soft'', colorPrimary c @ js ''14''),
     (js ''accent-border'', colorPrimary c @ js ''40''),
     (js ''gradient-page'', gradientPage c),
     (js ''gradient-logo'', gradientLogo c),
     (js ''bg-card-overlay'', bgCardOverlay c)]"

text \<open>The effect: the mode as \<open>data-theme\<close> of the document element, and its inline style.\<close>

definition theme_effect :: "theme_mode \<Rightarrow> semantic_colors \<Rightarrow> js_string \<times> (js_string \<rightharpoonup> js_string)" where
  "theme_effect m c = (mode_name m, map_of (map (\<lambda>(n, v). (js ''--'' @ n, v)) (css_variables c)))"

section \<open>Terminal colours\<close>

type_synonym iterm_theme = "(js_string \<times> js_string) list"

fun obj_set :: "js_string \<Rightarrow> js_string \<Rightarrow> iterm_theme \<Rightarrow> iterm_theme" where
  "obj_set k v [] = [(k, v)]"
| "obj_set k v ((j, w) # o') = (if j = k then (k, v) # o' else (j, w) # obj_set k v o')"

fun term_themes :: "theme_mode \<Rightarrow> iterm_theme" where
  "term_themes Dark =
      [(js ''background'', js ''#1a1a2e''),
       (js ''foreground'', js ''#e0e0e0''),
       (js ''cursor'', js ''#1677ff''),
       (js ''selectionBackground'', js ''rgba(22, 119, 255, 0.3)''),
       (js ''black'', js ''#1a1a2e''),
       (js ''red'', js ''#ff6b6b''),
       (js ''green'', js ''#51cf66''),
       (js ''yellow'', js ''#ffd43b''),
       (js ''blue'', js ''#339af0''),
       (js ''magenta'', js ''#cc5de8''),
       (js ''cyan'', js ''#22b8cf''),
       (js ''white'', js ''#e0e0e0''),
       (js ''brightBlack'', js ''#6b6b8d''),
       (js ''brightRed'', js ''#ff8787''),
       (js ''brightGreen'', js ''#69db7c''),
       (js ''brightYellow'', js ''#ffe066''),
       (js ''brightBlue'', js ''#4dabf7''),
       (js ''brightMagenta'', js ''#da77f2''),
       (js ''brightCyan'', js ''#3bc9db''),
       (js ''brightWhite'', js ''#ffffff'')]"
| "term_themes Light =
      [(js ''background'', js ''#ffffff''),
       (js ''foreground'', js ''#1a1a1a''),
       (js ''cursor'', js ''#1677ff''),
       (js ''selectionBackground'', js ''rgba(22, 119, 255, 0.15)''),
       (js ''black'', js ''#ffffff''),
       (js ''red'', js ''#c0392b''),
       (js ''green'', js ''#27ae60''),
       (js ''yellow'', js ''#f39c12''),
       (js ''blue'', js ''#2980b9''),
       (js ''magenta'', js ''#8e44ad''),
       (js ''cyan'', js ''#16a085''),
       (js ''white'', js ''#1a1a1a''),
       (js ''brightBlack'', js ''#7f8c8d''),
       (js ''brightRed'', js ''#e74c3c''),
       (js ''brightGreen'', js ''#2ecc71''),
       (js ''brightYellow'', js ''#f1c40f''),
       (js ''brightBlue'', js ''#3498db''),
       (js ''brightMagenta'', js ''#9b59b6''),
       (js ''brightCyan'', js ''#1abc9c''),
       (js ''brightWhite'', js ''#000000'')]"

text \<open>\<open>parseInt(s, 16)\<close>: white space, a sign and a \<open>0x\<close> prefix are skipped, digits are read as far
  as they go, and no digit at all is \<open>NaN\<close> (no value).\<close>

definition parse_int16 :: "js_string \<Rightarrow> int option" where
  "parse_int16 s =
     (let t = trim_start s;
          neg = (t \<noteq> [] \<and> hd t = 0x2D);
          u = (if t \<noteq> [] \<and> (hd t = 0x2D \<or> hd t = 0x2B) then tl t else t);
          v = (if take 2 u = [0x30, 0x78] \<or> take 2 u = [0x30, 0x58] then drop 2 u else u);
          ds = takeWhile (\<lambda>c. hex_val c \<noteq> None) v
      in if ds = [] then None
         else (let n = int (foldl (\<lambda>n c. 16 * n + the (hex_val c)) 0 ds) in Some (if neg then - n else n)))"

definition js_slice :: "nat \<Rightarrow> nat \<Rightarrow> js_string \<Rightarrow> js_string" where
  "js_slice a b s = drop a (take b s)"

definition hex_to_rgb :: "js_string \<Rightarrow> js_string" where
  "hex_to_rgb hex =
     js_join (js '','')
       (map (\<lambda>offset. case parse_int16 (js_slice offset (offset + 2) hex) of
                Some n \<Rightarrow> int_digits n | None \<Rightarrow> js ''NaN'') [1, 3, 5])"

definition term_theme :: "theme_mode \<Rightarrow> semantic_colors \<Rightarrow> iterm_theme" where
  "term_theme m c =
     obj_set (js ''selectionBackground'')
       (js ''rgba('' @ hex_to_rgb (colorPrimary c) @ js '', '' @
        (if m = Dark then js ''0.3'' else js ''0.15'') @ js '')'')
       (obj_set (js ''cursor'') (colorPrimary c) (term_themes m))"

section \<open>What the theme promises\<close>

datatype theme_op = Set_Mode theme_mode | Set_Accent accent_key | Toggle

fun theme_step :: "theme_state \<times> storage \<Rightarrow> theme_op \<Rightarrow> theme_state \<times> storage" where
  "theme_step p (Set_Mode m) = set_mode m p"
| "theme_step p (Set_Accent a) = set_accent a p"
| "theme_step p Toggle = toggle_mode p"

definition saved :: "theme_state \<times> storage \<Rightarrow> bool" where
  "saved p \<longleftrightarrow> provider_init (snd p) = fst p"

lemma keys_differ: "mode_key \<noteq> theme_accent_key"
  by (simp add: mode_key_def theme_accent_key_def)

lemma load_mode_saved: "get_item s mode_key = Some (mode_name m) \<Longrightarrow> load_mode s = m"
  by (cases m) (auto simp: load_mode_def)

lemma load_accent_saved: "get_item s theme_accent_key = Some (accent_name a) \<Longrightarrow> load_accent s = a"
  by (cases a) (auto simp: load_accent_def accent_options_def)

lemma load_other_key:
  "load_accent (set_item mode_key v s) = load_accent s"
  "load_mode (set_item theme_accent_key v s) = load_mode s"
  using keys_differ by (auto simp: load_accent_def load_mode_def)

lemma saved_step: "saved p \<Longrightarrow> saved (theme_step p e)"
  by (cases p; cases e)
    (auto simp: saved_def provider_init_def set_mode_def set_accent_def toggle_mode_def
      load_mode_saved load_accent_saved load_other_key)

interpretation theme_machine: machine theme_step saved
  by unfold_locales (rule saved_step)

lemma hex_pair_parse:
  assumes "hex_val a = Some m" "hex_val b = Some n"
  shows "parse_int16 [a, b] = Some (int (16 * m + n))"
proof -
  have "\<not> js_space a" "a \<noteq> 0x2D" "a \<noteq> 0x2B" "b \<noteq> 0x78" "b \<noteq> 0x58"
    using assms by (auto simp: hex_val_def js_space_def word_le_nat_alt word_unat_eq_iff split: if_splits)
  then show ?thesis
    using assms by (simp add: parse_int16_def trim_start_def Let_def)
qed

definition hex_low :: "nat \<Rightarrow> 16 word" where
  "hex_low n = word_of_nat (if n < 10 then 0x30 + n else 0x57 + n)"

definition hex_byte :: "nat \<Rightarrow> js_string" where
  "hex_byte n = [hex_low (n div 16), hex_low (n mod 16)]"

lemma hex_val_hex_low: "n < 16 \<Longrightarrow> hex_val (hex_low n) = Some n"
proof -
  assume n: "n < 16"
  then have "unat (hex_low n) = (if n < 10 then 0x30 + n else 0x57 + n)"
    unfolding hex_low_def by (subst unat_of_nat) simp
  then show ?thesis
    using n by (auto simp: hex_val_def word_le_nat_alt)
qed

lemma parse_hex_byte: "n < 256 \<Longrightarrow> parse_int16 (hex_byte n) = Some (int n)"
proof -
  assume "n < 256"
  then have "n div 16 < 16" by simp
  then have "parse_int16 (hex_byte n) = Some (int (16 * (n div 16) + n mod 16))"
    unfolding hex_byte_def by (intro hex_pair_parse hex_val_hex_low) simp_all
  then show ?thesis by simp
qed

lemma slice_hex_byte:
  "js_slice 1 3 (h # hex_byte r @ s) = hex_byte r"
  "js_slice 3 5 (h # hex_byte r @ hex_byte g @ s) = hex_byte g"
  "js_slice 5 7 (h # hex_byte r @ hex_byte g @ hex_byte b) = hex_byte b"
  by (simp_all add: js_slice_def hex_byte_def)

lemma slice_first: "js_slice (Suc 0) (Suc (Suc (Suc 0))) (h # hex_byte r @ s) = hex_byte r"
  by (simp add: js_slice_def hex_byte_def)

lemma int_digits_nat [simp]: "int_digits (int n) = nat_digits n"
  by (simp add: int_digits_def)

text \<open>
  Whatever is done to the theme, reloading the page shows the same one: after any
  sequence of \<open>setMode\<close>, \<open>setAccent\<close> and \<open>toggleMode\<close> starting from any storage, a new provider
  initialised from the storage left behind has the mode and accent of the old one.
\<close>

lemma theme_survives_reload:
  "provider_init (snd (run theme_step (provider_init s, s) ops))
     = fst (run theme_step (provider_init s, s) ops)"
  using theme_machine.run_inv [of "(provider_init s, s)" ops] by (simp add: saved_def)

text \<open>
  \<open>hexToRgb\<close> reads every colour of the form \<open>#rrggbb\<close>: for all three channels below 256
  it gives their decimal values separated by commas.
\<close>

lemma hex_to_rgb_reads:
  assumes "r < 256" "g < 256" "b < 256"
  shows "hex_to_rgb (0x23 # hex_byte r @ hex_byte g @ hex_byte b)
    = nat_digits r @ js '','' @ nat_digits g @ js '','' @ nat_digits b"
  using assms by (simp add: hex_to_rgb_def parse_hex_byte slice_hex_byte slice_first)

lemma hex_to_rgb_reads_witness:
  "hex_to_rgb (js ''#1677ff'') = js ''22,119,255''"
proof -
  have d: "nat_digits 22 = js ''22''" "nat_digits 119 = js ''119''" "nat_digits 255 = js ''255''"
    by (simp_all add: nat_digits.simps digit_unit_def js_def of_char_def)
  have "0x23 # hex_byte 22 @ hex_byte 119 @ hex_byte 255 = js ''#1677ff''"
    by (simp add: hex_byte_def hex_low_def js_def of_char_def)
  then show ?thesis
    using hex_to_rgb_reads [of 22 119 255] d by (simp flip: js_append)
qed

text \<open>
  The terminal's colours agree with the page's in both modes and for every accent:
  background and foreground are the semantic terminal colours, the cursor is the accent colour, and
  mixing in the accent keeps the twenty colour names of the table, each once.
\<close>

lemma term_theme_agrees:
  "map_of (term_theme m (get_semantic_colors m a)) (js ''background'')
     = Some (terminalBg (get_semantic_colors m a))
   \<and> map_of (term_theme m (get_semantic_colors m a)) (js ''foreground'')
     = Some (terminalFg (get_semantic_colors m a))
   \<and> map_of (term_theme m (get_semantic_colors m a)) (js ''cursor'') = Some (accent_map a)
   \<and> map fst (term_theme m (get_semantic_colors m a)) = map fst (term_themes m)
   \<and> distinct (map fst (term_themes m)) \<and> length (term_themes m) = 20"
  by (cases m) (simp_all add: term_theme_def get_semantic_colors_def)

end
