(* ===== verification/Terminal_Connection.thy ===== *)
theory Terminal_Connection
  imports Terminal_Frames Browser Theme
begin

text \<open>
  The terminal's connection hook (\<open>hooks/useTerminalConnection.ts\<close>).

  A hook keeps the connection closures it ever created in \<open>conns\<close>, indexed by the generation
  number each remembers (\<open>id\<close> in the code), because a callback of an old connection may still arrive
  after a new one was opened. The refs \<open>wsRef\<close>, \<open>termRef\<close>, \<open>fitRef\<close>, \<open>sendRef\<close> and
  \<open>cleanupRef\<close> hold the number of the connection whose object or closure they point at; \<open>None\<close> is
  \<open>null\<close> or the empty closure. Every callback the code registers is one event of \<open>terminal_event\<close>; the
  environment's events move the socket and the layout. Timers are numbered per connection; \<open>timers\<close>
  is the code's set and \<open>armed\<close> what the browser still holds, so that "every timer is cleared" is a
  statement about the browser and not about the code's own bookkeeping.

  Code outside the repository: \<open>FitAddon.fit\<close> is an argument of the events that call it (the size
  it gives the terminal, or nothing when it throws or changes nothing); xterm reports a changed size to
  \<open>onResize\<close> before \<open>fit\<close> returns, as it does in the code's tests.
\<close>

section \<open>State\<close>

datatype connection_status = Status_Connecting | Status_Connected | Status_Error

datatype timer_kind = Pump_Timer | Resize_Timer | Fit_Timer

record terminal =
  cols :: nat
  rows :: nat
  written :: "bytes list"
  option_font :: int
  option_theme :: iterm_theme
  touch_attached :: bool
  subscribed :: bool
  disposed :: bool

record connection =
  connected :: bool
  failed :: bool
  queue :: "bytes list"
  queue_index :: nat
  timers :: "(nat \<times> timer_kind) list"
  armed :: "(nat \<times> timer_kind) list"
  next_timer :: nat
  pump_timer :: "nat option"
  resize_timer :: "nat option"
  raf_tracked :: bool
  raf_armed :: bool
  observing :: bool
  sock :: socket
  xterm :: terminal

text \<open>
  The error text is what the code hands to \<open>setErrorMsg\<close>: a value (a string, except that a
  status frame's \<open>message\<close> may be any JSON value), or that value with a string appended.
\<close>

datatype error_text = Plain json | Plus json js_string

record terminal_hook =
  server_id :: int
  generation :: nat
  conns :: "nat \<rightharpoonup> connection"
  term_ref :: "nat option"
  ws_ref :: "nat option"
  fit_ref :: "nat option"
  send_ref :: "nat option"
  cleanup_ref :: "nat option"
  status :: connection_status
  error_msg :: error_text
  has_container :: bool
  client_width :: nat
  client_height :: nat
  is_active :: bool
  font_size :: int
  theme_prop :: iterm_theme
  layout_frame :: bool

definition init_hook ::
    "int \<Rightarrow> int \<Rightarrow> iterm_theme \<Rightarrow> bool \<Rightarrow> terminal_hook" where
  "init_hook sid fs th active =
     \<lparr>server_id = sid, generation = 0, conns = Map.empty, term_ref = None, ws_ref = None,
      fit_ref = None, send_ref = None, cleanup_ref = None, status = Status_Connecting,
      error_msg = Plain (JStr []), has_container = True, client_width = 0, client_height = 0,
      is_active = active, font_size = fs, theme_prop = th, layout_frame = False\<rparr>"

text \<open>The messages the user sees.\<close>

definition msg_no_login :: js_string where
  "msg_no_login = [0x672A, 0x767B, 0x5F55, 0xFF0C, 0x8BF7, 0x91CD, 0x65B0, 0x767B, 0x5F55]"

definition msg_interrupted :: js_string where
  "msg_interrupted = [0xFF1B, 0x8FDE, 0x63A5, 0x4E2D, 0x65AD, 0xFF0C, 0x90E8, 0x5206, 0x8F93, 0x5165, 0x53EF, 0x80FD, 0x672A, 0x9001, 0x8FBE, 0xFF0C, 0x8BF7, 0x68C0, 0x67E5, 0x540E, 0x91CD, 0x8BD5]"

definition msg_send_failed :: js_string where
  "msg_send_failed = [0x53D1, 0x9001, 0x8F93, 0x5165, 0x5931, 0x8D25]"

definition msg_resize_failed :: js_string where
  "msg_resize_failed = [0x53D1, 0x9001, 0x7EC8, 0x7AEF, 0x5C3A, 0x5BF8, 0x5931, 0x8D25]"

definition msg_ssh_closed :: js_string where
  "msg_ssh_closed = js ''SSH '' @ [0x8FDE, 0x63A5, 0x5DF2, 0x65AD, 0x5F00]"

definition msg_ws_error :: js_string where
  "msg_ws_error = js ''WebSocket '' @ [0x8FDE, 0x63A5, 0x5931, 0x8D25]"

definition msg_session_over :: js_string where
  "msg_session_over = [0x4F1A, 0x8BDD, 0x5DF2, 0x7ED3, 0x675F]"

section \<open>Helpers over one connection\<close>

definition put_conn :: "nat \<Rightarrow> connection \<Rightarrow> terminal_hook \<Rightarrow> terminal_hook" where
  "put_conn i c h = h\<lparr>conns := (conns h)(i \<mapsto> c)\<rparr>"

text \<open>\<open>later(callback, delay)\<close>: a new timer, in the browser and in the code's set.\<close>

definition later :: "timer_kind \<Rightarrow> connection \<Rightarrow> nat \<times> connection" where
  "later k c =
     (let t = next_timer c
      in (t, c\<lparr>timers := timers c @ [(t, k)], armed := armed c @ [(t, k)], next_timer := Suc t\<rparr>))"

definition drop_timer :: "nat \<Rightarrow> (nat \<times> timer_kind) list \<Rightarrow> (nat \<times> timer_kind) list" where
  "drop_timer t ts = filter (\<lambda>(u, _). u \<noteq> t) ts"

text \<open>The callbacks that send or receive begin with these tests.\<close>

definition can_send :: "nat \<Rightarrow> terminal_hook \<Rightarrow> connection \<Rightarrow> bool" where
  "can_send i h c \<longleftrightarrow> generation h = i \<and> connected c \<and> ready_state (sock c) = Ws_Open"

section \<open>Failing and sending\<close>

text \<open>\<open>fail(message)\<close>: the first failure of the current connection is final.\<close>

definition fail :: "nat \<Rightarrow> json \<Rightarrow> terminal_hook \<Rightarrow> terminal_hook" where
  "fail i message h =
     (case conns h i of
        None \<Rightarrow> h
      | Some c \<Rightarrow>
          if generation h \<noteq> i \<or> failed c then h
          else
            (put_conn i (c\<lparr>failed := True, connected := False, queue := [], queue_index := 0,
                           sock := ws_close (sock c)\<rparr>) h)
              \<lparr>error_msg :=
                 (if queue_index c < length (queue c) \<or> 0 < buffered (sock c)
                  then Plus message msg_interrupted else Plain message),
               status := Status_Error\<rparr>)"

definition buffer_limit :: nat where
  "buffer_limit = 256 * 1024"

text \<open>
  The loop of \<open>pump\<close>: the index moves past a frame before the socket is asked to send it. The result
  says whether the socket raised.
\<close>

function pump_loop :: "bytes list \<Rightarrow> nat \<Rightarrow> socket \<Rightarrow> nat \<times> socket \<times> bool" where
  "pump_loop q i w =
     (if i < length q \<and> buffered w < buffer_limit then
        (case ws_send w (q ! i) of
           Some w' \<Rightarrow> pump_loop q (Suc i) w'
         | None \<Rightarrow> (Suc i, w, True))
      else (i, w, False))"
  by pat_completeness auto
termination
  by (relation "measure (\<lambda>(q, i, w). length q - i)") auto

declare pump_loop.simps [simp del]

definition pump :: "nat \<Rightarrow> terminal_hook \<Rightarrow> terminal_hook" where
  "pump i h =
     (case conns h i of
        None \<Rightarrow> h
      | Some c0 \<Rightarrow>
          (let c = c0\<lparr>pump_timer := None\<rparr>
           in if \<not> can_send i h c then put_conn i c h
              else (case pump_loop (queue c) (queue_index c) (sock c) of
                  (j, w, raised) \<Rightarrow>
                    (let c1 = c\<lparr>queue_index := j, sock := w\<rparr>
                     in if raised then fail i (JStr msg_send_failed) (put_conn i c1 h)
                        else if j < length (queue c1) then
                          (case later Pump_Timer c1 of
                             (t, c2) \<Rightarrow> put_conn i (c2\<lparr>pump_timer := Some t\<rparr>) h)
                        else put_conn i (c1\<lparr>queue := [], queue_index := 0\<rparr>) h))))"

text \<open>\<open>sendRef.current(data)\<close> of the connection \<open>i\<close>.\<close>

definition send_input :: "nat \<Rightarrow> js_string \<Rightarrow> terminal_hook \<Rightarrow> terminal_hook" where
  "send_input i data h =
     (case conns h i of
        None \<Rightarrow> h
      | Some c \<Rightarrow>
          if \<not> can_send i h c then h
          else
            (let h1 = put_conn i (c\<lparr>queue := queue c @ input_frames data\<rparr>) h
             in if pump_timer c = None then pump i h1 else h1))"

definition send_current :: "js_string \<Rightarrow> terminal_hook \<Rightarrow> terminal_hook" where
  "send_current data h = (case send_ref h of None \<Rightarrow> h | Some i \<Rightarrow> send_input i data h)"

definition send_resize :: "nat \<Rightarrow> terminal_hook \<Rightarrow> terminal_hook" where
  "send_resize i h =
     (case conns h i of
        None \<Rightarrow> h
      | Some c \<Rightarrow>
          if \<not> can_send i h c then h
          else (case ws_send (sock c) (resize_frame (cols (xterm c)) (rows (xterm c))) of
              Some w \<Rightarrow> put_conn i (c\<lparr>sock := w\<rparr>) h
            | None \<Rightarrow> fail i (JStr msg_resize_failed) h))"

section \<open>Layout\<close>

text \<open>The handler of xterm's \<open>onResize\<close>: restart the resize timer.\<close>

definition on_term_resize :: "nat \<Rightarrow> terminal_hook \<Rightarrow> terminal_hook" where
  "on_term_resize i h =
     (case conns h i of
        None \<Rightarrow> h
      | Some c \<Rightarrow>
          if generation h \<noteq> i then h
          else
            (let c1 = (case resize_timer c of
                         None \<Rightarrow> c
                       | Some t \<Rightarrow> c\<lparr>armed := drop_timer t (armed c), timers := drop_timer t (timers c)\<rparr>)
             in (case later Resize_Timer c1 of
                   (t, c2) \<Rightarrow> put_conn i (c2\<lparr>resize_timer := Some t\<rparr>) h)))"

definition resize_terminal :: "nat \<Rightarrow> nat \<times> nat \<Rightarrow> terminal_hook \<Rightarrow> terminal_hook" where
  "resize_terminal i d h =
     (case conns h i of
        None \<Rightarrow> h
      | Some c \<Rightarrow>
          if (cols (xterm c), rows (xterm c)) = d then h
          else on_term_resize i
                 (put_conn i (c\<lparr>xterm := (xterm c)\<lparr>cols := fst d, rows := snd d\<rparr>\<rparr>) h))"

text \<open>\<open>doFit\<close>: only a visible, active terminal is fitted; the ref decides which one.\<close>

definition do_fit :: "(nat \<times> nat) option \<Rightarrow> terminal_hook \<Rightarrow> terminal_hook" where
  "do_fit fit h =
     (if \<not> is_active h \<or> \<not> has_container h \<or> client_width h = 0 \<or> client_height h = 0 then h
      else (case (fit_ref h, fit) of
          (Some i, Some d) \<Rightarrow> resize_terminal i d h
        | _ \<Rightarrow> h))"

definition fit_and_resize :: "nat \<Rightarrow> (nat \<times> nat) option \<Rightarrow> terminal_hook \<Rightarrow> terminal_hook" where
  "fit_and_resize i fit h = send_resize i (do_fit fit h)"

section \<open>Receiving\<close>

text \<open>\<open>value.message || '...'\<close>: a falsy message is replaced by the default text.\<close>

definition status_message :: "json \<Rightarrow> json" where
  "status_message v = (case json_prop v (js ''message'') of
       Some m \<Rightarrow> if json_truthy m then m else JStr msg_session_over
     | None \<Rightarrow> JStr msg_session_over)"

datatype ws_data = Text_Data js_string | Binary_Data bytes

definition write_term :: "nat \<Rightarrow> bytes \<Rightarrow> terminal_hook \<Rightarrow> terminal_hook" where
  "write_term i p h =
     (case conns h i of
        None \<Rightarrow> h
      | Some c \<Rightarrow> put_conn i (c\<lparr>xterm := (xterm c)\<lparr>written := written (xterm c) @ [p]\<rparr>\<rparr>) h)"

definition arm_fit :: "nat \<Rightarrow> terminal_hook \<Rightarrow> terminal_hook" where
  "arm_fit i h =
     (case conns h i of None \<Rightarrow> h | Some c \<Rightarrow> put_conn i (snd (later Fit_Timer c)) h)"

definition set_connected :: "nat \<Rightarrow> terminal_hook \<Rightarrow> terminal_hook" where
  "set_connected i h =
     (case conns h i of
        None \<Rightarrow> h
      | Some c \<Rightarrow> (put_conn i (c\<lparr>connected := True\<rparr>) h)\<lparr>status := Status_Connected\<rparr>)"

text \<open>\<open>ws.onmessage\<close>; the fit result is the one the confirmation's \<open>fitAndResize\<close> meets.\<close>

definition on_message ::
    "nat \<Rightarrow> ws_data \<Rightarrow> (nat \<times> nat) option \<Rightarrow> terminal_hook \<Rightarrow> terminal_hook" where
  "on_message i data fit h =
     (case conns h i of
        None \<Rightarrow> h
      | Some c \<Rightarrow>
          if generation h \<noteq> i \<or> failed c then h
          else (case data of
              Text_Data _ \<Rightarrow> h
            | Binary_Data [] \<Rightarrow> h
            | Binary_Data (t # payload) \<Rightarrow>
                if t = 0x00 \<or> t = 0x01 then write_term i payload h
                else if t = 0x02 then fail i (JStr (text_decode payload)) h
                else if t = 0x03 then
                  (case json_parse (text_decode payload) of
                     None \<Rightarrow> h
                   | Some v \<Rightarrow>
                       if json_prop v (js ''connected'') = Some (JBool False)
                       then fail i (status_message v) h else h)
                else if t = 0x04 then
                  arm_fit i (arm_fit i (fit_and_resize i fit (set_connected i h)))
                else h))"

section \<open>Connecting and cleaning up\<close>

text \<open>The closure \<open>connect\<close> stores in \<open>cleanupRef\<close>.\<close>

definition released :: "connection \<Rightarrow> connection" where
  "released c =
     c\<lparr>connected := False, queue := [],
       sock := ws_close ((sock c)\<lparr>handlers := False\<rparr>),
       armed := filter (\<lambda>t. t \<notin> set (timers c)) (armed c),
       raf_armed := (raf_armed c \<and> \<not> raf_tracked c),
       observing := False,
       xterm := (xterm c)\<lparr>subscribed := False, touch_attached := False, disposed := True\<rparr>\<rparr>"

definition cleanup :: "terminal_hook \<Rightarrow> terminal_hook" where
  "cleanup h =
     (case cleanup_ref h of
        None \<Rightarrow> h
      | Some i \<Rightarrow>
          h\<lparr>generation := Suc (generation h),
            conns := (conns h)(i := map_option released (conns h i)),
            ws_ref := None, term_ref := None, fit_ref := None,
            send_ref := None, cleanup_ref := None\<rparr>)"

definition new_terminal :: "terminal_hook \<Rightarrow> terminal" where
  "new_terminal h =
     \<lparr>cols = 80, rows = 24, written = [], option_font = font_size h, option_theme = theme_prop h,
      touch_attached = True, subscribed = True, disposed = False\<rparr>"

definition new_connection :: "terminal_hook \<Rightarrow> js_string \<Rightarrow> connection" where
  "new_connection h u =
     \<lparr>connected = False, failed = False, queue = [], queue_index = 0, timers = [], armed = [],
      next_timer = 1, pump_timer = None, resize_timer = None, raf_tracked = True,
      raf_armed = True, observing = True, sock = ws_open u, xterm = new_terminal h\<rparr>"

definition terminal_url :: "location \<Rightarrow> int \<Rightarrow> js_string \<Rightarrow> js_string option" where
  "terminal_url loc sid token =
     map_option
       (\<lambda>t. (if loc_protocol loc = js ''https:'' then js ''wss:'' else js ''ws:'') @ js ''//'' @
            loc_host loc @ js ''/api/terminal/'' @ int_digits sid @ js ''?token='' @ t)
       (encode_uri_component token)"

text \<open>
  \<open>connect\<close>. The token is what \<open>localStorage\<close> holds. When \<open>encodeURIComponent\<close> raises, the terminal
  has been opened and the refs to it set, but nothing that would clean it up.
\<close>

definition token_key :: js_string where
  "token_key = js ''opsup_token''"

definition connect :: "location \<Rightarrow> storage \<Rightarrow> terminal_hook \<Rightarrow> terminal_hook" where
  "connect loc store h0 =
     (let h1 = cleanup h0;
          i = Suc (generation h1);
          h = h1\<lparr>generation := i, status := Status_Connecting, error_msg := Plain (JStr [])\<rparr>;
          token = or_else (get_item store token_key) []
      in if token = [] \<or> \<not> has_container h then
           h\<lparr>status := Status_Error, error_msg := Plain (JStr msg_no_login)\<rparr>
         else (case terminal_url loc (server_id h) token of
             None \<Rightarrow> h\<lparr>term_ref := Some i, fit_ref := Some i\<rparr>
           | Some u \<Rightarrow>
               (put_conn i (new_connection h u) h)
                 \<lparr>term_ref := Some i, fit_ref := Some i, ws_ref := Some i, send_ref := Some i,
                  cleanup_ref := Some i\<rparr>))"

section \<open>Events\<close>

datatype terminal_event =
    Connect location storage
  | Unmount
  | Change_Server location storage int
  | Change_Props int iterm_theme bool
  | Layout_Frame "(nat \<times> nat) option"
  | Viewport_Resize "(nat \<times> nat) option"
  | Send_Shortcut js_string
  | Term_Data nat js_string
  | Term_Resize nat "nat \<times> nat"
  | Observed nat "(nat \<times> nat) option"
  | First_Frame nat "(nat \<times> nat) option"
  | Timer_Fires nat nat "(nat \<times> nat) option"
  | Message nat ws_data "(nat \<times> nat) option"
  | Socket_Closed nat
  | Socket_Error nat
  | Env_Open nat
  | Env_Drain nat nat
  | Env_Fault nat bool
  | Env_Layout bool nat nat

definition run_timer ::
    "nat \<Rightarrow> timer_kind \<Rightarrow> (nat \<times> nat) option \<Rightarrow> terminal_hook \<Rightarrow> terminal_hook" where
  "run_timer i k fit h =
     (case k of
        Pump_Timer \<Rightarrow> pump i h
      | Resize_Timer \<Rightarrow> send_resize i h
      | Fit_Timer \<Rightarrow> fit_and_resize i fit h)"

definition timer_fires ::
    "nat \<Rightarrow> nat \<Rightarrow> (nat \<times> nat) option \<Rightarrow> terminal_hook \<Rightarrow> terminal_hook" where
  "timer_fires i t fit h =
     (case conns h i of
        None \<Rightarrow> h
      | Some c \<Rightarrow>
          (case map_of (armed c) t of
             None \<Rightarrow> h
           | Some k \<Rightarrow>
               (let h1 = put_conn i (c\<lparr>armed := drop_timer t (armed c),
                                        timers := drop_timer t (timers c)\<rparr>) h
                in if generation h1 = i then run_timer i k fit h1 else h1)))"

definition first_frame :: "nat \<Rightarrow> (nat \<times> nat) option \<Rightarrow> terminal_hook \<Rightarrow> terminal_hook" where
  "first_frame i fit h =
     (case conns h i of
        None \<Rightarrow> h
      | Some c \<Rightarrow>
          if \<not> raf_armed c then h
          else
            (let h1 = put_conn i (c\<lparr>raf_armed := False, raf_tracked := False\<rparr>) h
             in if generation h1 = i then do_fit fit h1 else h1))"

text \<open>The effect on theme, font, visibility and the shortcut bar.\<close>

definition change_props :: "int \<Rightarrow> iterm_theme \<Rightarrow> bool \<Rightarrow> terminal_hook \<Rightarrow> terminal_hook" where
  "change_props fs th active h0 =
     (let h = h0\<lparr>font_size := fs, theme_prop := th, is_active := active, layout_frame := True\<rparr>
      in (case term_ref h of
            None \<Rightarrow> h
          | Some i \<Rightarrow>
              (case conns h i of
                 None \<Rightarrow> h
               | Some c \<Rightarrow>
                   put_conn i (c\<lparr>xterm := (xterm c)\<lparr>option_theme := th, option_font := fs\<rparr>\<rparr>) h)))"

definition with_sock :: "nat \<Rightarrow> (socket \<Rightarrow> socket) \<Rightarrow> terminal_hook \<Rightarrow> terminal_hook" where
  "with_sock i f h =
     (case conns h i of None \<Rightarrow> h | Some c \<Rightarrow> put_conn i (c\<lparr>sock := f (sock c)\<rparr>) h)"

fun terminal_step :: "terminal_hook \<Rightarrow> terminal_event \<Rightarrow> terminal_hook" where
  "terminal_step h (Connect loc store) = connect loc store h"
| "terminal_step h Unmount = cleanup h"
| "terminal_step h (Change_Server loc store sid) =
     connect loc store ((cleanup h)\<lparr>server_id := sid\<rparr>)"
| "terminal_step h (Change_Props fs th active) = change_props fs th active h"
| "terminal_step h (Layout_Frame fit) =
     (if layout_frame h then do_fit fit (h\<lparr>layout_frame := False\<rparr>) else h)"
| "terminal_step h (Viewport_Resize fit) = do_fit fit h"
| "terminal_step h (Send_Shortcut data) = send_current data h"
| "terminal_step h (Term_Data i data) = (if generation h = i then send_current data h else h)"
| "terminal_step h (Term_Resize i d) = resize_terminal i d h"
| "terminal_step h (Observed i fit) = (if generation h = i then fit_and_resize i fit h else h)"
| "terminal_step h (First_Frame i fit) = first_frame i fit h"
| "terminal_step h (Timer_Fires i t fit) = timer_fires i t fit h"
| "terminal_step h (Message i data fit) = on_message i data fit h"
| "terminal_step h (Socket_Closed i) =
     fail i (JStr msg_ssh_closed) (with_sock i (\<lambda>w. w\<lparr>ready_state := Ws_Closed\<rparr>) h)"
| "terminal_step h (Socket_Error i) = fail i (JStr msg_ws_error) h"
| "terminal_step h (Env_Open i) =
     with_sock i (\<lambda>w. if ready_state w = Ws_Connecting then w\<lparr>ready_state := Ws_Open\<rparr> else w) h"
| "terminal_step h (Env_Drain i n) = with_sock i (\<lambda>w. w\<lparr>buffered := buffered w - n\<rparr>) h"
| "terminal_step h (Env_Fault i b) = with_sock i (\<lambda>w. w\<lparr>faulty := b\<rparr>) h"
| "terminal_step h (Env_Layout present w ht) =
     h\<lparr>has_container := present, client_width := w, client_height := ht\<rparr>"

end
