(* ===== verification/Terminal_Invariant.thy ===== *)
theory Terminal_Invariant
  imports Terminal_Connection
begin

text \<open>
  The invariant of the terminal hook and the proof that every event keeps it: at most the connection
  the refs point at is live, every other one is released, every timer the browser holds is one the code
  tracks, and queued input always has a pump timer behind it.
\<close>

section \<open>The invariant\<close>

definition pending :: "connection \<Rightarrow> bytes list" where
  "pending c = drop (queue_index c) (queue c)"

text \<open>What holds of the current connection at every point of a handler, and at the end of one.\<close>

definition timers_ok :: "connection \<Rightarrow> bool" where
  "timers_ok c \<longleftrightarrow>
     set (armed c) \<subseteq> set (timers c) \<and> distinct (map fst (armed c)) \<and>
     (\<forall>p \<in> set (timers c). fst p < next_timer c) \<and>
     (\<forall>t. pump_timer c = Some t \<longleftrightarrow> (t, Pump_Timer) \<in> set (armed c)) \<and>
     (\<forall>t. resize_timer c = Some t \<longrightarrow>
        t < next_timer c \<and> (\<forall>k. (t, k) \<in> set (armed c) \<longrightarrow> k = Resize_Timer)) \<and>
     (raf_armed c \<longrightarrow> raf_tracked c)"

definition stream_ok :: "connection \<Rightarrow> bool" where
  "stream_ok c \<longleftrightarrow>
     \<not> (connected c \<and> failed c) \<and>
     (failed c \<longrightarrow> ready_state (sock c) = Ws_Closing \<or> ready_state (sock c) = Ws_Closed) \<and>
     (pending c \<noteq> [] \<longrightarrow> connected c \<and> ready_state (sock c) \<noteq> Ws_Connecting) \<and>
     queue_index c \<le> length (queue c) \<and> (\<forall>f \<in> set (queue c). stdin_frame f) \<and>
     handlers (sock c) \<and> \<not> disposed (xterm c)"

definition base :: "connection \<Rightarrow> bool" where
  "base c \<longleftrightarrow> timers_ok c \<and> stream_ok c"

definition live :: "connection \<Rightarrow> bool" where
  "live c \<longleftrightarrow> base c \<and> (pending c \<noteq> [] \<and> ready_state (sock c) = Ws_Open \<longrightarrow> pump_timer c \<noteq> None)"

definition dead :: "connection \<Rightarrow> bool" where
  "dead c \<longleftrightarrow>
     armed c = [] \<and> \<not> raf_armed c \<and> \<not> observing c \<and> \<not> handlers (sock c) \<and> \<not> connected c \<and>
     queue c = [] \<and> (ready_state (sock c) = Ws_Closing \<or> ready_state (sock c) = Ws_Closed) \<and>
     disposed (xterm c) \<and> \<not> subscribed (xterm c) \<and> \<not> touch_attached (xterm c)"

definition refs_ok :: "terminal_hook \<Rightarrow> bool" where
  "refs_ok h \<longleftrightarrow>
     send_ref h = cleanup_ref h \<and> ws_ref h = cleanup_ref h \<and> fit_ref h = term_ref h \<and>
     (\<forall>i. cleanup_ref h = Some i \<longrightarrow> i = generation h \<and> term_ref h = Some i \<and> conns h i \<noteq> None)"

definition conn_inv :: "terminal_hook \<Rightarrow> nat \<Rightarrow> connection \<Rightarrow> bool" where
  "conn_inv h i c \<longleftrightarrow> (if cleanup_ref h = Some i then live c else dead c \<and> i < generation h)"

definition hook_inv :: "terminal_hook \<Rightarrow> bool" where
  "hook_inv h \<longleftrightarrow>
     refs_ok h \<and> (\<forall>i c. conns h i = Some c \<longrightarrow> conn_inv h i c) \<and>
     (status h = Status_Connected \<longrightarrow>
       (\<forall>i c. cleanup_ref h = Some i \<longrightarrow> conns h i = Some c \<longrightarrow> connected c))"

text \<open>The same with one connection left open, for the middle of a handler.\<close>

definition others_ok :: "nat \<Rightarrow> terminal_hook \<Rightarrow> bool" where
  "others_ok i h \<longleftrightarrow>
     refs_ok h \<and> conns h i \<noteq> None \<and> cleanup_ref h = Some i \<and>
     (\<forall>j c. j \<noteq> i \<longrightarrow> conns h j = Some c \<longrightarrow> conn_inv h j c)"

lemma hook_inv_live:
  "hook_inv h \<Longrightarrow> conns h i = Some c \<Longrightarrow> generation h = i \<Longrightarrow> cleanup_ref h = Some i \<and> live c"
  unfolding hook_inv_def conn_inv_def by (metis less_irrefl)

lemma hook_inv_stale:
  "hook_inv h \<Longrightarrow> conns h i = Some c \<Longrightarrow> generation h \<noteq> i \<Longrightarrow> cleanup_ref h \<noteq> Some i \<and> dead c \<and> i < generation h"
  unfolding hook_inv_def conn_inv_def refs_ok_def by metis

lemma hook_inv_others:
  "hook_inv h \<Longrightarrow> conns h i = Some c \<Longrightarrow> generation h = i \<Longrightarrow> others_ok i h"
  using hook_inv_live unfolding hook_inv_def others_ok_def by blast

lemma hook_inv_refs:
  "hook_inv h \<Longrightarrow> cleanup_ref h = Some i \<Longrightarrow>
   generation h = i \<and> term_ref h = Some i \<and> send_ref h = Some i \<and> ws_ref h = Some i \<and>
   (\<exists>c. conns h i = Some c)"
  unfolding hook_inv_def refs_ok_def by auto

lemma hook_inv_conns_le: "hook_inv h \<Longrightarrow> conns h i \<noteq> None \<Longrightarrow> i \<le> generation h"
  using hook_inv_stale by fastforce

lemma others_ok_generation: "others_ok i h \<Longrightarrow> generation h = i"
  by (auto simp: others_ok_def refs_ok_def)

lemma others_ok_put: "others_ok i h \<Longrightarrow> others_ok i (put_conn i c h)"
  by (auto simp: others_ok_def put_conn_def refs_ok_def conn_inv_def)

text \<open>Closing a handler: a live connection in the open place, and a status that fits it.\<close>

lemma hook_inv_put:
  assumes "others_ok i h" "live c" "status h = Status_Connected \<Longrightarrow> connected c"
  shows "hook_inv (put_conn i c h)"
  using assms
  by (auto simp: hook_inv_def others_ok_def put_conn_def refs_ok_def conn_inv_def)

lemma hook_inv_put_error:
  assumes "others_ok i h" "live c"
  shows "hook_inv ((put_conn i c h)\<lparr>error_msg := e, status := Status_Error\<rparr>)"
  using assms
  by (auto simp: hook_inv_def others_ok_def put_conn_def refs_ok_def conn_inv_def)

lemma hook_inv_put_stale:
  assumes "hook_inv h" "generation h \<noteq> i" "conns h i = Some c" "dead c'"
  shows "hook_inv (put_conn i c' h)"
  using assms hook_inv_stale [OF assms(1,3,2)]
  by (auto simp: hook_inv_def put_conn_def refs_ok_def conn_inv_def)

lemma put_conn_simps [simp]:
  "generation (put_conn i c h) = generation h" "conns (put_conn i c h) = (conns h)(i \<mapsto> c)"
  "status (put_conn i c h) = status h" "cleanup_ref (put_conn i c h) = cleanup_ref h"
  "fit_ref (put_conn i c h) = fit_ref h" "send_ref (put_conn i c h) = send_ref h"
  "is_active (put_conn i c h) = is_active h" "has_container (put_conn i c h) = has_container h"
  "client_width (put_conn i c h) = client_width h" "client_height (put_conn i c h) = client_height h"
  "error_msg (put_conn i c h) = error_msg h" "term_ref (put_conn i c h) = term_ref h"
  "ws_ref (put_conn i c h) = ws_ref h" "server_id (put_conn i c h) = server_id h"
  by (simp_all add: put_conn_def)

lemma put_conn_twice [simp]: "put_conn i c' (put_conn i c h) = put_conn i c' h"
  by (simp add: put_conn_def)

section \<open>The pump\<close>

lemma pump_loop_stop: "\<not> (i < length q \<and> buffered w < buffer_limit) \<Longrightarrow> pump_loop q i w = (i, w, False)"
  by (subst pump_loop.simps) (rule if_not_P)

lemma pump_loop_raise:
  "i < length q \<Longrightarrow> buffered w < buffer_limit \<Longrightarrow> ws_send w (q ! i) = None \<Longrightarrow>
   pump_loop q i w = (Suc i, w, True)"
  by (subst pump_loop.simps) simp

lemma pump_loop_send:
  "i < length q \<Longrightarrow> buffered w < buffer_limit \<Longrightarrow> ws_send w (q ! i) = Some v \<Longrightarrow>
   pump_loop q i w = pump_loop q (Suc i) v"
  by (subst pump_loop.simps) simp

lemma pump_loop_spec:
  assumes "pump_loop q i w = (j, w', raised)" "i \<le> length q" "ready_state w = Ws_Open"
  shows "j \<le> length q \<and> i \<le> j \<and> ready_state w' = Ws_Open \<and> handlers w' = handlers w
    \<and> (\<not> raised \<longrightarrow> stdin_of (sent w') @ stdin_of (drop j q) = stdin_of (sent w) @ stdin_of (drop i q))
    \<and> prefix (stdin_of (sent w')) (stdin_of (sent w) @ stdin_of (drop i q))
    \<and> (raised \<longrightarrow> faulty w) \<and> (\<not> raised \<longrightarrow> j = length q \<or> buffer_limit \<le> buffered w')"
  using assms
proof (induction q i w rule: pump_loop.induct)
  case (1 q i w)
  show ?case
  proof (cases "i < length q \<and> buffered w < buffer_limit")
    case False
    then have "(i, w, False) = (j, w', raised)"
      using "1.prems"(1) pump_loop_stop by metis
    then have "j = i" "w' = w" "\<not> raised"
      by simp_all
    with "1.prems"(2,3) False show ?thesis by auto
  next
    case True
    show ?thesis
    proof (cases "ws_send w (q ! i)")
      case None
      then have "(Suc i, w, True) = (j, w', raised)"
        using "1.prems"(1) True pump_loop_raise by metis
      then have "j = Suc i" "w' = w" "raised"
        by simp_all
      with "1.prems"(2,3) True None show ?thesis
        by (auto simp: ws_send_def split: if_splits)
    next
      case (Some v)
      have d: "stdin_of (drop i q) = stdin_of [q ! i] @ stdin_of (drop (Suc i) q)"
        using True by (metis Cons_nth_drop_Suc append_Cons append_Nil stdin_of_simps(3))
      have s: "stdin_of (sent v) = stdin_of (sent w) @ stdin_of [q ! i]"
        using ws.send_frames [OF "1.prems"(3) Some] by (simp only: stdin_of_simps(3))
      have "pump_loop q (Suc i) v = (j, w', raised)"
        using "1.prems"(1) True Some pump_loop_send by simp
      moreover have "ready_state v = Ws_Open" "handlers v = handlers w" "faulty v = faulty w"
        using ws_send_frame [OF Some] "1.prems"(3) by simp_all
      ultimately show ?thesis
        using "1.IH" [OF True Some] True s by (simp only: d) simp
    qed
  qed
qed

lemma ws_close_closed: "ready_state (ws_close w) = Ws_Closing \<or> ready_state (ws_close w) = Ws_Closed"
  by (cases "ready_state w") (auto simp: ws_close_def)

lemma fail_current:
  assumes "others_ok i h" "conns h i = Some c" "base c" "\<not> failed c"
  shows "hook_inv (fail i m h)"
proof -
  let ?c = "c\<lparr>failed := True, connected := False, queue := [], queue_index := 0,
              sock := ws_close (sock c)\<rparr>"
  have "live ?c"
    using assms(3) ws_close_closed [of "sock c"]
    by (auto simp: live_def base_def timers_ok_def stream_ok_def pending_def)
  with assms others_ok_generation [OF assms(1)] show ?thesis
    by (auto simp: fail_def intro!: hook_inv_put_error)
qed

lemma fail_done: "conns h i = Some c \<Longrightarrow> failed c \<Longrightarrow> fail i m h = h"
  by (simp add: fail_def)

lemma fail_stale: "generation h \<noteq> i \<Longrightarrow> fail i m h = h"
  by (simp add: fail_def split: option.split)

lemma fail_none: "conns h i = None \<Longrightarrow> fail i m h = h"
  by (simp add: fail_def)

lemma live_base: "live c \<Longrightarrow> base c"
  by (simp add: live_def)

text \<open>The three ways an event can find its connection: missing, stale or current.\<close>

lemma conn_cases:
  assumes "hook_inv h"
  obtains (missing) "conns h i = None"
  | (stale) c where "conns h i = Some c" "generation h \<noteq> i" "dead c"
  | (current) c where "conns h i = Some c" "generation h = i" "others_ok i h" "live c"
      "status h = Status_Connected \<Longrightarrow> connected c"
proof (cases "conns h i")
  case None
  then show ?thesis by (rule missing)
next
  case (Some c)
  show ?thesis
  proof (cases "generation h = i")
    case True
    have "cleanup_ref h = Some i" "live c"
      using hook_inv_live [OF assms Some True] by auto
    moreover from this have "status h = Status_Connected \<Longrightarrow> connected c"
      using assms Some unfolding hook_inv_def by blast
    ultimately show ?thesis
      using current [OF Some True hook_inv_others [OF assms Some True]] by blast
  next
    case False
    then show ?thesis
      using stale [OF Some False] hook_inv_stale [OF assms Some False] by blast
  qed
qed

lemma fail_inv: "hook_inv h \<Longrightarrow> hook_inv (fail i m h)"
proof -
  assume h: "hook_inv h"
  show ?thesis
    using h
  proof (cases rule: conn_cases [where i = i])
    case (current c)
    with h show ?thesis
      by (cases "failed c") (auto simp: fail_done intro: fail_current live_base)
  qed (simp_all add: h fail_stale fail_none)
qed

lemma later_timers:
  "later k c = (t, c') \<Longrightarrow> timers_ok (c\<lparr>pump_timer := None\<rparr>) \<Longrightarrow> k = Pump_Timer \<Longrightarrow>
   timers_ok (c'\<lparr>pump_timer := Some t\<rparr>)"
  "later k c = (t, c') \<Longrightarrow> timers_ok c \<Longrightarrow> k \<noteq> Pump_Timer \<Longrightarrow> timers_ok c'"
  by (fastforce simp: later_def timers_ok_def Let_def)+

lemma later_frame:
  "later k c = (t, c') \<Longrightarrow>
   queue c' = queue c \<and> queue_index c' = queue_index c \<and> sock c' = sock c \<and> xterm c' = xterm c \<and>
   connected c' = connected c \<and> failed c' = failed c \<and> pump_timer c' = pump_timer c"
  by (auto simp: later_def Let_def)

text \<open>What the pump leaves behind once its loop has stopped.\<close>

lemma pump_after_loop:
  assumes b: "base c" "pump_timer c = None" "connected c" "ready_state (sock c) = Ws_Open"
    and l: "pump_loop (queue c) (queue_index c) (sock c) = (j, w, raised)"
    and c1: "c1 = c\<lparr>queue_index := j, sock := w\<rparr>"
  shows "base c1"
    and "later Pump_Timer c1 = (t, c2) \<Longrightarrow> live (c2\<lparr>pump_timer := Some t\<rparr>) \<and> connected c2"
    and "live (c1\<lparr>queue := [], queue_index := 0\<rparr>)"
proof -
  have "queue_index c \<le> length (queue c)"
    using b(1) by (simp add: base_def stream_ok_def)
  note spec = pump_loop_spec [OF l this b(4)]
  show b1: "base c1"
    using b spec by (auto simp: c1 base_def timers_ok_def stream_ok_def pending_def)
  have "timers_ok (c1\<lparr>pump_timer := None\<rparr>)"
    using b1 b(2) by (simp add: base_def timers_ok_def c1)
  then show "later Pump_Timer c1 = (t, c2) \<Longrightarrow> live (c2\<lparr>pump_timer := Some t\<rparr>) \<and> connected c2"
    using later_timers(1) [of Pump_Timer c1 t c2] later_frame [of Pump_Timer c1 t c2] b1 b(3) c1
    by (auto simp: live_def base_def stream_ok_def pending_def)
  show "live (c1\<lparr>queue := [], queue_index := 0\<rparr>)"
    using b1 by (auto simp: live_def base_def timers_ok_def stream_ok_def pending_def)
qed

lemma pump_current:
  assumes o: "others_ok i h" and c0: "conns h i = Some c0"
    and b: "base (c0\<lparr>pump_timer := None\<rparr>)"
    and st: "status h = Status_Connected \<Longrightarrow> connected c0"
  shows "hook_inv (pump i h)"
proof -
  define c where "c = c0\<lparr>pump_timer := None\<rparr>"
  have g: "generation h = i"
    using o by (rule others_ok_generation)
  have bc: "base c" "pump_timer c = None" and st': "status h = Status_Connected \<Longrightarrow> connected c"
    using b st by (auto simp: c_def)
  show ?thesis
  proof (cases "can_send i h c")
    case False
    then have "live c"
      using bc g by (auto simp: live_def can_send_def base_def stream_ok_def)
    then show ?thesis
      using False c0 hook_inv_put [OF o _ st'] by (simp add: pump_def c_def [symmetric])
  next
    case True
    then have con: "connected c" "ready_state (sock c) = Ws_Open"
      by (auto simp: can_send_def)
    obtain j w raised where l: "pump_loop (queue c) (queue_index c) (sock c) = (j, w, raised)"
      by (cases "pump_loop (queue c) (queue_index c) (sock c)")
    define c1 where "c1 = c\<lparr>queue_index := j, sock := w\<rparr>"
    note after = pump_after_loop [OF bc con l c1_def]
    have f: "hook_inv (fail i (JStr msg_send_failed) (put_conn i c1 h))"
      using after(1) con
      by (intro fail_current [OF others_ok_put [OF o] _ after(1)]) (auto simp: c1_def base_def stream_ok_def)
    obtain t c2 where t: "later Pump_Timer c1 = (t, c2)"
      by (cases "later Pump_Timer c1")
    have "pump i h =
        (if raised then fail i (JStr msg_send_failed) (put_conn i c1 h)
         else if j < length (queue c1) then put_conn i (c2\<lparr>pump_timer := Some t\<rparr>) h
         else put_conn i (c1\<lparr>queue := [], queue_index := 0\<rparr>) h)"
      using True by (simp add: pump_def c0 Let_def c_def [symmetric] l c1_def [symmetric] t)
    moreover have "hook_inv (put_conn i (c2\<lparr>pump_timer := Some t\<rparr>) h)"
      using after(2) [OF t] by (intro hook_inv_put [OF o]) simp_all
    moreover have "hook_inv (put_conn i (c1\<lparr>queue := [], queue_index := 0\<rparr>) h)"
      using after(3) con(1) by (intro hook_inv_put [OF o]) (simp_all add: c1_def)
    ultimately show ?thesis
      using f by presburger
  qed
qed

section \<open>Every operation keeps the invariant\<close>

lemma send_input_inv: "hook_inv h \<Longrightarrow> hook_inv (send_input i data h)"
proof -
  assume h: "hook_inv h"
  show ?thesis
    using h
  proof (cases rule: conn_cases [where i = i])
    case (current c)
    show ?thesis
    proof (cases "can_send i h c")
      case True
      let ?c = "c\<lparr>queue := queue c @ input_frames data\<rparr>"
      have con: "connected c" "ready_state (sock c) = Ws_Open"
        using True by (auto simp: can_send_def)
      have b: "base ?c"
        using current(4) con input_frames_shape
        by (auto simp: live_def base_def timers_ok_def stream_ok_def)
      show ?thesis
      proof (cases "pump_timer c")
        case None
        then have "base (?c\<lparr>pump_timer := None\<rparr>)"
          using b by (auto simp: base_def timers_ok_def stream_ok_def pending_def)
        then have "hook_inv (pump i (put_conn i ?c h))"
          using con by (intro pump_current [OF others_ok_put [OF current(3)], where ?c0.0 = ?c]) simp_all
        then show ?thesis
          using True None current(1) by (simp add: send_input_def)
      next
        case (Some t)
        then have "hook_inv (put_conn i ?c h)"
          using b con by (intro hook_inv_put [OF current(3)]) (simp_all add: live_def)
        then show ?thesis
          using True Some current(1) by (simp add: send_input_def)
      qed
    qed (simp add: send_input_def current h)
  qed (auto simp: send_input_def can_send_def h)
qed

lemma send_current_inv: "hook_inv h \<Longrightarrow> hook_inv (send_current data h)"
  by (auto simp: send_current_def intro: send_input_inv split: option.split)

lemma send_resize_inv: "hook_inv h \<Longrightarrow> hook_inv (send_resize i h)"
proof -
  assume h: "hook_inv h"
  show ?thesis
    using h
  proof (cases rule: conn_cases [where i = i])
    case (current c)
    have "hook_inv (put_conn i (c\<lparr>sock := w\<rparr>) h)"
      if "ws_send (sock c) f = Some w" "can_send i h c" for w f
      using that current ws_send_frame [OF that(1)]
      by (intro hook_inv_put [OF current(3)])
        (auto simp: live_def base_def timers_ok_def stream_ok_def pending_def can_send_def)
    then show ?thesis
      using h current(1) by (auto simp: send_resize_def intro: fail_inv split: option.split)
  qed (auto simp: send_resize_def can_send_def h)
qed

lemma drop_timer_set: "set (drop_timer t ts) = {p \<in> set ts. fst p \<noteq> t}"
  by (auto simp: drop_timer_def)

lemma drop_timer_distinct: "distinct (map fst ts) \<Longrightarrow> distinct (map fst (drop_timer t ts))"
  by (simp add: drop_timer_def distinct_map_filter)

lemma drop_resize_timer:
  "timers_ok c \<Longrightarrow> resize_timer c = Some t \<Longrightarrow>
   timers_ok (c\<lparr>armed := drop_timer t (armed c), timers := drop_timer t (timers c)\<rparr>)"
  by (auto simp: timers_ok_def drop_timer_set drop_timer_distinct)

lemma later_resize:
  "later Resize_Timer c = (t, c') \<Longrightarrow> timers_ok c \<Longrightarrow> timers_ok (c'\<lparr>resize_timer := Some t\<rparr>)"
  by (fastforce simp: later_def timers_ok_def Let_def)

lemma live_timers:
  "live c \<Longrightarrow> timers_ok c' \<Longrightarrow> queue c' = queue c \<Longrightarrow> queue_index c' = queue_index c \<Longrightarrow>
   sock c' = sock c \<Longrightarrow> disposed (xterm c') = disposed (xterm c) \<Longrightarrow> connected c' = connected c \<Longrightarrow>
   failed c' = failed c \<Longrightarrow> pump_timer c' = pump_timer c \<Longrightarrow> live c'"
  by (auto simp: live_def base_def stream_ok_def pending_def)

lemma on_term_resize_inv: "hook_inv h \<Longrightarrow> hook_inv (on_term_resize i h)"
proof -
  assume h: "hook_inv h"
  show ?thesis
    using h
  proof (cases rule: conn_cases [where i = i])
    case (current c)
    define c1 where "c1 = (case resize_timer c of None \<Rightarrow> c
        | Some t \<Rightarrow> c\<lparr>armed := drop_timer t (armed c), timers := drop_timer t (timers c)\<rparr>)"
    obtain t c2 where t: "later Resize_Timer c1 = (t, c2)"
      by (cases "later Resize_Timer c1")
    have "timers_ok c"
      using current(4) by (simp add: live_def base_def)
    then have "timers_ok c1"
      by (auto simp: c1_def intro: drop_resize_timer split: option.split)
    then have "timers_ok (c2\<lparr>resize_timer := Some t\<rparr>)"
      by (rule later_resize [OF t])
    moreover have "queue c1 = queue c \<and> queue_index c1 = queue_index c \<and> sock c1 = sock c \<and>
        xterm c1 = xterm c \<and> connected c1 = connected c \<and> failed c1 = failed c \<and>
        pump_timer c1 = pump_timer c"
      by (simp add: c1_def split: option.split)
    ultimately have "hook_inv (put_conn i (c2\<lparr>resize_timer := Some t\<rparr>) h)"
      using later_frame [OF t] current(5)
      by (intro hook_inv_put [OF current(3)] live_timers [OF current(4)]) simp_all
    then show ?thesis
      using current(1,2) t by (simp add: on_term_resize_def Let_def c1_def [symmetric])
  qed (auto simp: on_term_resize_def h)
qed

lemma resize_terminal_inv: "hook_inv h \<Longrightarrow> hook_inv (resize_terminal i d h)"
proof -
  assume h: "hook_inv h"
  show ?thesis
    using h
  proof (cases rule: conn_cases [where i = i])
    case (current c)
    let ?c = "c\<lparr>xterm := (xterm c)\<lparr>cols := fst d, rows := snd d\<rparr>\<rparr>"
    have "timers_ok ?c"
      using current(4) by (simp add: live_def base_def timers_ok_def)
    then have "hook_inv (put_conn i ?c h)"
      using current(5)
      by (intro hook_inv_put [OF current(3)] live_timers [OF current(4)]) simp_all
    then show ?thesis
      using current(1) h by (simp add: resize_terminal_def on_term_resize_inv)
  next
    case (stale c)
    then have "hook_inv (put_conn i (c\<lparr>xterm := (xterm c)\<lparr>cols := fst d, rows := snd d\<rparr>\<rparr>) h)"
      by (intro hook_inv_put_stale [OF h]) (auto simp: dead_def)
    then show ?thesis
      using stale(1) h by (simp add: resize_terminal_def on_term_resize_inv)
  qed (simp add: resize_terminal_def h)
qed

lemma do_fit_inv: "hook_inv h \<Longrightarrow> hook_inv (do_fit fit h)"
  by (auto simp: do_fit_def intro: resize_terminal_inv split: option.split)

lemma fit_and_resize_inv: "hook_inv h \<Longrightarrow> hook_inv (fit_and_resize i fit h)"
  by (simp add: fit_and_resize_def send_resize_inv do_fit_inv)

lemma write_term_inv: "hook_inv h \<Longrightarrow> generation h = i \<Longrightarrow> hook_inv (write_term i p h)"
proof -
  assume h: "hook_inv h" "generation h = i"
  show ?thesis
    using h(1)
  proof (cases rule: conn_cases [where i = i])
    case (current c)
    let ?c = "c\<lparr>xterm := (xterm c)\<lparr>written := written (xterm c) @ [p]\<rparr>\<rparr>"
    have "timers_ok ?c"
      using current(4) by (simp add: live_def base_def timers_ok_def)
    then have "hook_inv (put_conn i ?c h)"
      using current(5)
      by (intro hook_inv_put [OF current(3)] live_timers [OF current(4)]) simp_all
    then show ?thesis
      using current(1) by (simp add: write_term_def)
  qed (simp_all add: write_term_def h)
qed

lemma arm_fit_inv: "hook_inv h \<Longrightarrow> generation h = i \<Longrightarrow> hook_inv (arm_fit i h)"
proof -
  assume h: "hook_inv h" "generation h = i"
  show ?thesis
    using h(1)
  proof (cases rule: conn_cases [where i = i])
    case (current c)
    obtain t c2 where t: "later Fit_Timer c = (t, c2)"
      by (cases "later Fit_Timer c")
    have "timers_ok c2"
      using current(4) later_timers(2) [OF t] by (simp add: live_def base_def)
    then have "hook_inv (put_conn i c2 h)"
      using current(5) later_frame [OF t]
      by (intro hook_inv_put [OF current(3)] live_timers [OF current(4)]) simp_all
    then show ?thesis
      using current(1) t by (simp add: arm_fit_def)
  qed (simp_all add: arm_fit_def h)
qed

lemma hook_inv_put_connected:
  assumes "others_ok i h" "live c" "connected c"
  shows "hook_inv ((put_conn i c h)\<lparr>status := Status_Connected\<rparr>)"
  using assms by (auto simp: hook_inv_def others_ok_def put_conn_def refs_ok_def conn_inv_def)

lemma set_connected_inv:
  "hook_inv h \<Longrightarrow> conns h i = Some c \<Longrightarrow> generation h = i \<Longrightarrow> \<not> failed c \<Longrightarrow> hook_inv (set_connected i h)"
proof -
  assume h: "hook_inv h" "conns h i = Some c" "generation h = i" "\<not> failed c"
  have "live (c\<lparr>connected := True\<rparr>)"
    using hook_inv_live [OF h(1-3)] h(4)
    by (auto simp: live_def base_def timers_ok_def stream_ok_def pending_def)
  then show ?thesis
    using hook_inv_put_connected [OF hook_inv_others [OF h(1-3)]] h(2)
    by (simp add: set_connected_def)
qed

text \<open>No handler but \<open>connect\<close> and \<open>cleanup\<close> moves the generation.\<close>

lemma fail_generation [simp]: "generation (fail i m h) = generation h"
  by (simp add: fail_def split: option.split)

lemma pump_generation [simp]: "generation (pump i h) = generation h"
  by (simp add: pump_def Let_def split: option.split prod.split)

lemma send_input_generation [simp]: "generation (send_input i d h) = generation h"
  by (simp add: send_input_def Let_def split: option.split)

lemma send_current_generation [simp]: "generation (send_current d h) = generation h"
  by (simp add: send_current_def split: option.split)

lemma send_resize_generation [simp]: "generation (send_resize i h) = generation h"
  by (simp add: send_resize_def split: option.split)

lemma on_term_resize_generation [simp]: "generation (on_term_resize i h) = generation h"
  by (simp add: on_term_resize_def Let_def split: option.split prod.split)

lemma resize_terminal_generation [simp]: "generation (resize_terminal i d h) = generation h"
  by (simp add: resize_terminal_def split: option.split)

lemma do_fit_generation [simp]: "generation (do_fit fit h) = generation h"
  by (simp add: do_fit_def split: option.split)

lemma fit_and_resize_generation [simp]: "generation (fit_and_resize i fit h) = generation h"
  by (simp add: fit_and_resize_def)

lemma small_generation [simp]:
  "generation (write_term i p h) = generation h" "generation (arm_fit i h) = generation h"
  "generation (set_connected i h) = generation h" "generation (with_sock i f h) = generation h"
  by (simp_all add: write_term_def arm_fit_def set_connected_def with_sock_def split: option.split)

lemma on_message_generation [simp]: "generation (on_message i data fit h) = generation h"
  by (simp add: on_message_def split: option.split ws_data.split list.split)

lemma run_timer_generation [simp]: "generation (run_timer i k fit h) = generation h"
  by (simp add: run_timer_def split: timer_kind.split)

lemma timer_fires_generation [simp]: "generation (timer_fires i t fit h) = generation h"
  by (simp add: timer_fires_def Let_def split: option.split)

lemma first_frame_generation [simp]: "generation (first_frame i fit h) = generation h"
  by (simp add: first_frame_def Let_def split: option.split)

lemma change_props_generation [simp]: "generation (change_props fs th a h) = generation h"
  by (simp add: change_props_def Let_def split: option.split)

lemma on_message_inv: "hook_inv h \<Longrightarrow> hook_inv (on_message i data fit h)"
proof -
  assume h: "hook_inv h"
  show ?thesis
  proof (cases "conns h i")
    case (Some c)
    show ?thesis
    proof (cases "generation h \<noteq> i \<or> failed c")
      case True
      with Some h show ?thesis by (auto simp: on_message_def)
    next
      case False
      then have "hook_inv (set_connected i h)"
        using set_connected_inv [OF h Some] by simp
      then have "hook_inv (arm_fit i (arm_fit i (fit_and_resize i fit (set_connected i h))))"
        using False by (intro arm_fit_inv fit_and_resize_inv) auto
      with False Some h show ?thesis
        by (auto simp: on_message_def intro: fail_inv write_term_inv
            split: ws_data.split list.split option.split)
    qed
  qed (simp add: on_message_def h)
qed

lemma released_dead: "live c \<Longrightarrow> dead (released c)"
  using ws_close_closed [of "(sock c)\<lparr>handlers := False\<rparr>"]
  by (auto simp: live_def base_def timers_ok_def dead_def released_def filter_empty_conv)

lemma cleanup_inv: "hook_inv h \<Longrightarrow> hook_inv (cleanup h) \<and> cleanup_ref (cleanup h) = None"
proof (cases "cleanup_ref h")
  case (Some i)
  assume h: "hook_inv h"
  from hook_inv_refs [OF this Some] obtain c where c: "conns h i = Some c" and g: "generation h = i"
    by blast
  have d: "dead (released c)"
    using hook_inv_live [OF h c g] released_dead by blast
  have "dead e \<and> j < generation h" if "conns h j = Some e" "j \<noteq> i" for j e
    using hook_inv_stale [OF h that(1)] that(2) g by blast
  then show ?thesis
    using Some c g d
    by (auto simp: cleanup_def hook_inv_def refs_ok_def conn_inv_def less_SucI)
qed (simp add: cleanup_def)

lemma live_new: "live (new_connection h u)"
  by (simp add: new_connection_def new_terminal_def ws_open_def live_def base_def timers_ok_def
      stream_ok_def pending_def)

lemma connect_inv: "hook_inv h \<Longrightarrow> hook_inv (connect loc store h)"
proof -
  assume "hook_inv h"
  then have h: "hook_inv (cleanup h)" "cleanup_ref (cleanup h) = None"
    using cleanup_inv by blast+
  have "dead e \<and> j < Suc (generation (cleanup h))" if "conns (cleanup h) j = Some e" for j e
  proof -
    have "conn_inv (cleanup h) j e"
      using h(1) that unfolding hook_inv_def by blast
    then show ?thesis
      using h(2) by (simp add: conn_inv_def less_SucI)
  qed
  moreover have "conns (cleanup h) (Suc (generation (cleanup h))) = None"
    using hook_inv_conns_le [OF h(1)] by fastforce
  ultimately show ?thesis
    using h(2) h(1) live_new
    by (auto simp: connect_def Let_def hook_inv_def refs_ok_def conn_inv_def put_conn_def split: option.split)
qed

lemma fire_timers_ok:
  assumes "timers_ok c" "map_of (armed c) t = Some k"
  defines "c1 \<equiv> c\<lparr>armed := drop_timer t (armed c), timers := drop_timer t (timers c)\<rparr>"
  shows "k \<noteq> Pump_Timer \<Longrightarrow> timers_ok c1"
    and "k = Pump_Timer \<Longrightarrow> timers_ok (c1\<lparr>pump_timer := None\<rparr>)"
proof -
  have k: "(t, k) \<in> set (armed c)"
    using assms(2) by (rule map_of_SomeD)
  have u: "(t, j) \<in> set (armed c) \<Longrightarrow> j = k" for j
    using assms(1,2) by (auto simp: timers_ok_def)
  show "timers_ok c1" if "k \<noteq> Pump_Timer"
  proof -
    have "(t, Pump_Timer) \<notin> set (armed c)"
      using u that by blast
    then show ?thesis
      using assms(1) by (auto simp: c1_def timers_ok_def drop_timer_set drop_timer_distinct)
  qed
  show "timers_ok (c1\<lparr>pump_timer := None\<rparr>)" if "k = Pump_Timer"
  proof -
    have "\<forall>t'. (t', Pump_Timer) \<in> set (armed c) \<longrightarrow> t' = t"
      using assms(1) k that unfolding timers_ok_def by (metis option.inject)
    then show ?thesis
      using assms(1) by (auto simp: c1_def timers_ok_def drop_timer_set drop_timer_distinct)
  qed
qed

lemma timer_fires_inv: "hook_inv h \<Longrightarrow> hook_inv (timer_fires i t fit h)"
proof -
  assume h: "hook_inv h"
  show ?thesis
    using h
  proof (cases rule: conn_cases [where i = i])
    case (current c)
    show ?thesis
    proof (cases "map_of (armed c) t")
      case (Some k)
      let ?c = "c\<lparr>armed := drop_timer t (armed c), timers := drop_timer t (timers c)\<rparr>"
      have "timers_ok c"
        using current(4) by (simp add: live_def base_def)
      note fire = fire_timers_ok [OF this Some]
      have "hook_inv (run_timer i k fit (put_conn i ?c h))"
      proof (cases "k = Pump_Timer")
        case True
        then have "base (?c\<lparr>pump_timer := None\<rparr>)"
          using fire(2) current(4) by (simp add: live_def base_def stream_ok_def pending_def)
        then show ?thesis
          using True current(5)
            pump_current [OF others_ok_put [OF current(3)], where ?c0.0 = ?c] by (simp add: run_timer_def)
      next
        case False
        then have "live ?c"
          using fire(1) by (intro live_timers [OF current(4)]) simp_all
        then have "hook_inv (put_conn i ?c h)"
          using current(5) by (intro hook_inv_put [OF current(3)]) simp_all
        then show ?thesis
          using False
          by (cases k) (simp_all add: run_timer_def send_resize_inv fit_and_resize_inv)
      qed
      then show ?thesis
        using current(1,2) Some by (simp add: timer_fires_def)
    qed (simp add: timer_fires_def current h)
  qed (simp_all add: timer_fires_def h dead_def)
qed

lemma first_frame_inv: "hook_inv h \<Longrightarrow> hook_inv (first_frame i fit h)"
proof -
  assume h: "hook_inv h"
  show ?thesis
    using h
  proof (cases rule: conn_cases [where i = i])
    case (current c)
    let ?c = "c\<lparr>raf_armed := False, raf_tracked := False\<rparr>"
    have "timers_ok ?c"
      using current(4) by (simp add: live_def base_def timers_ok_def)
    then have "hook_inv (put_conn i ?c h)"
      using current(5)
      by (intro hook_inv_put [OF current(3)] live_timers [OF current(4)]) simp_all
    then show ?thesis
      using current(1,2) h by (simp add: first_frame_def do_fit_inv)
  qed (simp_all add: first_frame_def h dead_def)
qed

lemma hook_inv_props [simp]:
  "hook_inv (h\<lparr>font_size := a\<rparr>) = hook_inv h" "hook_inv (h\<lparr>theme_prop := b\<rparr>) = hook_inv h"
  "hook_inv (h\<lparr>is_active := d\<rparr>) = hook_inv h" "hook_inv (h\<lparr>layout_frame := d\<rparr>) = hook_inv h"
  "hook_inv (h\<lparr>has_container := d\<rparr>) = hook_inv h" "hook_inv (h\<lparr>client_width := n\<rparr>) = hook_inv h"
  "hook_inv (h\<lparr>client_height := n\<rparr>) = hook_inv h" "hook_inv (h\<lparr>server_id := sid\<rparr>) = hook_inv h"
  by (simp_all add: hook_inv_def refs_ok_def conn_inv_def)

lemma put_options_inv:
  "hook_inv h \<Longrightarrow> conns h i = Some c \<Longrightarrow>
   hook_inv (put_conn i (c\<lparr>xterm := (xterm c)\<lparr>option_theme := th, option_font := fs\<rparr>\<rparr>) h)"
proof -
  assume h: "hook_inv h" and c: "conns h i = Some c"
  let ?c = "c\<lparr>xterm := (xterm c)\<lparr>option_theme := th, option_font := fs\<rparr>\<rparr>"
  show ?thesis
    using h
  proof (cases rule: conn_cases [where i = i])
    case (current c')
    then have e: "live c" "status h = Status_Connected \<Longrightarrow> connected c"
      using c by auto
    then have "timers_ok ?c"
      by (simp add: live_def base_def timers_ok_def)
    then show ?thesis
      using e(2) by (intro hook_inv_put [OF current(3)] live_timers [OF e(1)]) simp_all
  next
    case (stale c')
    then show ?thesis
      using c by (intro hook_inv_put_stale [OF h]) (auto simp: dead_def)
  qed (simp add: c)
qed

lemma change_props_inv: "hook_inv h \<Longrightarrow> hook_inv (change_props fs th a h)"
proof -
  assume "hook_inv h"
  then have "hook_inv (h\<lparr>font_size := fs, theme_prop := th, is_active := a, layout_frame := True\<rparr>)"
    by simp
  then show ?thesis
    by (auto simp: change_props_def Let_def simp del: hook_inv_props intro: put_options_inv split: option.split)
qed

text \<open>What the environment may do to a socket.\<close>

definition env_move :: "(socket \<Rightarrow> socket) \<Rightarrow> bool" where
  "env_move f \<longleftrightarrow>
     (\<forall>w. handlers (f w) = handlers w \<and>
        (ready_state w = Ws_Closing \<or> ready_state w = Ws_Closed \<longrightarrow>
           ready_state (f w) = Ws_Closing \<or> ready_state (f w) = Ws_Closed) \<and>
        (ready_state (f w) = Ws_Open \<longrightarrow> ready_state w = Ws_Open \<or> ready_state w = Ws_Connecting) \<and>
        (ready_state (f w) = Ws_Connecting \<longrightarrow> ready_state w = Ws_Connecting))"

lemma with_sock_inv: "env_move f \<Longrightarrow> hook_inv h \<Longrightarrow> hook_inv (with_sock i f h)"
proof -
  assume f: "env_move f" and h: "hook_inv h"
  show ?thesis
    using h
  proof (cases rule: conn_cases [where i = i])
    case (current c)
    have m: "handlers (f (sock c)) = handlers (sock c)"
      "ready_state (sock c) = Ws_Closing \<or> ready_state (sock c) = Ws_Closed \<longrightarrow>
         ready_state (f (sock c)) = Ws_Closing \<or> ready_state (f (sock c)) = Ws_Closed"
      "ready_state (f (sock c)) = Ws_Open \<longrightarrow> ready_state (sock c) = Ws_Open \<or> ready_state (sock c) = Ws_Connecting"
      "ready_state (f (sock c)) = Ws_Connecting \<longrightarrow> ready_state (sock c) = Ws_Connecting"
      using f unfolding env_move_def by blast+
    have "live (c\<lparr>sock := f (sock c)\<rparr>)"
      using current(4) m
      by (auto simp: live_def base_def timers_ok_def stream_ok_def pending_def)
    then have "hook_inv (put_conn i (c\<lparr>sock := f (sock c)\<rparr>) h)"
      using current(5) by (intro hook_inv_put [OF current(3)]) simp_all
    then show ?thesis
      using current(1) by (simp add: with_sock_def)
  next
    case (stale c)
    have "handlers (f (sock c)) = handlers (sock c)"
      "ready_state (f (sock c)) = Ws_Closing \<or> ready_state (f (sock c)) = Ws_Closed"
      using f stale(3) unfolding env_move_def dead_def by blast+
    then have "hook_inv (put_conn i (c\<lparr>sock := f (sock c)\<rparr>) h)"
      using stale by (intro hook_inv_put_stale [OF h]) (auto simp: dead_def)
    then show ?thesis
      using stale(1) by (simp add: with_sock_def)
  qed (simp add: with_sock_def h)
qed

lemma env_moves:
  "env_move (\<lambda>w. w\<lparr>ready_state := Ws_Closed\<rparr>)"
  "env_move (\<lambda>w. if ready_state w = Ws_Connecting then w\<lparr>ready_state := Ws_Open\<rparr> else w)"
  "env_move (\<lambda>w. w\<lparr>buffered := buffered w - n\<rparr>)"
  "env_move (\<lambda>w. w\<lparr>faulty := b\<rparr>)"
  by (auto simp: env_move_def)

lemmas terminal_op_invs =
  connect_inv cleanup_inv change_props_inv do_fit_inv send_current_inv resize_terminal_inv
  fit_and_resize_inv first_frame_inv timer_fires_inv on_message_inv fail_inv
  with_sock_inv [OF env_moves(1)] with_sock_inv [OF env_moves(2)]
  with_sock_inv [OF env_moves(3)] with_sock_inv [OF env_moves(4)]

lemma terminal_step_inv: "hook_inv h \<Longrightarrow> hook_inv (terminal_step h e)"
  by (cases e) (simp_all add: terminal_op_invs)

lemma init_hook_inv: "hook_inv (init_hook sid fs th a)"
  by (simp add: init_hook_def hook_inv_def refs_ok_def)

interpretation terminal: machine terminal_step hook_inv
  by unfold_locales (rule terminal_step_inv)

definition reconnects :: "terminal_hook \<Rightarrow> terminal_event \<Rightarrow> bool" where
  "reconnects h e \<longleftrightarrow>
     (case e of Connect _ _ \<Rightarrow> True | Change_Server _ _ _ \<Rightarrow> True
      | Unmount \<Rightarrow> cleanup_ref h \<noteq> None | _ \<Rightarrow> False)"

lemma cleanup_generation: "generation h \<le> generation (cleanup h)"
  "cleanup_ref h \<noteq> None \<Longrightarrow> generation h < generation (cleanup h)"
  by (auto simp: cleanup_def split: option.split)

lemma connect_generation: "generation (connect loc store h) = Suc (generation (cleanup h))"
  by (simp add: connect_def Let_def split: option.split)

lemma change_server_generation:
  "generation (cleanup h) \<le> generation (cleanup ((cleanup h)\<lparr>server_id := sid\<rparr>))"
  using cleanup_generation(1) [of "(cleanup h)\<lparr>server_id := sid\<rparr>"] by simp

lemma terminal_generation_mono: "generation h \<le> generation (terminal_step h e)"
  using cleanup_generation(1) [of h] change_server_generation [of h]
  by (cases e) (auto simp: connect_generation intro: le_SucI le_trans)

lemma terminal_generation_reconnects:
  "reconnects h e \<Longrightarrow> generation h < generation (terminal_step h e)"
  using cleanup_generation [of h] change_server_generation [of h]
  by (cases e) (auto simp: connect_generation reconnects_def intro: le_imp_less_Suc le_trans)

interpretation terminal_gen: generation_machine terminal_step generation reconnects
  by unfold_locales (rule terminal_generation_mono, rule terminal_generation_reconnects)

end
