(* ===== verification/Terminal_Flow.thy ===== *)
theory Terminal_Flow
  imports Terminal_Invariant
begin

text \<open>
  What happens to typed text: the bytes a connection has sent and still holds, how every operation
  moves them, and the run of a hook seen as a first-in first-out channel.
\<close>

section \<open>The stream of a connection\<close>

definition delivered :: "connection \<Rightarrow> bytes" where
  "delivered c = stdin_of (sent (sock c))"

definition flow :: "connection \<Rightarrow> bytes" where
  "flow c = delivered c @ stdin_of (pending c)"

definition ended :: "connection \<Rightarrow> bool" where
  "ended c \<longleftrightarrow> failed c \<or> disposed (xterm c)"

text \<open>
  A connection carries the bytes \<open>p\<close> typed into it: what was sent is a prefix of them, and as long as
  the connection has not ended what was sent and what is queued are all of them.
\<close>

definition carries :: "bytes \<Rightarrow> connection \<Rightarrow> bool" where
  "carries p c \<longleftrightarrow> prefix (delivered c) p \<and> (\<not> ended c \<longrightarrow> flow c = p)"

definition channel :: "nat \<Rightarrow> bytes \<Rightarrow> terminal_hook \<Rightarrow> bool" where
  "channel j p h \<longleftrightarrow> (case conns h j of None \<Rightarrow> p = [] | Some c \<Rightarrow> carries p c)"

lemma carries_same:
  "carries p c \<Longrightarrow> sock c' = sock c \<Longrightarrow> queue c' = queue c \<Longrightarrow> queue_index c' = queue_index c \<Longrightarrow>
   failed c' = failed c \<Longrightarrow> disposed (xterm c') = disposed (xterm c) \<Longrightarrow> carries p c'"
  by (simp add: carries_def flow_def delivered_def pending_def ended_def)

lemma carries_ended:
  "carries p c \<Longrightarrow> sent (sock c') = sent (sock c) \<Longrightarrow> failed c' \<or> disposed (xterm c') \<Longrightarrow> carries p c'"
  by (auto simp: carries_def delivered_def ended_def)

lemma channel_put:
  "channel j p h \<Longrightarrow> conns h i = Some c \<Longrightarrow> (carries p c \<Longrightarrow> carries p c') \<Longrightarrow>
   channel j p (put_conn i c' h)"
  by (auto simp: channel_def split: option.splits if_splits)

lemma channel_fields [simp]:
  "channel j p (h\<lparr>status := s\<rparr>) = channel j p h" "channel j p (h\<lparr>error_msg := e\<rparr>) = channel j p h"
  "channel j p (h\<lparr>layout_frame := b\<rparr>) = channel j p h"
  "channel j p (h\<lparr>server_id := sid\<rparr>) = channel j p h"
  by (simp_all add: channel_def)

section \<open>Every operation\<close>

lemma fail_channel: "channel j p h \<Longrightarrow> channel j p (fail i m h)"
  by (auto simp: fail_def intro!: channel_put intro: carries_ended split: option.split)

text \<open>What the pump's loop leaves of the stream.\<close>

lemma pump_loop_carries:
  assumes "pump_loop (queue c) (queue_index c) (sock c) = (k, w, raised)"
    and "ready_state (sock c) = Ws_Open" "queue_index c \<le> length (queue c)" "\<not> ended c"
    and "carries p c"
  shows "\<not> raised \<Longrightarrow> carries p (c\<lparr>queue_index := k, sock := w\<rparr>)"
    and "failed d \<Longrightarrow> sent (sock d) = sent w \<Longrightarrow> carries p d"
  using pump_loop_spec [OF assms(1,3,2)] assms(4,5)
  by (auto simp: carries_def flow_def delivered_def pending_def ended_def)

lemma pump_channel:
  assumes ch: "channel j p h" and c: "conns h i = Some c"
    and ok: "can_send i h c \<Longrightarrow> \<not> ended c \<and> queue_index c \<le> length (queue c)"
  shows "channel j p (pump i h)"
proof (cases "can_send i h (c\<lparr>pump_timer := None\<rparr>)")
  case False
  then show ?thesis
    using c ch by (auto simp: pump_def intro!: channel_put elim: carries_same)
next
  case True
  define d where "d = c\<lparr>pump_timer := None\<rparr>"
  obtain k w raised where l: "pump_loop (queue d) (queue_index d) (sock d) = (k, w, raised)"
    by (cases "pump_loop (queue d) (queue_index d) (sock d)")
  have o: "ready_state (sock d) = Ws_Open" "queue_index d \<le> length (queue d)" "\<not> ended d"
    "generation h = i" "\<not> failed d"
    using True ok by (auto simp: d_def can_send_def ended_def)
  have cd: "carries p c \<Longrightarrow> carries p d" for p
    by (rule carries_same) (simp_all add: d_def)
  define e where "e = d\<lparr>queue_index := k, sock := w\<rparr>"
  obtain t f where t: "later Pump_Timer e = (t, f)"
    by (cases "later Pump_Timer e")
  have "pump i h =
      (if raised then fail i (JStr msg_send_failed) (put_conn i e h)
       else if k < length (queue e) then put_conn i (f\<lparr>pump_timer := Some t\<rparr>) h
       else put_conn i (e\<lparr>queue := [], queue_index := 0\<rparr>) h)"
    using True by (simp add: pump_def c Let_def d_def [symmetric] l e_def [symmetric] t)
  moreover have "channel j p (fail i (JStr msg_send_failed) (put_conn i e h))"
  proof -
    define g where "g = e\<lparr>failed := True, connected := False, queue := [], queue_index := 0,
        sock := ws_close (sock e)\<rparr>"
    have "carries p g" if "carries p c"
      by (rule pump_loop_carries(2) [OF l o(1,2,3) cd [OF that]]) (simp_all add: g_def e_def)
    then have "channel j p (put_conn i g h)"
      by (rule channel_put [OF ch c])
    moreover have "\<not> failed e"
      using o(5) by (simp add: e_def)
    ultimately show ?thesis
      using o(4) by (simp add: fail_def g_def)
  qed
  moreover have "channel j p (put_conn i (f\<lparr>pump_timer := Some t\<rparr>) h)" if "\<not> raised"
  proof (rule channel_put [OF ch c])
    assume "carries p c"
    then have "carries p e"
      using pump_loop_carries(1) [OF l o(1,2,3) cd that] by (simp add: e_def)
    then show "carries p (f\<lparr>pump_timer := Some t\<rparr>)"
      using later_frame [OF t] by (simp add: carries_same)
  qed
  moreover have "channel j p (put_conn i (e\<lparr>queue := [], queue_index := 0\<rparr>) h)"
    if "\<not> raised" "\<not> k < length (queue e)"
  proof (rule channel_put [OF ch c])
    assume "carries p c"
    then have "carries p e"
      using pump_loop_carries(1) [OF l o(1,2,3) cd that(1)] by (simp add: e_def)
    then show "carries p (e\<lparr>queue := [], queue_index := 0\<rparr>)"
      using that(2) by (simp add: carries_def flow_def delivered_def pending_def ended_def e_def)
  qed
  ultimately show ?thesis
    by presburger
qed

lemma send_input_channel:
  assumes inv: "hook_inv h" and ch: "channel j p h"
  shows "channel j (p @ (if i = j then (case conns h j of None \<Rightarrow> []
      | Some c \<Rightarrow> if can_send j h c then text_encode data else []) else [])) (send_input i data h)"
  using inv
proof (cases rule: conn_cases [where i = i])
  case (current c)
  show ?thesis
  proof (cases "can_send i h c")
    case True
    define d where "d = c\<lparr>queue := queue c @ input_frames data\<rparr>"
    have st: "queue_index c \<le> length (queue c)" "\<not> ended c" "connected c"
      using current(4) True
      by (auto simp: live_def base_def stream_ok_def ended_def can_send_def)
    have "carries (q @ text_encode data) d" if "carries q c" for q
      using that st(1,2) input_frames_stdin [of data]
      by (auto simp: d_def carries_def flow_def delivered_def pending_def ended_def)
    then have m: "channel j (p @ (if i = j then text_encode data else [])) (put_conn i d h)"
      using ch current(1) by (cases "i = j") (simp_all add: channel_def)
    have "channel j (p @ (if i = j then text_encode data else [])) (pump i (put_conn i d h))"
      using st by (intro pump_channel [OF m, where c = d]) (auto simp: d_def ended_def)
    then show ?thesis
      using True current(1) m by (auto simp: send_input_def d_def Let_def)
  next
    case False
    then show ?thesis
      using current(1) ch by (cases "i = j") (auto simp: send_input_def)
  qed
qed (auto simp: send_input_def can_send_def ch split: option.split)


text \<open>The bytes a text adds to the stream of connection \<open>j\<close> when \<open>sendRef\<close> is called with it.\<close>

definition takes :: "nat \<Rightarrow> terminal_hook \<Rightarrow> js_string \<Rightarrow> bytes" where
  "takes j h data =
     (case conns h j of
        None \<Rightarrow> []
      | Some c \<Rightarrow> if send_ref h = Some j \<and> can_send j h c then text_encode data else [])"

lemma send_current_channel:
  "hook_inv h \<Longrightarrow> channel j p h \<Longrightarrow> channel j (p @ takes j h data) (send_current data h)"
  using send_input_channel [of h j p "the (send_ref h)" data]
  by (cases "\<exists>c. conns h j = Some c \<and> can_send j h c")
    (auto simp: send_current_def takes_def split: option.splits if_splits)

lemma send_resize_channel: "channel j p h \<Longrightarrow> channel j p (send_resize i h)"
proof -
  assume ch: "channel j p h"
  have "channel j p (put_conn i (c\<lparr>sock := w\<rparr>) h)"
    if c: "conns h i = Some c" "can_send i h c" and w: "ws_send (sock c) (resize_frame a b) = Some w" for c w a b
  proof (rule channel_put [OF ch c(1)])
    have "stdin_of (sent w) = stdin_of (sent (sock c))"
      using ws.send_frames [OF _ w] c(2) by (simp add: can_send_def del: stdin_of_simps(2))
    then show "carries p c \<Longrightarrow> carries p (c\<lparr>sock := w\<rparr>)"
      by (simp add: carries_def flow_def delivered_def pending_def ended_def)
  qed
  then show ?thesis
    using ch by (auto simp: send_resize_def intro: fail_channel split: option.split)
qed

lemma on_term_resize_channel: "channel j p h \<Longrightarrow> channel j p (on_term_resize i h)"
  by (auto simp: on_term_resize_def later_def Let_def intro!: channel_put elim: carries_same split: option.split)

lemma resize_terminal_channel: "channel j p h \<Longrightarrow> channel j p (resize_terminal i d h)"
  by (auto simp: resize_terminal_def intro!: on_term_resize_channel channel_put elim: carries_same split: option.split)

lemma do_fit_channel: "channel j p h \<Longrightarrow> channel j p (do_fit fit h)"
  by (auto simp: do_fit_def intro: resize_terminal_channel split: option.split)

lemma fit_and_resize_channel: "channel j p h \<Longrightarrow> channel j p (fit_and_resize i fit h)"
  by (simp add: fit_and_resize_def do_fit_channel send_resize_channel)

lemma small_channel:
  assumes "channel j p h"
  shows "channel j p (write_term i b h)" "channel j p (arm_fit i h)" "channel j p (set_connected i h)"
  using assms
  by (auto simp: write_term_def arm_fit_def set_connected_def later_def Let_def
      intro!: channel_put elim: carries_same split: option.split)

lemma with_sock_channel:
  "channel j p h \<Longrightarrow> (\<And>w. sent (f w) = sent w) \<Longrightarrow> channel j p (with_sock i f h)"
  by (auto simp: with_sock_def carries_def flow_def delivered_def pending_def ended_def
      intro!: channel_put split: option.split)


lemma on_message_channel: "channel j p h \<Longrightarrow> channel j p (on_message i data fit h)"
  by (auto simp: on_message_def intro: fail_channel small_channel fit_and_resize_channel
      split: option.split ws_data.split list.split)

lemma timer_fires_channel:
  assumes inv: "hook_inv h" and ch: "channel j p h"
  shows "channel j p (timer_fires i t fit h)"
  using inv
proof (cases rule: conn_cases [where i = i])
  case (current c)
  define d where "d = c\<lparr>armed := drop_timer t (armed c), timers := drop_timer t (timers c)\<rparr>"
  have "carries p c \<Longrightarrow> carries p d"
    by (rule carries_same) (simp_all add: d_def)
  then have m: "channel j p (put_conn i d h)"
    by (rule channel_put [OF ch current(1)])
  have "channel j p (pump i (put_conn i d h))"
    using current(4)
    by (intro pump_channel [OF m, where c = d])
      (auto simp: d_def can_send_def live_def base_def stream_ok_def ended_def)
  then have "channel j p (run_timer i k fit (put_conn i d h))" for k
    using m by (cases k) (simp_all add: run_timer_def send_resize_channel fit_and_resize_channel)
  then show ?thesis
    using current(1) m ch by (simp add: timer_fires_def Let_def d_def split: option.split)
qed (simp_all add: timer_fires_def dead_def ch)

lemma first_frame_channel: "channel j p h \<Longrightarrow> channel j p (first_frame i fit h)"
  by (auto simp: first_frame_def Let_def intro!: do_fit_channel channel_put elim: carries_same
      split: option.split)

lemma channel_conns: "conns h' = conns h \<Longrightarrow> channel j p h' = channel j p h"
  by (simp add: channel_def)

lemma change_props_channel: "channel j p h \<Longrightarrow> channel j p (change_props fs th a h)"
proof -
  assume "channel j p h"
  then have "channel j p (h\<lparr>font_size := fs, theme_prop := th, is_active := a, layout_frame := True\<rparr>)"
    by (simp add: channel_def)
  then show ?thesis
    by (auto simp: change_props_def Let_def intro!: channel_put elim: carries_same split: option.split)
qed

lemma cleanup_channel: "channel j p h \<Longrightarrow> channel j p (cleanup h)"
  by (auto simp: cleanup_def channel_def released_def intro: carries_ended split: option.splits)

lemma connect_channel: "hook_inv h \<Longrightarrow> channel j p h \<Longrightarrow> channel j p (connect loc store h)"
proof -
  assume h: "hook_inv h" and "channel j p h"
  then have ch: "channel j p (cleanup h)" and inv: "hook_inv (cleanup h)"
    using cleanup_channel cleanup_inv by blast+
  let ?i = "Suc (generation (cleanup h))"
  have "conns (cleanup h) ?i = None"
    using hook_inv_conns_le [OF inv] by fastforce
  then have "j = ?i \<Longrightarrow> p = []"
    using ch by (auto simp: channel_def)
  moreover have "carries [] (new_connection g u)" for g u
    by (simp add: carries_def flow_def delivered_def pending_def ended_def new_connection_def ws_open_def)
  ultimately show ?thesis
    using ch by (auto simp: connect_def Let_def channel_def split: option.splits)
qed

section \<open>The run of a hook\<close>

definition accepted :: "nat \<Rightarrow> terminal_hook \<Rightarrow> terminal_event \<Rightarrow> bytes" where
  "accepted j h e =
     (case e of
        Send_Shortcut data \<Rightarrow> takes j h data
      | Term_Data i data \<Rightarrow> if generation h = i then takes j h data else []
      | _ \<Rightarrow> [])"

fun typed :: "nat \<Rightarrow> terminal_hook \<Rightarrow> terminal_event list \<Rightarrow> bytes" where
  "typed j h [] = []"
| "typed j h (e # es) = accepted j h e @ typed j (terminal_step h e) es"

lemma channel_layout:
  "channel j p (h\<lparr>has_container := a, client_width := b, client_height := c\<rparr>) = channel j p h"
  by (simp add: channel_def)

lemma terminal_step_channel:
  "hook_inv h \<Longrightarrow> channel j p h \<Longrightarrow> channel j (p @ accepted j h e) (terminal_step h e)"
  using cleanup_inv [of h]
  by (cases e)
    (auto simp: accepted_def channel_layout send_current_channel connect_channel cleanup_channel
      change_props_channel do_fit_channel resize_terminal_channel fit_and_resize_channel
      first_frame_channel timer_fires_channel on_message_channel fail_channel with_sock_channel)

lemma run_channel:
  "hook_inv h \<Longrightarrow> channel j p h \<Longrightarrow> channel j (p @ typed j h es) (run terminal_step h es)"
proof (induction es arbitrary: h p)
  case (Cons e es)
  show ?case
    using Cons.IH [OF terminal_step_inv [OF Cons.prems(1)] terminal_step_channel [OF Cons.prems]]
    by simp
qed simp


end
