(* ===== verification/Terminal_Status.thy ===== *)
theory Terminal_Status
  imports Terminal_Flow
begin

text \<open>
  What the user is told and when: the status and the error text of the terminal, the confirmation
  that has to precede any input, and callbacks of connections that are no longer current.
\<close>

section \<open>Quiet operations\<close>

text \<open>Nothing of the current connection can send, receive or fail.\<close>

definition down :: "terminal_hook \<Rightarrow> bool" where
  "down h \<longleftrightarrow> (\<forall>c. conns h (generation h) = Some c \<longrightarrow> failed c \<and> \<not> connected c)"

definition error_inv :: "terminal_hook \<Rightarrow> bool" where
  "error_inv h \<longleftrightarrow> (status h = Status_Error \<longrightarrow> down h)"

text \<open>Connection \<open>j\<close> has not been confirmed and nothing was handed to its socket.\<close>

definition silent :: "nat \<Rightarrow> terminal_hook \<Rightarrow> bool" where
  "silent j h \<longleftrightarrow> (\<forall>c. conns h j = Some c \<longrightarrow> \<not> connected c \<and> sent (sock c) = [] \<and> queue c = [])"

text \<open>What every operation but the confirmation of a connection keeps.\<close>

definition settles :: "terminal_hook \<Rightarrow> terminal_hook \<Rightarrow> bool" where
  "settles h h' \<longleftrightarrow>
     generation h' = generation h \<and>
     (down h \<longrightarrow> down h' \<and> status h' = status h \<and> error_msg h' = error_msg h) \<and>
     (error_inv h \<longrightarrow> error_inv h') \<and>
     (status h' = Status_Connected \<longrightarrow> status h = Status_Connected) \<and>
     (\<forall>j. silent j h \<longrightarrow> silent j h')"

lemma settles_refl [simp]: "settles h h"
  by (simp add: settles_def)

lemma settles_trans: "settles h h' \<Longrightarrow> settles h' h'' \<Longrightarrow> settles h h''"
  unfolding settles_def by metis

lemma settles_put:
  "conns h i = Some c \<Longrightarrow> connected c' = connected c \<Longrightarrow> failed c' = failed c \<Longrightarrow>
   (\<not> connected c \<Longrightarrow> sent (sock c') = sent (sock c) \<and> (queue c = [] \<longrightarrow> queue c' = [])) \<Longrightarrow>
   settles h (put_conn i c' h)"
  by (auto simp: settles_def error_inv_def down_def silent_def)

lemma settles_put_trans:
  "settles (put_conn i c' h) h' \<Longrightarrow> conns h i = Some c \<Longrightarrow> connected c' = connected c \<Longrightarrow>
   failed c' = failed c \<Longrightarrow>
   (\<not> connected c \<Longrightarrow> sent (sock c') = sent (sock c) \<and> (queue c = [] \<longrightarrow> queue c' = [])) \<Longrightarrow>
   settles h h'"
  using settles_put settles_trans by blast

lemma settles_fields:
  "conns h' = conns h \<Longrightarrow> generation h' = generation h \<Longrightarrow> status h' = status h \<Longrightarrow>
   error_msg h' = error_msg h \<Longrightarrow> settles h h'"
  by (simp add: settles_def error_inv_def down_def silent_def)

lemma fail_settles: "settles h (fail i m h)"
  by (auto simp: fail_def settles_def error_inv_def down_def silent_def split: option.split)

lemma pump_settles: "settles h (pump i h)"
proof (cases "conns h i")
  case (Some c)
  let ?c = "c\<lparr>pump_timer := None\<rparr>"
  obtain k w raised where l: "pump_loop (queue ?c) (queue_index ?c) (sock ?c) = (k, w, raised)"
    by (cases "pump_loop (queue ?c) (queue_index ?c) (sock ?c)")
  have p: "settles h (put_conn i d h)"
    if "connected c" "connected d = connected c" "failed d = failed c" for d
    using that Some by (intro settles_put) auto
  have f: "settles h (fail i m (put_conn i d h))"
    if "connected c" "connected d = connected c" "failed d = failed c" for d m
    using settles_trans [OF p [OF that] fail_settles] .
  show ?thesis
  proof (cases "can_send i h ?c")
    case True
    then have "connected c"
      by (simp add: can_send_def)
    note p [OF this] f [OF this]
    then show ?thesis
      using True Some l by (simp add: pump_def Let_def later_def)
  next
    case False
    then show ?thesis
      using Some by (auto simp: pump_def intro!: settles_put)
  qed
qed (simp add: pump_def)

lemma send_input_settles: "settles h (send_input i data h)"
proof (cases "conns h i")
  case (Some c)
  let ?c = "c\<lparr>queue := queue c @ input_frames data\<rparr>"
  have "settles h (put_conn i ?c h)" if "connected c"
    using that Some by (intro settles_put) auto
  then show ?thesis
    using Some settles_trans [OF _ pump_settles]
    by (auto simp: send_input_def Let_def can_send_def)
qed (simp add: send_input_def)

lemma send_current_settles: "settles h (send_current data h)"
  by (simp add: send_current_def send_input_settles split: option.split)

lemma send_resize_settles: "settles h (send_resize i h)"
  by (auto simp: send_resize_def can_send_def intro!: settles_put fail_settles split: option.split)

lemma on_term_resize_settles: "settles h (on_term_resize i h)"
  by (auto simp: on_term_resize_def later_def Let_def intro!: settles_put split: option.split)

lemma resize_terminal_settles: "settles h (resize_terminal i d h)"
  by (auto simp: resize_terminal_def
      intro!: settles_put_trans [OF on_term_resize_settles] split: option.split)

lemma do_fit_settles: "settles h (do_fit fit h)"
  by (auto simp: do_fit_def intro: resize_terminal_settles split: option.split)

lemma fit_and_resize_settles: "settles h (fit_and_resize i fit h)"
  unfolding fit_and_resize_def by (rule settles_trans [OF do_fit_settles send_resize_settles])

lemma write_term_settles: "settles h (write_term i p h)"
  by (auto simp: write_term_def intro!: settles_put split: option.split)

lemma arm_fit_settles: "settles h (arm_fit i h)"
  by (auto simp: arm_fit_def later_def Let_def intro!: settles_put split: option.split)

lemma run_timer_settles: "settles h (run_timer i k fit h)"
  by (cases k) (simp_all add: run_timer_def pump_settles send_resize_settles fit_and_resize_settles)

lemma timer_fires_settles: "settles h (timer_fires i t fit h)"
  by (auto simp: timer_fires_def Let_def
      intro!: settles_put_trans [OF run_timer_settles] settles_put split: option.split)

lemma first_frame_settles: "settles h (first_frame i fit h)"
  by (auto simp: first_frame_def Let_def
      intro!: settles_put_trans [OF do_fit_settles] settles_put split: option.split)

lemma with_sock_settles: "(\<And>w. sent (f w) = sent w) \<Longrightarrow> settles h (with_sock i f h)"
  by (auto simp: with_sock_def intro!: settles_put split: option.split)

lemma change_props_settles: "settles h (change_props fs th a h)"
proof -
  let ?h = "h\<lparr>font_size := fs, theme_prop := th, is_active := a, layout_frame := True\<rparr>"
  have "settles ?h (change_props fs th a h)"
    by (auto simp: change_props_def Let_def intro!: settles_put split: option.split)
  then show ?thesis
    by (rule settles_trans [OF settles_fields, rotated -1]) simp_all
qed

section \<open>The confirmation\<close>

definition confirms :: "nat \<Rightarrow> terminal_event \<Rightarrow> bool" where
  "confirms i e \<longleftrightarrow>
     (case e of Message j (Binary_Data (t # _)) _ \<Rightarrow> j = i \<and> t = 0x04 | _ \<Rightarrow> False)"

definition stays :: "terminal_event \<Rightarrow> bool" where
  "stays e \<longleftrightarrow>
     (case e of Connect _ _ \<Rightarrow> False | Unmount \<Rightarrow> False | Change_Server _ _ _ \<Rightarrow> False | _ \<Rightarrow> True)"

lemma confirms_message: "confirms i e \<Longrightarrow> \<exists>p fit. e = Message i (Binary_Data (4 # p)) fit"
  by (auto simp: confirms_def split: terminal_event.splits ws_data.splits list.splits)

lemma on_message_settles:
  "\<not> confirms i (Message i data fit) \<Longrightarrow> settles h (on_message i data fit h)"
  by (auto simp: on_message_def confirms_def intro: fail_settles write_term_settles
      split: option.split ws_data.split list.split)

text \<open>A confirmation reaches only its own connection, and never one that has failed.\<close>

lemma on_message_confirmation:
  assumes "confirms i (Message i data fit)"
  shows "down h \<Longrightarrow> on_message i data fit h = h"
    and "generation h \<noteq> i \<Longrightarrow> on_message i data fit h = h"
    and "error_inv h \<longrightarrow> error_inv (on_message i data fit h)"
    and "j \<noteq> i \<Longrightarrow> silent j h \<longrightarrow> silent j (on_message i data fit h)"
proof -
  let ?g = "arm_fit i (arm_fit i (fit_and_resize i fit (set_connected i h)))"
  have s: "settles (set_connected i h) ?g"
    by (rule settles_trans [OF settles_trans [OF fit_and_resize_settles arm_fit_settles] arm_fit_settles])
  obtain p where d: "data = Binary_Data (4 # p)"
    using assms by (auto simp: confirms_def split: ws_data.splits list.splits)
  have m: "on_message i data fit h = (case conns h i of None \<Rightarrow> h
      | Some c \<Rightarrow> if generation h \<noteq> i \<or> failed c then h else ?g)"
    by (simp add: on_message_def d split: option.split)
  show "down h \<Longrightarrow> on_message i data fit h = h"
    by (auto simp: m down_def split: option.split)
  show "generation h \<noteq> i \<Longrightarrow> on_message i data fit h = h"
    by (simp add: m split: option.split)
  have "error_inv (set_connected i h)" if "conns h i = Some c" for c
    using that by (simp add: set_connected_def error_inv_def)
  then have "conns h i = Some c \<Longrightarrow> error_inv ?g" for c
    using s by (simp add: settles_def)
  then show "error_inv h \<longrightarrow> error_inv (on_message i data fit h)"
    by (simp add: m split: option.split)
  have "silent j h \<longrightarrow> silent j (set_connected i h)" if "j \<noteq> i"
    using that by (simp add: set_connected_def silent_def split: option.split)
  then show "j \<noteq> i \<Longrightarrow> silent j h \<longrightarrow> silent j (on_message i data fit h)"
    using s by (simp add: m settles_def split: option.split)
qed

lemma stays_step_settles:
  "stays e \<Longrightarrow> (\<And>i. \<not> confirms i e) \<Longrightarrow> settles h (terminal_step h e)"
proof (cases e)
  case (Message i data fit)
  assume "\<And>i. \<not> confirms i e"
  then show ?thesis
    using Message on_message_settles by simp
next
  case (Layout_Frame fit)
  have "settles h (do_fit fit (h\<lparr>layout_frame := False\<rparr>))"
    by (rule settles_trans [OF settles_fields do_fit_settles]) simp_all
  then show ?thesis
    using Layout_Frame by simp
next
  case (Env_Layout a b c)
  then show ?thesis
    by (auto intro: settles_fields)
qed (auto simp: stays_def send_current_settles change_props_settles do_fit_settles
    resize_terminal_settles fit_and_resize_settles first_frame_settles timer_fires_settles
    fail_settles intro: with_sock_settles settles_trans [OF with_sock_settles fail_settles])

lemma cleanup_down: "hook_inv h \<Longrightarrow> error_inv h \<Longrightarrow> error_inv (cleanup h)"
proof (cases "cleanup_ref h")
  case (Some i)
  assume h: "hook_inv h"
  then have "conns h (Suc (generation h)) = None"
    using hook_inv_conns_le by fastforce
  then have "conns (cleanup h) (generation (cleanup h)) = None"
    using Some hook_inv_refs [OF h Some] by (simp add: cleanup_def)
  then show ?thesis
    by (simp add: error_inv_def down_def)
qed (simp add: cleanup_def)

lemma connect_error_inv: "hook_inv h \<Longrightarrow> error_inv (connect loc store h)"
proof -
  assume "hook_inv h"
  then have "hook_inv (cleanup h)"
    using cleanup_inv by blast
  then have "conns (cleanup h) (Suc (generation (cleanup h))) = None"
    using hook_inv_conns_le by fastforce
  then show ?thesis
    by (simp add: connect_def Let_def error_inv_def down_def split: option.split)
qed


lemma error_inv_server [simp]: "error_inv (h\<lparr>server_id := sid\<rparr>) = error_inv h"
  by (simp add: error_inv_def down_def)

lemma terminal_step_error_inv:
  "hook_inv h \<Longrightarrow> error_inv h \<Longrightarrow> error_inv (terminal_step h e)"
proof (cases "\<exists>i. confirms i e")
  case True
  assume "error_inv h"
  moreover obtain i data fit where "e = Message i data fit" "confirms i e"
    using True by (blast dest: confirms_message)
  ultimately show ?thesis
    using on_message_confirmation(3) by simp
next
  case no: False
  assume h: "hook_inv h" "error_inv h"
  show ?thesis
  proof (cases "stays e")
    case True
    then have "settles h (terminal_step h e)"
      using stays_step_settles [OF True] no by blast
    then show ?thesis
      using h by (simp add: settles_def)
  next
    case False
    have "hook_inv ((cleanup h)\<lparr>server_id := sid\<rparr>)" for sid
      using cleanup_inv [OF h(1)] by simp
    then show ?thesis
      using False h by (cases e) (simp_all add: stays_def connect_error_inv cleanup_down)
  qed
qed

interpretation told: machine terminal_step "\<lambda>h. hook_inv h \<and> error_inv h"
  by unfold_locales (simp add: terminal_step_inv terminal_step_error_inv)

lemma reachable_ok:
  "hook_inv (run terminal_step (init_hook sid fs th a) es)
   \<and> error_inv (run terminal_step (init_hook sid fs th a) es)"
  by (rule told.run_inv) (simp add: init_hook_inv, simp add: init_hook_def error_inv_def)

lemma down_stays:
  assumes "down h" "stays e"
  shows "down (terminal_step h e) \<and> status (terminal_step h e) = status h
    \<and> error_msg (terminal_step h e) = error_msg h"
proof (cases "\<exists>i. confirms i e")
  case True
  then obtain i data fit where "e = Message i data fit" "confirms i e"
    by (blast dest: confirms_message)
  then show ?thesis
    using on_message_confirmation(1) assms(1) by simp
next
  case False
  then have "settles h (terminal_step h e)"
    using stays_step_settles [OF assms(2)] by blast
  then show ?thesis
    using assms(1) by (simp add: settles_def)
qed

lemma down_run:
  "down h \<Longrightarrow> list_all stays es \<Longrightarrow>
   status (run terminal_step h es) = status h \<and> error_msg (run terminal_step h es) = error_msg h"
proof (induction es arbitrary: h)
  case (Cons e es)
  then show ?case
    using down_stays [of h e] by simp
qed simp

lemma silent_fields [simp]:
  "silent j (h\<lparr>server_id := sid\<rparr>) = silent j h" "silent j (h\<lparr>layout_frame := b\<rparr>) = silent j h"
  by (simp_all add: silent_def)

lemma silent_step: "\<not> confirms j e \<Longrightarrow> silent j h \<Longrightarrow> silent j (terminal_step h e)"
proof -
  assume e: "\<not> confirms j e" and s: "silent j h"
  have cl: "silent j (cleanup g)" if "silent j g" for g
    using that by (auto simp: cleanup_def silent_def released_def split: option.splits)
  have co: "silent j (connect loc store g)" if "silent j g" for loc store g
    using cl [OF that]
    by (auto simp: connect_def Let_def silent_def new_connection_def ws_open_def split: option.split)
  show ?thesis
  proof (cases "stays e")
    case True
    show ?thesis
    proof (cases "\<exists>i. confirms i e")
      case True
      then obtain i data fit where m: "e = Message i data fit" "confirms i e"
        by (blast dest: confirms_message)
      then show ?thesis
        using on_message_confirmation(4) [of i data fit j h] e s by (cases "j = i") auto
    next
      case False
      then have "settles h (terminal_step h e)"
        using stays_step_settles [OF True] by blast
      then show ?thesis
        using s by (simp add: settles_def)
    qed
  next
    case False
    then show ?thesis
      using cl co s by (cases e) (simp_all add: stays_def)
  qed
qed

lemma silent_run:
  "list_all (\<lambda>e. \<not> confirms j e) es \<Longrightarrow> silent j h \<Longrightarrow> silent j (run terminal_step h es)"
  by (induction es arbitrary: h) (simp_all add: silent_step)

lemma status_connected_step:
  assumes "status h \<noteq> Status_Connected" "status (terminal_step h e) = Status_Connected"
  shows "confirms (generation h) e"
proof (rule ccontr)
  assume n: "\<not> confirms (generation h) e"
  show False
  proof (cases "stays e")
    case True
    show False
    proof (cases "\<exists>i. confirms i e")
      case True
      then obtain i data fit where "e = Message i data fit" "confirms i e"
        by (blast dest: confirms_message)
      then show False
        using on_message_confirmation(2) [of i data fit h] n assms by (cases "generation h = i") auto
    next
      case False
      then have "settles h (terminal_step h e)"
        using stays_step_settles [OF True] by blast
      then show False
        using assms by (simp add: settles_def)
    qed
  next
    case False
    have "status (cleanup h) = status h"
      by (simp add: cleanup_def split: option.split)
    moreover have "status (connect loc store g) \<noteq> Status_Connected" for loc store g
      by (simp add: connect_def Let_def split: option.split)
    ultimately show False
      using False assms by (cases e) (simp_all add: stays_def)
  qed
qed


end
