(* ===== verification/Terminal_Drain.thy ===== *)
theory Terminal_Drain
  imports Terminal_Flow
begin

text \<open>
  Backpressure: how far one run of the pump lets the socket's buffer grow, how many frames it sends
  into an empty buffer, and that repeated drain and timer rounds empty the queue.
\<close>

section \<open>One run of the pump\<close>

lemma pump_loop_bound:
  assumes "pump_loop q i w = (j, w', raised)" "ready_state w = Ws_Open" "\<forall>f \<in> set q. stdin_frame f"
  shows "buffered w' \<le> max (buffered w) (buffer_limit + input_chunk_bytes) \<and>
    buffered w' \<le> buffered w + (j - i) * (input_chunk_bytes + 1) \<and> faulty w' = faulty w"
  using assms
proof (induction q i w rule: pump_loop.induct)
  case (1 q i w)
  show ?case
  proof (cases "i < length q \<and> buffered w < buffer_limit")
    case False
    then have "(i, w, False) = (j, w', raised)"
      using "1.prems"(1) pump_loop_stop by metis
    then show ?thesis by auto
  next
    case True
    show ?thesis
    proof (cases "ws_send w (q ! i)")
      case None
      then have "(Suc i, w, True) = (j, w', raised)"
        using "1.prems"(1) True pump_loop_raise by metis
      then show ?thesis by auto
    next
      case (Some v)
      have l: "pump_loop q (Suc i) v = (j, w', raised)"
        using "1.prems"(1) True Some pump_loop_send by simp
      have o: "ready_state v = Ws_Open"
        using ws_send_frame [OF Some] "1.prems"(2) by simp
      have b: "buffered v = buffered w + length (q ! i)" "length (q ! i) \<le> input_chunk_bytes + 1"
        using ws.send_amount [OF "1.prems"(2) Some] "1.prems"(3) True by (auto simp: stdin_frame_def)
      have k: "Suc i \<le> j"
        using pump_loop_spec [OF l] True o by linarith
      note ih = "1.IH" [OF True Some l o "1.prems"(3)]
      have "buffered v \<le> buffer_limit + input_chunk_bytes"
        using b True by linarith
      then have "buffered w' \<le> max (buffered w) (buffer_limit + input_chunk_bytes)"
        using ih by linarith
      moreover have "j - i = Suc (j - Suc i)"
        using k by linarith
      then have "(j - i) * (input_chunk_bytes + 1) =
          (j - Suc i) * (input_chunk_bytes + 1) + (input_chunk_bytes + 1)"
        by (simp only: mult_Suc add.commute)
      then have "buffered w' \<le> buffered w + (j - i) * (input_chunk_bytes + 1)"
        using ih b by linarith
      ultimately show ?thesis
        using ih ws_send_frame [OF Some] by simp
    qed
  qed
qed

text \<open>Sixteen frames fit into an empty buffer, so a run of the pump sends at least that many.\<close>

lemma pump_loop_sixteen:
  assumes l: "pump_loop q i w = (j, w', raised)" "ready_state w = Ws_Open" "\<forall>f \<in> set q. stdin_frame f"
    and "i \<le> length q" "buffered w = 0" "\<not> faulty w"
  shows "\<not> raised" "length q - j \<le> length q - i - 16"
proof -
  note spec = pump_loop_spec [OF l(1) assms(4) l(2)]
  show r: "\<not> raised"
    using spec assms(6) by blast
  show "length q - j \<le> length q - i - 16"
  proof (cases "j = length q")
    case False
    then have "buffer_limit \<le> (j - i) * (input_chunk_bytes + 1)"
      using spec r pump_loop_bound [OF l] assms(5) by linarith
    then have "262144 \<le> (j - i) * 16385"
      by (simp add: buffer_limit_def input_chunk_bytes_def)
    then have "16 \<le> j - i"
      by linarith
    then show ?thesis
      using spec by linarith
  qed simp
qed

section \<open>Rounds\<close>

text \<open>
  One round of a connection that the network serves: the browser flushes the socket's buffer and the
  pump timer, if there is one, comes due.
\<close>

definition drain_round :: "nat \<Rightarrow> terminal_hook \<Rightarrow> terminal_hook" where
  "drain_round i h =
     (case conns h i of
        None \<Rightarrow> h
      | Some c \<Rightarrow>
          (case pump_timer c of
             None \<Rightarrow> h
           | Some t \<Rightarrow> run terminal_step h [Env_Drain i (buffered (sock c)), Timer_Fires i t None]))"

definition flowing :: "nat \<Rightarrow> bytes \<Rightarrow> nat \<Rightarrow> terminal_hook \<Rightarrow> bool" where
  "flowing i p n h \<longleftrightarrow>
     hook_inv h \<and> generation h = i \<and> channel i p h \<and>
     (\<exists>c. conns h i = Some c \<and> connected c \<and> ready_state (sock c) = Ws_Open \<and> \<not> faulty (sock c) \<and>
          length (pending c) \<le> n)"

lemma armed_pump:
  assumes "timers_ok c" "pump_timer c = Some t"
  shows "map_of (armed c) t = Some Pump_Timer"
proof -
  have "(t, Pump_Timer) \<in> set (armed c)" "distinct (map fst (armed c))"
    using assms by (auto simp: timers_ok_def)
  then show ?thesis
    by simp
qed

lemma drain_round_conn:
  assumes c: "conns h i = Some c" "generation h = i" "live c" "pump_timer c = Some t"
    and s: "connected c" "ready_state (sock c) = Ws_Open" "\<not> faulty (sock c)"
  shows "\<exists>d. conns (drain_round i h) i = Some d \<and> connected d \<and> ready_state (sock d) = Ws_Open
    \<and> \<not> faulty (sock d) \<and> length (pending d) \<le> length (pending c) - 16"
proof -
  define v where "v = (sock c)\<lparr>buffered := 0\<rparr>"
  define a where "a = c\<lparr>sock := v, armed := drop_timer t (armed c),
      timers := drop_timer t (timers c), pump_timer := None\<rparr>"
  have st: "queue_index c \<le> length (queue c)" "\<forall>f \<in> set (queue c). stdin_frame f" "timers_ok c"
    using c(3) by (auto simp: live_def base_def stream_ok_def)
  obtain k w raised where l: "pump_loop (queue c) (queue_index c) v = (k, w, raised)"
    by (cases "pump_loop (queue c) (queue_index c) v")
  have v: "ready_state v = Ws_Open" "buffered v = 0" "\<not> faulty v"
    using s by (simp_all add: v_def)
  note sixteen = pump_loop_sixteen [OF l v(1) st(2,1) v(2,3)]
  have w: "ready_state w = Ws_Open" "faulty w = faulty v"
    using pump_loop_spec [OF l st(1) v(1)] pump_loop_bound [OF l v(1) st(2)] by simp_all
  have "drain_round i h = pump i (put_conn i (c\<lparr>sock := v, armed := drop_timer t (armed c),
      timers := drop_timer t (timers c)\<rparr>) h)"
    using c armed_pump [OF st(3) c(4)]
    by (simp add: drain_round_def with_sock_def timer_fires_def run_timer_def v_def)
  then have r: "drain_round i h =
      (if k < length (queue c)
       then (case later Pump_Timer (a\<lparr>queue_index := k, sock := w\<rparr>) of
           (u, d) \<Rightarrow> put_conn i (d\<lparr>pump_timer := Some u\<rparr>) h)
       else put_conn i (a\<lparr>queue_index := k, sock := w, queue := [], queue_index := 0\<rparr>) h)"
    using c s l v sixteen(1)
    by (auto simp: pump_def can_send_def a_def Let_def split: prod.split)
  show ?thesis
  proof (cases "k < length (queue c)")
    case True
    obtain u d where d: "later Pump_Timer (a\<lparr>queue_index := k, sock := w\<rparr>) = (u, d)"
      by (cases "later Pump_Timer (a\<lparr>queue_index := k, sock := w\<rparr>)")
    then show ?thesis
      using r True later_frame [OF d] s w v sixteen(2) by (simp add: pending_def a_def)
  next
    case False
    then show ?thesis
      using r s w v by (simp add: pending_def a_def)
  qed
qed

lemma drain_round_run:
  obtains es where "drain_round i h = run terminal_step h es" "typed i h es = []"
proof (cases "\<exists>c t. conns h i = Some c \<and> pump_timer c = Some t")
  case True
  then obtain c t where c: "conns h i = Some c" "pump_timer c = Some t"
    by blast
  show ?thesis
    by (rule that [of "[Env_Drain i (buffered (sock c)), Timer_Fires i t None]"])
      (use c in \<open>simp_all add: drain_round_def accepted_def\<close>)
next
  case False
  then show ?thesis
    using that [of "[]"] by (auto simp: drain_round_def split: option.split)
qed

lemma drain_round_flowing:
  assumes "flowing i p n h"
  shows "flowing i p (n - 16) (drain_round i h)"
proof -
  have inv: "hook_inv h" "generation h = i" "channel i p h"
    using assms by (auto simp: flowing_def)
  obtain c where c: "conns h i = Some c" and s: "connected c" "ready_state (sock c) = Ws_Open"
    "\<not> faulty (sock c)" "length (pending c) \<le> n"
    using assms by (auto simp: flowing_def)
  have lv: "live c"
    using hook_inv_live [OF inv(1) c inv(2)] by blast
  obtain es where es: "drain_round i h = run terminal_step h es" "typed i h es = []"
    by (rule drain_round_run)
  have k: "hook_inv (drain_round i h)" "channel i p (drain_round i h)"
    using terminal.run_inv [OF inv(1)] run_channel [OF inv(1,3), of es] es by simp_all
  have g: "generation (drain_round i h) = i"
    using inv(2) by (simp add: drain_round_def split: option.split)
  show ?thesis
  proof (cases "pump_timer c")
    case None
    then have "pending c = []"
      using lv s(2) by (auto simp: live_def)
    then show ?thesis
      using None k g c s by (auto simp: flowing_def drain_round_def)
  next
    case (Some t)
    show ?thesis
      using drain_round_conn [OF c inv(2) lv Some s(1-3)] k g s(4) by (auto simp: flowing_def)
  qed
qed

lemma drain_rounds_flowing: "flowing i p n h \<Longrightarrow> flowing i p (n - 16 * k) ((drain_round i ^^ k) h)"
proof (induction k)
  case (Suc k)
  then show ?case
    using drain_round_flowing [of i p "n - 16 * k" "(drain_round i ^^ k) h"]
    by (simp add: diff_diff_left add.commute)
qed simp

lemma flowing_drained:
  assumes "flowing i p 0 h"
  shows "\<exists>c. conns h i = Some c \<and> pending c = [] \<and> stdin_of (sent (sock c)) = p \<and> \<not> failed c"
proof -
  obtain c where c: "conns h i = Some c" "pending c = []" and i: "hook_inv h" "generation h = i" "channel i p h"
    using assms by (auto simp: flowing_def)
  have "connected c \<Longrightarrow> \<not> failed c \<and> \<not> disposed (xterm c)"
    using hook_inv_live [OF i(1) c(1) i(2)] by (auto simp: live_def base_def stream_ok_def)
  moreover have "connected c"
    using assms c by (auto simp: flowing_def)
  ultimately show ?thesis
    using c i(3) by (simp add: channel_def carries_def flow_def delivered_def ended_def)
qed


end
