(* ===== verification/Terminal_Properties.thy ===== *)
theory Terminal_Properties
  imports Terminal_Status Terminal_Drain
begin

text \<open>
  The properties of the terminal hook, over every run from its initial state, and sample runs at
  which they are applied.
\<close>

section \<open>Callbacks of old connections\<close>

text \<open>The connection whose callback an event is.\<close>

definition callback_of :: "terminal_event \<Rightarrow> nat option" where
  "callback_of e =
     (case e of
        Term_Data i _ \<Rightarrow> Some i | Term_Resize i _ \<Rightarrow> Some i | Observed i _ \<Rightarrow> Some i
      | First_Frame i _ \<Rightarrow> Some i | Timer_Fires i _ _ \<Rightarrow> Some i | Message i _ _ \<Rightarrow> Some i
      | Socket_Closed i \<Rightarrow> Some i | Socket_Error i \<Rightarrow> Some i | _ \<Rightarrow> None)"

text \<open>What a user could notice of a connection: what it sent and what its terminal shows.\<close>

definition footprint :: "terminal_hook \<Rightarrow> nat \<Rightarrow> (bytes list \<times> bytes list) option" where
  "footprint h i = map_option (\<lambda>c. (sent (sock c), written (xterm c))) (conns h i)"

definition unnoticed :: "nat \<Rightarrow> terminal_hook \<Rightarrow> terminal_hook \<Rightarrow> bool" where
  "unnoticed i h h' \<longleftrightarrow>
     generation h' = generation h \<and> status h' = status h \<and> error_msg h' = error_msg h \<and>
     (\<forall>j. j \<noteq> i \<longrightarrow> conns h' j = conns h j) \<and> footprint h' i = footprint h i"

lemma unnoticed_put:
  "conns h i = Some c \<Longrightarrow> sent (sock c') = sent (sock c) \<Longrightarrow> written (xterm c') = written (xterm c) \<Longrightarrow>
   unnoticed i h (put_conn i c' h)"
  by (simp add: unnoticed_def footprint_def)

lemma unnoticed_refl: "unnoticed i h h"
  by (simp add: unnoticed_def)

lemma stale_callback:
  assumes "callback_of e = Some i" "generation h \<noteq> i"
  shows "unnoticed i h (terminal_step h e)"
  using assms
  by (cases e)
    (auto simp: callback_of_def resize_terminal_def on_term_resize_def first_frame_def
      timer_fires_def on_message_def with_sock_def fail_stale Let_def
      intro: unnoticed_put unnoticed_refl split: option.split)

section \<open>The buffer\<close>

lemma pump_buffer:
  assumes c: "conns h i = Some c" "\<forall>f \<in> set (queue c). stdin_frame f"
    and c': "conns (pump i h) i = Some c'"
  shows "buffered (sock c') \<le> max (buffered (sock c)) (buffer_limit + input_chunk_bytes)"
proof -
  let ?c = "c\<lparr>pump_timer := None\<rparr>"
  obtain k w raised where l: "pump_loop (queue ?c) (queue_index ?c) (sock ?c) = (k, w, raised)"
    by (cases "pump_loop (queue ?c) (queue_index ?c) (sock ?c)")
  show ?thesis
  proof (cases "can_send i h ?c")
    case True
    then have "ready_state (sock ?c) = Ws_Open"
      by (simp add: can_send_def)
    note pump_loop_bound [OF l this]
    then show ?thesis
      using True c c' l
      by (auto simp: pump_def fail_def later_def Let_def split: if_splits)
  next
    case False
    then show ?thesis
      using c c' by (auto simp: pump_def)
  qed
qed

lemma send_input_buffer:
  assumes "hook_inv h" "conns h i = Some c" "conns (send_input i data h) i = Some c'"
  shows "buffered (sock c') \<le> max (buffered (sock c)) (buffer_limit + input_chunk_bytes)"
proof (cases "can_send i h c")
  case True
  let ?c = "c\<lparr>queue := queue c @ input_frames data\<rparr>"
  have "live c"
    using True hook_inv_live [OF assms(1,2)] by (auto simp: can_send_def)
  then have "\<forall>f \<in> set (queue ?c). stdin_frame f"
    using input_frames_shape by (auto simp: live_def base_def stream_ok_def)
  then show ?thesis
    using pump_buffer [of "put_conn i ?c h" i ?c c'] True assms(2,3)
    by (auto simp: send_input_def Let_def split: if_splits)
qed (use assms in \<open>auto simp: send_input_def\<close>)

section \<open>A sample session\<close>

definition sample_start :: terminal_hook where
  "sample_start = init_hook 7 14 [] True"

definition sample_location :: location where
  "sample_location = \<lparr>loc_protocol = js ''https:'', loc_host = js ''h''\<rparr>"

definition sample_connect :: terminal_event where
  "sample_connect = Connect sample_location (set_item token_key (js ''t'') Map.empty)"

definition sample_open :: "terminal_event list" where
  "sample_open = [sample_connect, Env_Open 1, Message 1 (Binary_Data [4]) None]"

definition sample_sock :: socket where
  "sample_sock = \<lparr>ready_state = Ws_Open, buffered = length (resize_frame 80 24),
     sent = [resize_frame 80 24], handlers = True, faulty = False,
     url = js ''wss://h/api/terminal/7?token=t''\<rparr>"

definition sample_conn :: connection where
  "sample_conn = \<lparr>connected = True, failed = False, queue = [], queue_index = 0,
     timers = [(1, Fit_Timer), (Suc 1, Fit_Timer)], armed = [(1, Fit_Timer), (Suc 1, Fit_Timer)],
     next_timer = Suc (Suc 1), pump_timer = None, resize_timer = None, raf_tracked = True, raf_armed = True,
     observing = True,
     sock = sample_sock,
     xterm = \<lparr>cols = 80, rows = 24, written = [], option_font = 14, option_theme = [],
       touch_attached = True, subscribed = True, disposed = False\<rparr>\<rparr>"

lemma sample_url:
  "terminal_url sample_location 7 (js ''t'') = Some (js ''wss://h/api/terminal/7?token=t'')"
  by code_simp

lemma sample_token: "or_else (get_item (set_item token_key (js ''t'') Map.empty) token_key) [] = js ''t''"
  by (simp add: or_else_def truthy_def js_def)

lemmas sample_evaluation =
  init_hook_def cleanup_def sample_url sample_token with_sock_def new_connection_def ws_open_def
  new_terminal_def put_conn_def on_message_def set_connected_def fit_and_resize_def do_fit_def
  send_resize_def can_send_def ws_send_def arm_fit_def later_def connect_def Let_def

lemma sample_run:
  "run terminal_step sample_start sample_open =
     sample_start\<lparr>generation := 1, conns := [1 \<mapsto> sample_conn], term_ref := Some 1, ws_ref := Some 1,
       fit_ref := Some 1, send_ref := Some 1, cleanup_ref := Some 1, status := Status_Connected\<rparr>"
  by (simp add: sample_start_def sample_open_def sample_connect_def sample_conn_def sample_sock_def sample_evaluation)

lemma sample_facts:
  "conns (run terminal_step sample_start sample_open) 1 = Some sample_conn"
  "generation (run terminal_step sample_start sample_open) = 1"
  "cleanup_ref (run terminal_step sample_start sample_open) = Some 1"
  "status (run terminal_step sample_start sample_open) = Status_Connected"
  by (simp_all add: sample_run)

text \<open>A command typed into the open session goes out at once, in one frame.\<close>

lemma sample_frames: "input_frames (js ''ls'') = [[0, 0x6C, 0x73]]"
  by code_simp

lemma sample_text: "text_encode (js ''ls'') = [0x6C, 0x73]"
  by code_simp

lemma sample_size: "length (resize_frame 80 24) = 22"
  by code_simp

definition sample_ls :: "terminal_event list" where
  "sample_ls = sample_open @ [Term_Data 1 (js ''ls'')]"

definition sample_sent :: socket where
  "sample_sent = sample_sock\<lparr>buffered := 25, sent := [resize_frame 80 24, [0, 0x6C, 0x73]]\<rparr>"

lemma sample_pump:
  "pump_loop [[0, 0x6C, 0x73]] 0 sample_sock = (1, sample_sent, False)"
  by (simp add: pump_loop.simps sample_sock_def sample_sent_def ws_send_def buffer_limit_def sample_size)

lemma sample_ready: "ready_state sample_sock = Ws_Open" "faulty sample_sock = False"
  by (simp_all add: sample_sock_def)

lemma sample_ls_run:
  "run terminal_step sample_start sample_ls =
     (run terminal_step sample_start sample_open)\<lparr>conns := [1 \<mapsto> sample_conn\<lparr>sock := sample_sent\<rparr>]\<rparr>"
  using sample_pump
  by (simp add: sample_ls_def run_append sample_run send_current_def send_input_def pump_def
      can_send_def sample_frames put_conn_def sample_conn_def sample_ready Let_def)

section \<open>Properties\<close>



text \<open>
  Claim C7. At most one connection of a hook is live: every connection other than the one
  \<open>cleanupRef\<close> points at, which is the current generation's, holds no timer, animation frame,
  observer, subscription or touch listener, its socket is closing or closed with its handlers gone, and
  its terminal is disposed. Unmounting leaves no live connection at all.
\<close>

theorem only_the_current_connection_lives:
  assumes "h = run terminal_step (init_hook sid fs th a) es" and "conns h i = Some c"
  shows "(if cleanup_ref h = Some i then i = generation h
          else armed c = [] \<and> \<not> raf_armed c \<and> \<not> observing c \<and> \<not> handlers (sock c)
            \<and> ready_state (sock c) \<noteq> Ws_Connecting \<and> ready_state (sock c) \<noteq> Ws_Open \<and> queue c = []
            \<and> disposed (xterm c) \<and> \<not> subscribed (xterm c) \<and> \<not> touch_attached (xterm c))
    \<and> cleanup_ref (terminal_step h Unmount) = None"
proof -
  have h: "hook_inv h"
    using assms(1) reachable_ok by simp
  then have "conn_inv h i c"
    using assms(2) by (simp add: hook_inv_def)
  moreover have "cleanup_ref h = Some i \<longrightarrow> i = generation h"
    using hook_inv_refs [OF h] by blast
  moreover have "cleanup_ref (terminal_step h Unmount) = None"
    using cleanup_inv [OF h] by simp
  ultimately show ?thesis
    by (auto simp: conn_inv_def dead_def)
qed

theorem only_the_current_connection_lives_witness:
  "cleanup_ref (terminal_step (run terminal_step sample_start sample_open) Unmount) = None"
  using only_the_current_connection_lives
    [of "run terminal_step sample_start sample_open" 7 14 "[]" True sample_open 1 sample_conn]
    sample_facts(1) by (simp add: sample_start_def)

text \<open>
  Claim C21. Once a connection has been replaced, by a retry, another server or an unmount, no callback
  of it that still arrives, at any later time, changes the status, the error text, any other
  connection, or what the old one sent or wrote to its terminal.
\<close>

theorem late_callbacks_change_nothing:
  assumes "reconnects h e" and "callback_of late = Some (generation h)"
    and "h' = run terminal_step (terminal_step h e) es"
  shows "status (terminal_step h' late) = status h'
    \<and> error_msg (terminal_step h' late) = error_msg h'
    \<and> (\<forall>j. j = generation h \<or> conns (terminal_step h' late) j = conns h' j)
    \<and> map_option (\<lambda>c. (sent (sock c), written (xterm c))) (conns (terminal_step h' late) (generation h))
      = map_option (\<lambda>c. (sent (sock c), written (xterm c))) (conns h' (generation h))"
proof -
  have "generation h' \<noteq> generation h"
    using terminal_gen.superseded [OF assms(1)] assms(3) by simp
  from stale_callback [OF assms(2) this] show ?thesis
    by (auto simp: unnoticed_def footprint_def)
qed

theorem late_callbacks_change_nothing_witness:
  "let h' = terminal_step (run terminal_step sample_start sample_open) sample_connect
   in status (terminal_step h' (Socket_Closed 1)) = status h'"
  using late_callbacks_change_nothing [of "run terminal_step sample_start sample_open"
      sample_connect "Socket_Closed 1" _ "[]"]
  by (simp add: Let_def sample_facts(2) reconnects_def sample_connect_def callback_of_def)


text \<open>
  Claim C34. An error the user has been shown is final: from a reachable state whose status is the
  error state, no event other than a new connection or an unmount, and in particular no later close,
  error or confirmation frame, changes the status or the text.
\<close>

theorem the_first_error_is_final:
  assumes "h = run terminal_step (init_hook sid fs th a) es" and "status h = Status_Error"
    and "list_all stays later_events"
  shows "status (run terminal_step h later_events) = Status_Error
    \<and> error_msg (run terminal_step h later_events) = error_msg h"
proof -
  have "down h"
    using assms(1,2) reachable_ok by (simp add: error_inv_def)
  from down_run [OF this assms(3)] show ?thesis
    using assms(2) by simp
qed

theorem the_first_error_is_final_witness:
  "error_msg (run terminal_step (run terminal_step sample_start [Connect sample_location Map.empty])
      [Message 1 (Binary_Data [4]) None, Socket_Closed 1]) = Plain (JStr msg_no_login)"
  using the_first_error_is_final [of "run terminal_step sample_start [Connect sample_location Map.empty]"
      7 14 "[]" True "[Connect sample_location Map.empty]"
      "[Message 1 (Binary_Data [4]) None, Socket_Closed 1]"]
  by (simp add: sample_start_def init_hook_def connect_def cleanup_def get_item_def or_else_def
      Let_def stays_def del: terminal_step.simps(13,14))

text \<open>
  The status becomes \<open>connected\<close> in one way only: a confirmation frame (type byte 4) of the
  current connection. No event of an old connection and no other frame shows the user a connected
  terminal.
\<close>

lemma connected_only_by_confirmation:
  assumes "status h \<noteq> Status_Connected" and "status (terminal_step h e) = Status_Connected"
  shows "\<exists>payload fit. e = Message (generation h) (Binary_Data (4 # payload)) fit"
  using confirms_message [OF status_connected_step [OF assms]] .

lemma connected_only_by_confirmation_witness:
  "\<exists>payload fit. Message 1 (Binary_Data [4]) None
     = Message (generation (run terminal_step sample_start [sample_connect, Env_Open 1]))
         (Binary_Data (4 # payload)) fit"
  by (rule connected_only_by_confirmation)
    (simp_all add: sample_start_def sample_connect_def sample_evaluation)

text \<open>
  Claim C35. Nothing at all is handed to a socket before the server has confirmed its connection: in
  every run without a confirmation frame for connection \<open>i\<close>, typing, shortcuts, resizes and timers leave
  its socket unused and its queue empty.
\<close>

theorem nothing_sent_before_confirmation:
  assumes "list_all (\<lambda>e. \<not> confirms i e) es"
    and "conns (run terminal_step (init_hook sid fs th a) es) i = Some c"
  shows "sent (sock c) = [] \<and> queue c = [] \<and> \<not> connected c"
proof -
  have "silent i (init_hook sid fs th a)"
    by (simp add: silent_def init_hook_def)
  from silent_run [OF assms(1) this] show ?thesis
    using assms(2) by (simp add: silent_def)
qed

theorem nothing_sent_before_confirmation_witness:
  "\<exists>c. conns (run terminal_step sample_start [sample_connect, Env_Open 1, Term_Data 1 (js ''ls'')]) 1 = Some c
     \<and> sent (sock c) = [] \<and> queue c = []"
proof -
  let ?es = "[sample_connect, Env_Open 1, Term_Data 1 (js ''ls'')]"
  obtain c where "conns (run terminal_step sample_start ?es) 1 = Some c"
    by (simp add: sample_start_def sample_connect_def sample_evaluation send_current_def send_input_def)
  moreover have "list_all (\<lambda>e. \<not> confirms 1 e) ?es"
    by (simp add: confirms_def sample_connect_def)
  ultimately show ?thesis
    using nothing_sent_before_confirmation [of 1 ?es 7 14 "[]" True c] by (simp add: sample_start_def)
qed



text \<open>
  Typing, however much is pasted, never lets the socket's buffer grow past 256 KiB and one
  frame, unless it was fuller before.
\<close>

lemma typing_respects_backpressure:
  assumes "h = run terminal_step (init_hook sid fs th a) es" and "conns h i = Some c"
    and "conns (send_input i data h) i = Some d"
  shows "buffered (sock d) \<le> max (buffered (sock c)) (256 * 1024 + 16 * 1024)"
proof -
  have "hook_inv h"
    using assms(1) reachable_ok by simp
  from send_input_buffer [OF this assms(2,3)] show ?thesis
    by (simp add: buffer_limit_def input_chunk_bytes_def)
qed


lemma typing_respects_backpressure_witness:
  "buffered sample_sent \<le> max (buffered sample_sock) (256 * 1024 + 16 * 1024)"
proof -
  have "conns (send_input 1 (js ''ls'') (run terminal_step sample_start sample_open)) 1
      = Some (sample_conn\<lparr>sock := sample_sent\<rparr>)"
    using sample_pump
    by (simp add: sample_run send_input_def pump_def can_send_def sample_frames put_conn_def
        sample_conn_def sample_ready Let_def)
  from typing_respects_backpressure
    [of "run terminal_step sample_start sample_open" 7 14 "[]" True sample_open 1 sample_conn,
     OF _ sample_facts(1) this]
  show ?thesis
    by (simp add: sample_start_def sample_conn_def)
qed

text \<open>
  The socket's address: the scheme follows the page's, and the token travels as one
  percent-encoded query value, in which no character can end the value or start another one, and which
  decodes to the token's UTF-8 bytes. A token that is well-formed text always gets an address.
\<close>

lemma token_in_the_address:
  "(\<forall>u. terminal_url loc sid token = Some u \<longrightarrow>
      (\<exists>q. u = (if loc_protocol loc = js ''https:'' then js ''wss:'' else js ''ws:'') @ js ''//'' @ loc_host loc
            @ js ''/api/terminal/'' @ int_digits sid @ js ''?token='' @ q
         \<and> list_all (\<lambda>x. x \<notin> set (js ''&=#?/+ '')) q
         \<and> percent_decode q = text_encode token))
   \<and> (well_formed token \<longrightarrow> terminal_url loc sid token \<noteq> None)"
proof -
  have "\<not> uri_safe x" if "x \<in> set (js ''&=#?/+ '')" for x
    using that by (auto simp: js_def uri_safe_def unreserved_def of_char_def)
  then have "list_all (\<lambda>x. x \<notin> set (js ''&=#?/+ '')) q" if "encode_uri_component token = Some q" for q
    using encode_uri_component_safe [OF that] by (auto simp: list_all_iff)
  then show ?thesis
    using percent_decode_encode [of token] encode_uri_component_defined [of token]
    by (auto simp: terminal_url_def)
qed

lemma token_in_the_address_witness:
  "\<exists>q. js ''wss://h/api/terminal/7?token=t'' = js ''wss:'' @ js ''//'' @ js ''h'' @ js ''/api/terminal/'' @ int_digits 7 @ js ''?token='' @ q
     \<and> percent_decode q = text_encode (js ''t'')"
  using token_in_the_address [of sample_location 7 "js ''t''"] sample_url
  by (auto simp: sample_location_def)

text \<open>
  The warning about lost input can be missing: the pump moves its index past a frame before
  it hands the frame to the socket, so when the socket raises on the last queued frame while its buffer
  is empty, the frame is not sent, yet the error text has no warning that input may be lost.
\<close>

lemma lost_frame_without_warning:
  assumes "conns h i = Some c" and "can_send i h c" and "\<not> failed c"
    and "queue c = []" and "queue_index c = 0" and "pump_timer c = None"
    and "faulty (sock c)" and "buffered (sock c) = 0" and "input_frames data = [frame]"
  shows "status (send_input i data h) = Status_Error
    \<and> error_msg (send_input i data h) = Plain (JStr msg_send_failed)
    \<and> (\<exists>d. conns (send_input i data h) i = Some d \<and> sent (sock d) = sent (sock c) \<and> queue d = [])"
proof -
  have "pump_loop [frame] 0 (sock c) = (1, sock c, True)"
    using assms by (simp add: pump_loop.simps ws_send_def buffer_limit_def)
  then show ?thesis
    using assms by (simp add: send_input_def pump_def can_send_def fail_def Let_def)
qed

lemma lost_frame_without_warning_witness:
  "error_msg (send_input 1 (js ''ls'')
     (run terminal_step sample_start (sample_open @ [Env_Drain 1 22, Env_Fault 1 True])))
   = Plain (JStr msg_send_failed)"
  using lost_frame_without_warning
    [of "run terminal_step sample_start (sample_open @ [Env_Drain 1 22, Env_Fault 1 True])" 1
       "sample_conn\<lparr>sock := sample_sock\<lparr>buffered := 0, faulty := True\<rparr>\<rparr>" "js ''ls''" "[0, 0x6C, 0x73]"]
  by (simp add: run_append sample_run with_sock_def put_conn_def sample_conn_def sample_sock_def
      sample_size sample_frames can_send_def)


end
