(* ===== verification/Terminal_View.thy ===== *)
theory Terminal_View
  imports Complex_Main Terminal_Properties
begin

text \<open>
  The terminal around its connection: scrolling by touch (\<open>utils/terminalTouch.ts\<close>), and what the tab
  shows for each state, with its shortcut keys (\<open>components/TerminalTab.tsx\<close>).

  Coordinates and the cell height are rational numbers; the rounding of floating point division is not
  modelled.
\<close>

section \<open>Touch\<close>

record touch =
  touch_id :: int
  client_x :: rat
  client_y :: rat

record gesture =
  g_id :: int
  g_x :: rat
  g_y :: rat
  cell_height :: rat
  g_lines :: int

text \<open>
  The listener's state: the gesture under way, and every scroll it asked the terminal for. The terminal's
  element is \<open>element_height\<close> high and shows \<open>term_rows\<close> rows, of which xterm always has one; \<open>normal_buffer\<close> is false while a full-screen
  program runs.
\<close>

record touch_view =
  gesture :: "gesture option"
  scrolls :: "int list"
  normal_buffer :: bool
  element_height :: rat
  term_rows :: nat

definition touch_reset :: "touch_view \<Rightarrow> touch_view" where
  "touch_reset v = v\<lparr>gesture := None\<rparr>"

definition touch_start :: "bool \<Rightarrow> touch list \<Rightarrow> touch_view \<Rightarrow> touch_view" where
  "touch_start on_scrollbar touches v0 =
     (let v = touch_reset v0
      in if length touches \<noteq> 1 \<or> \<not> normal_buffer v \<or> on_scrollbar then v
         else
           (let cell = element_height v / of_nat (term_rows v); t = hd touches
            in if cell = 0 then v
               else v\<lparr>gesture := Some \<lparr>g_id = touch_id t, g_x = client_x t, g_y = client_y t,
                                        cell_height = cell, g_lines = 0\<rparr>\<rparr>))"

text \<open>\<open>Math.trunc\<close>.\<close>

definition trunc :: "rat \<Rightarrow> int" where
  "trunc q = (if q < 0 then - \<lfloor>- q\<rfloor> else \<lfloor>q\<rfloor>)"

definition touch_move :: "touch list \<Rightarrow> touch_view \<Rightarrow> touch_view" where
  "touch_move touches v =
     (case gesture v of
        None \<Rightarrow> touch_reset v
      | Some g \<Rightarrow>
          if length touches \<noteq> 1 \<or> \<not> normal_buffer v then touch_reset v
          else
            (let t = hd touches; delta = g_y g - client_y t; lines = trunc (delta / cell_height g)
             in if touch_id t \<noteq> g_id g then touch_reset v
                else if \<bar>delta\<bar> < 6 \<or> \<bar>delta\<bar> < \<bar>g_x g - client_x t\<bar> then v
                else v\<lparr>scrolls := (if lines \<noteq> g_lines g then scrolls v @ [lines - g_lines g] else scrolls v),
                       gesture := Some (g\<lparr>g_lines := lines\<rparr>)\<rparr>))"

datatype touch_event = Touch_Began bool "touch list" | Touch_Moved "touch list" | Touch_Ended | Buffer_Switched bool

fun touch_step :: "touch_view \<Rightarrow> touch_event \<Rightarrow> touch_view" where
  "touch_step v (Touch_Began sb ts) = touch_start sb ts v"
| "touch_step v (Touch_Moved ts) = touch_move ts v"
| "touch_step v Touch_Ended = touch_reset v"
| "touch_step v (Buffer_Switched b) = v\<lparr>normal_buffer := b\<rparr>"

text \<open>A gesture's line count is the sum of the scrolls since it began, of which \<open>k\<close> came before it.\<close>

definition scrolled_since :: "nat \<Rightarrow> touch_view \<Rightarrow> bool" where
  "scrolled_since k v \<longleftrightarrow>
     (case gesture v of None \<Rightarrow> True | Some g \<Rightarrow> k \<le> length (scrolls v) \<and> sum_list (drop k (scrolls v)) = g_lines g)"

lemma touch_move_scrolled: "scrolled_since k v \<Longrightarrow> scrolled_since k (touch_move ts v)"
  by (auto simp: scrolled_since_def touch_move_def touch_reset_def Let_def split: option.splits)

lemma touch_moves_scrolled:
  "scrolled_since k v \<Longrightarrow> scrolled_since k (run touch_step v (map Touch_Moved tss))"
  by (induction tss arbitrary: v) (simp_all add: touch_move_scrolled)

lemma run_snoc: "run step s (es @ [e]) = step (run step s es) e"
  by (simp add: run_append)

text \<open>
  Scrolling follows the finger exactly: through any moves of one gesture, the lines scrolled
  since it began add up to the gesture's count, and a move that is far enough and steep enough leaves
  that sum at the whole number of rows between the finger and where it first touched; steps
  neither accumulate rounding nor get lost.
\<close>

lemma scrolling_follows_the_finger:
  assumes "gesture (touch_start sb [t0] v) = Some g"
    and "w = run touch_step (touch_start sb [t0] v) (map Touch_Moved tss @ [Touch_Moved [t]])"
    and "gesture w = Some g'" and "6 \<le> \<bar>client_y t0 - client_y t\<bar>"
    and "\<bar>client_x t0 - client_x t\<bar> \<le> \<bar>client_y t0 - client_y t\<bar>"
  shows "sum_list (drop (length (scrolls v)) (scrolls w))
    = trunc ((client_y t0 - client_y t) / (element_height v / of_nat (term_rows v)))"
proof -
  let ?v = "touch_start sb [t0] v"
  let ?u = "run touch_step ?v (map Touch_Moved tss)"
  define fixed where "fixed q \<longleftrightarrow> (case gesture q of None \<Rightarrow> True
      | Some h \<Rightarrow> g_y h = client_y t0 \<and> g_x h = client_x t0
          \<and> cell_height h = element_height v / of_nat (term_rows v))" for q :: touch_view
  have start: "scrolled_since (length (scrolls v)) ?v" "fixed ?v"
    by (auto simp: touch_start_def touch_reset_def scrolled_since_def fixed_def Let_def split: if_splits)
  have "fixed q \<Longrightarrow> fixed (touch_move ts q)" for q ts
    by (auto simp: fixed_def touch_move_def touch_reset_def Let_def split: option.splits)
  then have "fixed q \<Longrightarrow> fixed (run touch_step q (map Touch_Moved tss))" for q
    by (induction tss arbitrary: q) simp_all
  then have u: "fixed ?u" "scrolled_since (length (scrolls v)) ?u"
    using start touch_moves_scrolled by blast+
  have w: "w = touch_move [t] ?u"
    using assms(2) by (simp add: run_append)
  then have "g_lines g' = trunc ((client_y t0 - client_y t) / (element_height v / of_nat (term_rows v)))"
    using assms(3-5) u(1)
    by (auto simp: touch_move_def touch_reset_def fixed_def Let_def split: option.splits if_splits)
  moreover have "scrolled_since (length (scrolls v)) w"
    using w touch_move_scrolled [OF u(2)] by simp
  ultimately show ?thesis
    using assms(3) by (simp add: scrolled_since_def)
qed

lemma scrolling_follows_the_finger_witness:
  "scrolls (run touch_step
      (touch_start False [\<lparr>touch_id = 1, client_x = 0, client_y = 100\<rparr>]
        \<lparr>gesture = None, scrolls = [], normal_buffer = True, element_height = 240, term_rows = 24\<rparr>)
      (map Touch_Moved [[\<lparr>touch_id = 1, client_x = 0, client_y = 85\<rparr>]] @
       [Touch_Moved [\<lparr>touch_id = 1, client_x = 2, client_y = 65\<rparr>]])) = [1, 2]
   \<and> trunc ((100 - 65) / (240 / of_nat 24)) = sum_list (drop 0 [1, 2])"
proof -
  let ?first = "\<lparr>touch_id = 1, client_x = 0, client_y = 100\<rparr>"
  let ?v = "\<lparr>gesture = None, scrolls = [], normal_buffer = True, element_height = 240, term_rows = 24\<rparr>"
  let ?es = "[[\<lparr>touch_id = 1, client_x = 0, client_y = 85\<rparr>]] :: touch list list"
  let ?t = "\<lparr>touch_id = 1, client_x = 2, client_y = 65\<rparr>"
  let ?w = "run touch_step (touch_start False [?first] ?v) (map Touch_Moved ?es @ [Touch_Moved [?t]])"
  have tr: "trunc (3 / 2) = 1" "trunc (7 / 2) = 3"
    by (simp_all add: trunc_def floor_eq_iff)
  obtain g g' where g: "gesture (touch_start False [?first] ?v) = Some g" "gesture ?w = Some g'" "scrolls ?w = [1, 2]"
    by (simp add: touch_start_def touch_move_def touch_reset_def tr Let_def)
  show ?thesis
    using scrolling_follows_the_finger [OF g(1) refl g(2)] g(3) by simp
qed

section \<open>What the tab shows\<close>

datatype terminal_overlay =
    Connecting_Overlay js_string
  | Disconnected_Bar error_text
  | Error_Card error_text js_string
  | No_Overlay

record tab_view =
  overlay :: terminal_overlay
  toolbar :: bool
  shortcut_bar :: bool

text \<open>The tab for a connection hook, the server's name and whether the shortcut bar is wanted.\<close>

definition tab_view_of :: "terminal_hook \<Rightarrow> js_string \<Rightarrow> bool \<Rightarrow> tab_view" where
  "tab_view_of h server_name show_bar =
     \<lparr>overlay =
        (case status h of
           Status_Connecting \<Rightarrow> Connecting_Overlay server_name
         | Status_Error \<Rightarrow>
             if term_ref h \<noteq> None then Disconnected_Bar (error_msg h) else Error_Card (error_msg h) server_name
         | Status_Connected \<Rightarrow> No_Overlay),
      toolbar = (status h = Status_Connected),
      shortcut_bar = (status h = Status_Connected \<and> show_bar)\<rparr>"

text \<open>The shortcuts: label and the characters they type.\<close>

definition shortcuts :: "(js_string \<times> js_string) list" where
  "shortcuts =
     [(js ''Ctrl+C'', [0x03]), (js ''Ctrl+D'', [0x04]), (js ''Ctrl+Z'', [0x1A]), (js ''Ctrl+L'', [0x0C]),
      (js ''Ctrl+U'', [0x15]), (js ''Ctrl+R'', [0x12]), (js ''Tab'', [0x09]),
      ([0x2191], [0x1B, 0x5B, 0x41]), ([0x2193], [0x1B, 0x5B, 0x42]), ([0x2190], [0x1B, 0x5B, 0x44]),
      ([0x2192], [0x1B, 0x5B, 0x43]), (js ''ESC'', [0x1B]), (js '':wq'', js '':wq'' @ [0x0D]),
      (js '':q!'', js '':q!'' @ [0x0D]), (js ''i'', js ''i''), (js ''dd'', js ''dd'')]"

definition press_shortcut :: "js_string \<Rightarrow> terminal_hook \<Rightarrow> terminal_hook" where
  "press_shortcut label h =
     (case map_of shortcuts label of None \<Rightarrow> h | Some data \<Rightarrow> send_current data h)"

lemma shortcuts_distinct: "distinct (map fst shortcuts)"
  by (simp add: shortcuts_def js_def of_char_def)

lemma shortcuts_ascii: "data \<in> snd ` set shortcuts \<Longrightarrow> ascii data \<and> data \<noteq> []"
  by (auto simp: shortcuts_def ascii_def js_def of_char_def)

text \<open>
  A shortcut types exactly its characters: pressing one on a terminal that is connected adds to
  what the shell is sent and what is queued the characters of the table, one byte each, at the end; and
  the bar with the shortcuts is shown only when the terminal is connected.
\<close>

lemma shortcuts_type_their_characters:
  assumes "h = run terminal_step (init_hook sid fs th a) es" and "map_of shortcuts label = Some data"
    and "conns h i = Some c" and "generation h = i" and "connected c" and "ready_state (sock c) = Ws_Open"
    and "conns (press_shortcut label h) i = Some d" and "\<not> failed d"
  shows "stdin_of (sent (sock d)) @ stdin_of (drop (queue_index d) (queue d))
      = stdin_of (sent (sock c)) @ stdin_of (drop (queue_index c) (queue c)) @ map (\<lambda>u. byte (unat u)) data
    \<and> (\<not> shortcut_bar (tab_view_of h name show_bar) \<or> status h = Status_Connected)"
proof -
  have h: "hook_inv h"
    using assms(1) reachable_ok by simp
  have lv: "cleanup_ref h = Some i \<and> live c"
    using hook_inv_live [OF h assms(3,4)] .
  have r: "send_ref h = Some i"
    using hook_inv_refs [OF h conjunct1 [OF lv]] by blast
  have n: "\<not> ended c"
    using lv assms(5) by (auto simp: live_def base_def stream_ok_def ended_def)
  have "channel i (flow c) h"
    using assms(3) by (simp add: channel_def carries_def flow_def)
  from send_current_channel [OF h this, of data]
  have ch: "channel i (flow c @ text_encode data) (press_shortcut label h)"
    using assms(2-6) r by (simp add: press_shortcut_def takes_def can_send_def)
  have inv: "hook_inv (press_shortcut label h)" "generation (press_shortcut label h) = i"
    using send_current_inv [OF h] assms(2,4) by (simp_all add: press_shortcut_def)
  have "\<not> disposed (xterm d)"
    using hook_inv_live [OF inv(1) assms(7) inv(2)] by (auto simp: live_def base_def stream_ok_def)
  then have "flow d = flow c @ text_encode data"
    using ch assms(7,8) by (simp add: channel_def carries_def ended_def)
  moreover have "text_encode data = map (\<lambda>u. byte (unat u)) data"
  proof -
    have "data \<in> snd ` set shortcuts"
      using map_of_SomeD [OF assms(2)] by force
    then show ?thesis
      using shortcuts_ascii text_encode_ascii by blast
  qed
  ultimately show ?thesis
    by (simp add: flow_def delivered_def pending_def tab_view_of_def)
qed


lemma sample_i_frames: "input_frames (js ''i'') = [[0, 0x69]]"
  by code_simp

definition sample_i_sent :: socket where
  "sample_i_sent = sample_sock\<lparr>buffered := 24, sent := [resize_frame 80 24, [0, 0x69]]\<rparr>"

lemma sample_i_pump: "pump_loop [[0, 0x69]] 0 sample_sock = (1, sample_i_sent, False)"
  by (simp add: pump_loop.simps sample_sock_def sample_i_sent_def ws_send_def buffer_limit_def sample_size)

lemma shortcuts_type_their_characters_witness:
  "stdin_of (sent sample_i_sent) = map (\<lambda>u. byte (unat u)) (js ''i'')"
proof -
  let ?h = "run terminal_step (init_hook 7 14 [] True) sample_open"
  have h: "run terminal_step sample_start sample_open = ?h"
    by (simp add: sample_start_def)
  have l: "map_of shortcuts (js ''i'') = Some (js ''i'')"
    by (simp add: shortcuts_def js_def of_char_def)
  have c: "conns ?h 1 = Some sample_conn" "generation ?h = 1"
    using sample_facts(1,2) unfolding h .
  have p: "connected sample_conn" "ready_state (sock sample_conn) = Ws_Open"
    by (simp_all add: sample_conn_def sample_ready)
  have d: "conns (press_shortcut (js ''i'') ?h) 1 = Some (sample_conn\<lparr>sock := sample_i_sent\<rparr>)"
    using sample_i_pump l
    unfolding h [symmetric]
    by (simp add: press_shortcut_def send_current_def sample_run send_input_def pump_def can_send_def
        sample_i_frames put_conn_def sample_conn_def sample_ready Let_def)
  have "\<not> failed (sample_conn\<lparr>sock := sample_i_sent\<rparr>)"
    by (simp add: sample_conn_def)
  from shortcuts_type_their_characters [OF refl l c p d this, of "[]" True] show ?thesis
    by (simp add: sample_conn_def sample_i_sent_def sample_sock_def resize_frame_def)
qed


end
