(* ===== verification/Terminal_Wire.thy ===== *)
theory Terminal_Wire
  imports Terminal_Status
begin

text \<open>
  What crosses the socket: every frame a connection sends is a standard input frame or the frame of a
  size, frames once sent stay sent, and the terminal shows the payloads of the output frames it received.
  The server's end of the connection is composed with the hook on these facts.
\<close>

section \<open>Frames\<close>

definition client_frame :: "bytes \<Rightarrow> bool" where
  "client_frame f \<longleftrightarrow> stdin_frame f \<or> (\<exists>c r. f = resize_frame c r)"

definition output_frame :: "bytes \<Rightarrow> bool" where
  "output_frame f \<longleftrightarrow> f \<noteq> [] \<and> (hd f = 0x00 \<or> hd f = 0x01)"

definition outputs_of :: "bytes list \<Rightarrow> bytes list" where
  "outputs_of fs = map tl (filter output_frame fs)"

lemma outputs_of_simps [simp]:
  "outputs_of [] = []" "outputs_of (fs @ gs) = outputs_of fs @ outputs_of gs"
  "outputs_of [f] = (if output_frame f then [tl f] else [])"
  by (simp_all add: outputs_of_def)

definition queue_ok :: "connection \<Rightarrow> bool" where
  "queue_ok c \<longleftrightarrow> (\<forall>f \<in> set (queue c). stdin_frame f)"

definition extends :: "connection \<Rightarrow> connection \<Rightarrow> bool" where
  "extends c c' \<longleftrightarrow>
     (\<exists>fs. sent (sock c') = sent (sock c) @ fs \<and> (\<forall>f \<in> set fs. client_frame f)) \<and>
     queue_ok c' \<and> (failed c \<longrightarrow> failed c')"

text \<open>What every operation but the receipt of a frame does to a connection.\<close>

definition wire :: "connection \<Rightarrow> connection \<Rightarrow> bool" where
  "wire c c' \<longleftrightarrow>
     (queue_ok c \<longrightarrow> extends c c' \<and> written (xterm c') = written (xterm c) \<and> (connected c' \<longrightarrow> connected c))"

definition wires :: "terminal_hook \<Rightarrow> terminal_hook \<Rightarrow> bool" where
  "wires h h' \<longleftrightarrow>
     (\<forall>j. (conns h j = None \<longrightarrow> conns h' j = None) \<and>
          (\<forall>c. conns h j = Some c \<longrightarrow> (\<exists>c'. conns h' j = Some c' \<and> wire c c')))"

lemma extends_refl: "queue_ok c \<Longrightarrow> extends c c"
  by (auto simp: extends_def)

lemma extends_trans: "extends c d \<Longrightarrow> extends d e \<Longrightarrow> extends c e"
proof -
  assume "extends c d" "extends d e"
  then obtain fs gs where "sent (sock d) = sent (sock c) @ fs" "\<forall>f \<in> set fs. client_frame f"
    "sent (sock e) = sent (sock d) @ gs" "\<forall>f \<in> set gs. client_frame f"
    "queue_ok e" "failed c \<longrightarrow> failed e"
    unfolding extends_def by blast
  then show "extends c e"
    by (auto simp: extends_def intro!: exI [of _ "fs @ gs"])
qed

lemma extends_queue: "extends c c' \<Longrightarrow> queue_ok c'"
  by (simp add: extends_def)

lemma wire_refl [simp]: "wire c c"
  by (auto simp: wire_def extends_def)

lemma wire_trans: "wire c d \<Longrightarrow> wire d e \<Longrightarrow> wire c e"
  unfolding wire_def using extends_trans [of c d e] extends_queue [of c d] by simp

lemma wire_same:
  "sent (sock c') = sent (sock c) \<Longrightarrow> set (queue c') \<subseteq> set (queue c) \<Longrightarrow>
   written (xterm c') = written (xterm c) \<Longrightarrow> (failed c \<Longrightarrow> failed c') \<Longrightarrow> (connected c' \<Longrightarrow> connected c) \<Longrightarrow>
   wire c c'"
  by (auto simp: wire_def extends_def queue_ok_def)

lemma wires_refl [simp]: "wires h h"
  by (simp add: wires_def)

lemma wires_trans: "wires h h' \<Longrightarrow> wires h' h'' \<Longrightarrow> wires h h''"
proof -
  assume a: "wires h h'" "wires h' h''"
  show "wires h h''"
    unfolding wires_def
  proof (intro allI conjI impI)
    fix j c
    show "conns h j = None \<Longrightarrow> conns h'' j = None"
      using a by (simp add: wires_def)
    assume "conns h j = Some c"
    then obtain d where d: "conns h' j = Some d" "wire c d"
      using a(1) unfolding wires_def by blast
    then obtain e where "conns h'' j = Some e" "wire d e"
      using a(2) unfolding wires_def by blast
    then show "\<exists>e. conns h'' j = Some e \<and> wire c e"
      using wire_trans [OF d(2)] by blast
  qed
qed

lemma wires_put: "conns h i = Some c \<Longrightarrow> wire c c' \<Longrightarrow> wires h (put_conn i c' h)"
  by (auto simp: wires_def)

lemma wires_put_trans:
  "wires (put_conn i c' h) h' \<Longrightarrow> conns h i = Some c \<Longrightarrow> wire c c' \<Longrightarrow> wires h h'"
  using wires_put wires_trans by blast

lemma wires_conns: "conns h' = conns h \<Longrightarrow> wires h h'"
  by (simp add: wires_def)

lemma wires_eq: "wires h g \<Longrightarrow> conns h' = conns g \<Longrightarrow> wires h h'"
  by (simp add: wires_def)

section \<open>Every operation\<close>

lemma fail_wires: "wires h (fail i m h)"
proof (cases "conns h i")
  case (Some c)
  let ?c = "c\<lparr>failed := True, connected := False, queue := [], queue_index := 0,
    sock := ws_close (sock c)\<rparr>"
  have "wires h (put_conn i ?c h)"
    by (rule wires_put [OF Some], rule wire_same) simp_all
  then show ?thesis
    using Some by (auto simp: fail_def intro: wires_eq)
qed (simp add: fail_def)

lemma pump_loop_sent:
  assumes "pump_loop q i w = (j, w', raised)" "ready_state w = Ws_Open" "\<forall>f \<in> set q. stdin_frame f"
  shows "\<exists>fs. sent w' = sent w @ fs \<and> (\<forall>f \<in> set fs. stdin_frame f)"
  using assms
proof (induction q i w rule: pump_loop.induct)
  case (1 q i w)
  show ?case
  proof (cases "i < length q \<and> buffered w < buffer_limit")
    case True
    show ?thesis
    proof (cases "ws_send w (q ! i)")
      case None
      then show ?thesis
        using 1(2) True by (auto simp: pump_loop.simps [of q i w])
    next
      case (Some v)
      have v: "ready_state v = Ws_Open" "sent v = sent w @ [q ! i]"
        using ws_send_frame [OF Some] ws.send_frames [OF 1(3) Some] 1(3) by auto
      have "pump_loop q (Suc i) v = (j, w', raised)"
        using 1(2) True Some by (simp add: pump_loop.simps [of q i w])
      from "1.IH" [OF True Some this v(1) 1(4)] obtain fs
        where "sent w' = sent v @ fs" "\<forall>f \<in> set fs. stdin_frame f"
        by blast
      then show ?thesis
        using v(2) True 1(4) by (auto intro!: exI [of _ "q ! i # fs"])
    qed
  next
    case False
    then show ?thesis
      using 1(2) by (auto simp: pump_loop_stop)
  qed
qed

lemma pump_wires: "wires h (pump i h)"
proof (cases "conns h i")
  case (Some c)
  let ?c = "c\<lparr>pump_timer := None\<rparr>"
  obtain k w raised where l: "pump_loop (queue ?c) (queue_index ?c) (sock ?c) = (k, w, raised)"
    by (cases "pump_loop (queue ?c) (queue_index ?c) (sock ?c)")
  show ?thesis
  proof (cases "can_send i h ?c")
    case True
    then have o: "ready_state (sock c) = Ws_Open"
      by (simp add: can_send_def)
    have e: "wire c d" if "sock d = w" "set (queue d) \<subseteq> set (queue c)" "xterm d = xterm c"
      "failed d = failed c" "connected d = connected c" for d
      using pump_loop_sent [OF l] o that
      by (fastforce simp: wire_def extends_def queue_ok_def client_frame_def)
    have p: "wires h (put_conn i d h)" if "sock d = w" "set (queue d) \<subseteq> set (queue c)"
      "xterm d = xterm c" "failed d = failed c" "connected d = connected c" for d
      using wires_put [OF Some e [OF that]] .
    have f: "wires h (fail i m (put_conn i (?c\<lparr>queue_index := k, sock := w\<rparr>) h))" for m
      by (rule wires_trans [OF p fail_wires]) simp_all
    show ?thesis
      using True Some l f by (auto simp: pump_def Let_def later_def intro!: p)
  next
    case False
    then show ?thesis
      using Some by (auto simp: pump_def intro!: wires_put wire_same)
  qed
qed (simp add: pump_def)

lemma send_input_wires: "wires h (send_input i data h)"
proof (cases "conns h i")
  case (Some c)
  let ?c = "c\<lparr>queue := queue c @ input_frames data\<rparr>"
  have "wire c ?c"
    using input_frames_shape by (auto simp: wire_def extends_def queue_ok_def)
  then have "wires h (put_conn i ?c h)"
    using wires_put [OF Some] by blast
  then show ?thesis
    using Some wires_trans [OF _ pump_wires] by (auto simp: send_input_def Let_def)
qed (simp add: send_input_def)

lemma send_current_wires: "wires h (send_current data h)"
  by (simp add: send_current_def send_input_wires split: option.split)

lemma send_resize_wires: "wires h (send_resize i h)"
proof (cases "conns h i")
  case (Some c)
  let ?f = "resize_frame (cols (xterm c)) (rows (xterm c))"
  have "wire c (c\<lparr>sock := w\<rparr>)" if "ready_state (sock c) = Ws_Open" "ws_send (sock c) ?f = Some w" for w
    using ws.send_frames [OF that]
    by (auto simp: wire_def extends_def queue_ok_def client_frame_def)
  then show ?thesis
    using Some
    by (auto simp: send_resize_def can_send_def intro!: wires_put fail_wires split: option.split)
qed (simp add: send_resize_def)

lemma on_term_resize_wires: "wires h (on_term_resize i h)"
  by (auto simp: on_term_resize_def later_def Let_def intro!: wires_put wire_same split: option.split)

lemma resize_terminal_wires: "wires h (resize_terminal i d h)"
  by (auto simp: resize_terminal_def
      intro!: wires_put_trans [OF on_term_resize_wires] wire_same split: option.split)

lemma do_fit_wires: "wires h (do_fit fit h)"
  by (auto simp: do_fit_def intro: resize_terminal_wires split: option.split)

lemma fit_and_resize_wires: "wires h (fit_and_resize i fit h)"
  unfolding fit_and_resize_def by (rule wires_trans [OF do_fit_wires send_resize_wires])

lemma arm_fit_wires: "wires h (arm_fit i h)"
  by (auto simp: arm_fit_def later_def Let_def intro!: wires_put wire_same split: option.split)

lemma run_timer_wires: "wires h (run_timer i k fit h)"
  by (cases k) (simp_all add: run_timer_def pump_wires send_resize_wires fit_and_resize_wires)

lemma timer_fires_wires: "wires h (timer_fires i t fit h)"
  by (auto simp: timer_fires_def Let_def
      intro!: wires_put_trans [OF run_timer_wires] wires_put wire_same split: option.split)

lemma first_frame_wires: "wires h (first_frame i fit h)"
  by (auto simp: first_frame_def Let_def
      intro!: wires_put_trans [OF do_fit_wires] wires_put wire_same split: option.split)

lemma with_sock_wires: "(\<And>w. sent (f w) = sent w) \<Longrightarrow> wires h (with_sock i f h)"
  by (auto simp: with_sock_def intro!: wires_put wire_same split: option.split)

lemma change_props_wires: "wires h (change_props fs th a h)"
proof -
  let ?h = "h\<lparr>font_size := fs, theme_prop := th, is_active := a, layout_frame := True\<rparr>"
  have "wires ?h (change_props fs th a h)"
    by (auto simp: change_props_def Let_def intro!: wires_put wire_same split: option.split)
  then show ?thesis
    by (rule wires_trans [OF wires_conns, rotated -1]) simp
qed

lemma cleanup_wires: "wires h (cleanup h)"
  by (auto simp: cleanup_def wires_def released_def intro: wire_same split: option.split)

section \<open>Every event\<close>

definition fresh :: "connection \<Rightarrow> bool" where
  "fresh c \<longleftrightarrow>
     sent (sock c) = [] \<and> written (xterm c) = [] \<and> \<not> failed c \<and> \<not> connected c \<and> queue c = []"

definition is_message :: "terminal_event \<Rightarrow> bool" where
  "is_message e \<longleftrightarrow> (case e of Message _ _ _ \<Rightarrow> True | _ \<Rightarrow> False)"

lemma wires_some: "wires h h' \<Longrightarrow> conns h j = Some c \<Longrightarrow> \<exists>c'. conns h' j = Some c' \<and> wire c c'"
  by (simp add: wires_def)

lemma wires_none: "wires h h' \<Longrightarrow> conns h j = None \<Longrightarrow> conns h' j = None"
  by (simp add: wires_def)

lemma fresh_new [simp]: "fresh (new_connection h u)"
  by (simp add: fresh_def new_connection_def ws_open_def new_terminal_def)

lemma connect_conns:
  "conns (connect loc store h) = conns (cleanup h) \<or>
   (\<exists>g u. conns (connect loc store h)
      = (conns (cleanup h))(Suc (generation (cleanup h)) \<mapsto> new_connection g u))"
  by (auto simp: connect_def Let_def split: option.split)

lemma connect_wire:
  assumes "hook_inv h"
  shows "conns h j = Some c \<Longrightarrow> \<exists>c'. conns (connect loc store h) j = Some c' \<and> wire c c'"
    and "conns h j = None \<Longrightarrow> conns (connect loc store h) j = Some c' \<Longrightarrow> fresh c'"
proof -
  let ?i = "Suc (generation (cleanup h))"
  have n: "conns (cleanup h) ?i = None"
    using cleanup_inv [OF assms] hook_inv_conns_le by fastforce
  show "\<exists>c'. conns (connect loc store h) j = Some c' \<and> wire c c'" if "conns h j = Some c"
    using wires_some [OF cleanup_wires that] connect_conns [of loc store h] n by (auto split: if_splits)
  show "fresh c'" if "conns h j = None" "conns (connect loc store h) j = Some c'"
    using wires_none [OF cleanup_wires that(1)] connect_conns [of loc store h] that(2)
    by (auto split: if_splits)
qed

definition plain_event :: "terminal_event \<Rightarrow> bool" where
  "plain_event e \<longleftrightarrow> \<not> is_message e \<and> stays e"

lemma plain_wires: "plain_event e \<Longrightarrow> wires h (terminal_step h e)"
proof (cases e)
  case (Layout_Frame fit)
  have "wires h (do_fit fit (h\<lparr>layout_frame := False\<rparr>))"
    by (rule wires_trans [OF wires_conns do_fit_wires]) simp
  then show ?thesis
    using Layout_Frame by simp
next
  case (Socket_Closed i)
  then show ?thesis
    by (auto intro: wires_trans [OF with_sock_wires fail_wires])
next
  case (Env_Open i)
  then show ?thesis
    by (auto intro: with_sock_wires)
qed (auto simp: plain_event_def is_message_def stays_def intro: change_props_wires do_fit_wires
    send_current_wires resize_terminal_wires fit_and_resize_wires first_frame_wires timer_fires_wires
    fail_wires with_sock_wires wires_conns)

lemma step_wire:
  assumes "hook_inv h" "\<not> is_message e" "conns h j = Some c"
  shows "\<exists>c'. conns (terminal_step h e) j = Some c' \<and> wire c c'"
proof (cases "plain_event e")
  case True
  then show ?thesis
    using wires_some [OF plain_wires assms(3)] by blast
next
  case False
  have s: "\<exists>c'. conns (connect loc store ((cleanup h)\<lparr>server_id := sid\<rparr>)) j = Some c' \<and> wire c c'"
    for loc store sid
  proof -
    let ?h = "(cleanup h)\<lparr>server_id := sid\<rparr>"
    obtain d where d: "conns ?h j = Some d" "wire c d"
      using wires_some [OF cleanup_wires assms(3)] by auto
    have "hook_inv ?h"
      using cleanup_inv [OF assms(1)] by (simp add: hook_inv_def refs_ok_def conn_inv_def)
    from connect_wire(1) [OF this d(1)] show ?thesis
      using wire_trans [OF d(2)] by blast
  qed
  show ?thesis
    using False assms(2) connect_wire(1) [OF assms(1,3)] wires_some [OF cleanup_wires assms(3)] s
    by (cases e) (auto simp: plain_event_def is_message_def stays_def)
qed

section \<open>Messages\<close>

lemma on_message_none: "conns h i = None \<Longrightarrow> on_message i data fit h = h"
  by (simp add: on_message_def)

lemma put_other: "i \<noteq> j \<Longrightarrow> conns (put_conn i c h) j = conns h j"
  by simp

lemma on_message_other:
  assumes "i \<noteq> j" "conns h j = Some c"
  shows "\<exists>c'. conns (on_message i data fit h) j = Some c' \<and> wire c c'"
proof -
  have "conns (write_term i p h) j = Some c" "conns (set_connected i h) j = Some c" for p
    using assms by (auto simp: write_term_def set_connected_def split: option.split)
  moreover from this(2)
  have "\<exists>c'. conns (arm_fit i (arm_fit i (fit_and_resize i fit (set_connected i h)))) j = Some c' \<and> wire c c'"
    by (rule wires_some [OF wires_trans [OF wires_trans [OF fit_and_resize_wires arm_fit_wires] arm_fit_wires]])
  ultimately show ?thesis
    using assms wires_some [OF fail_wires assms(2)]
    by (auto simp: on_message_def split: option.split ws_data.split list.split)
qed

text \<open>What a frame does to the connection that receives it.\<close>

lemma on_message_receives:
  assumes "conns h i = Some c" "queue_ok c"
  shows "\<exists>c'. conns (on_message i (Binary_Data f) fit h) i = Some c' \<and> extends c c' \<and>
    written (xterm c') = written (xterm c) @ (if generation h = i \<and> \<not> failed c then outputs_of [f] else []) \<and>
    (connected c' \<longrightarrow> connected c \<or> f \<noteq> [] \<and> hd f = 0x04)"
proof -
  have w: "\<exists>c'. conns h' i = Some c' \<and> extends c c' \<and> written (xterm c') = written (xterm c) \<and>
      (connected c' \<longrightarrow> connected c)" if "wires h h'" for h'
    using wires_some [OF that assms(1)] assms(2) by (auto simp: wire_def)
  let ?d = "c\<lparr>connected := True\<rparr>"
  let ?g = "arm_fit i (arm_fit i (fit_and_resize i fit (set_connected i h)))"
  have "conns (set_connected i h) i = Some ?d"
    using assms(1) by (simp add: set_connected_def)
  from wires_some [OF wires_trans [OF wires_trans [OF fit_and_resize_wires arm_fit_wires] arm_fit_wires] this]
  obtain d where "conns ?g i = Some d" "wire ?d d"
    by blast
  moreover have "queue_ok ?d" "extends c ?d" "written (xterm ?d) = written (xterm c)"
    using assms(2) by (auto simp: queue_ok_def extends_def)
  ultimately have g: "\<exists>c'. conns ?g i = Some c' \<and> extends c c' \<and> written (xterm c') = written (xterm c)"
    using extends_trans [of c ?d d] by (auto simp: wire_def)
  have x: "extends c (c\<lparr>xterm := t\<rparr>)" for t
    using assms(2) by (auto simp: queue_ok_def extends_def)
  show ?thesis
    using assms(1) w [OF wires_refl] w [OF fail_wires] g x
    by (auto simp: on_message_def write_term_def output_frame_def split: list.split option.split)
qed

lemma on_message_conns: "conns h j = None \<Longrightarrow> conns (on_message i data fit h) j = None"
proof (cases "conns h i")
  case (Some c)
  assume n: "conns h j = None"
  then have ij: "i \<noteq> j"
    using Some by auto
  have "conns (write_term i p h) j = None" "conns (set_connected i h) j = None" for p
    using n ij by (auto simp: write_term_def set_connected_def split: option.split)
  moreover from this(2)
  have "conns (arm_fit i (arm_fit i (fit_and_resize i fit (set_connected i h)))) j = None"
    by (rule wires_none [OF wires_trans [OF wires_trans [OF fit_and_resize_wires arm_fit_wires] arm_fit_wires]])
  ultimately show ?thesis
    using n wires_none [OF fail_wires n]
    by (auto simp: on_message_def split: option.split ws_data.split list.split)
qed (simp add: on_message_none)

lemma step_fresh:
  assumes "hook_inv h" "conns h j = None" "conns (terminal_step h e) j = Some c"
  shows "fresh c"
proof (cases "plain_event e")
  case True
  then show ?thesis
    using wires_none [OF plain_wires assms(2)] assms(3) by simp
next
  case False
  have i: "hook_inv ((cleanup h)\<lparr>server_id := sid\<rparr>)" for sid
    using cleanup_inv [OF assms(1)] by (simp add: hook_inv_def refs_ok_def conn_inv_def)
  have n: "conns ((cleanup h)\<lparr>server_id := sid\<rparr>) j = None" for sid
    using wires_none [OF cleanup_wires assms(2)] by simp
  show ?thesis
    using False assms connect_wire(2) [OF assms(1,2)] connect_wire(2) [OF i n]
      wires_none [OF cleanup_wires assms(2)] on_message_conns [OF assms(2)]
    by (cases e) (auto simp: plain_event_def is_message_def stays_def)
qed

end
