(* ===== verification/Terminal_Server.thy ===== *)
theory Terminal_Server
  imports Terminal_Wire
begin

text \<open>
  The server's end of a terminal (\<open>internal/api/terminal_handler.go\<close>, \<open>internal/sshclient/session.go\<close>):
  the handler's checks, and \<open>runTerminal\<close> with its goroutines as one state machine.

  Each goroutine is a flag that says whether it still runs, and its steps are events, in any order. A Go
  \<open>select\<close> with several ready cases may take any of them, so the events that meet one carry the choice.
  The SSH library and the browser's socket are outside the repository: whether a write succeeded, and how
  many bytes of it, are arguments of the events.
\<close>

section \<open>Reading a size\<close>

text \<open>
  \<open>json.Unmarshal\<close> into a struct with the fields \<open>cols\<close> and \<open>rows\<close>. Member names are matched without
  regard to case, as Go folds it; of equal members the last wins; \<open>null\<close> leaves a field alone; a value
  that is not an integer of 64 bits makes the call fail. Bytes that are not UTF-8 become U+FFFD.
\<close>

definition go_text :: "bytes \<Rightarrow> js_string" where
  "go_text bs = concat (map units_of (utf8_points 0 0 0 0 bs))"

definition fold_unit :: "16 word \<Rightarrow> 16 word" where
  "fold_unit u =
     (if 0x61 \<le> u \<and> u \<le> 0x7A then u - 0x20
      else if u = 0x17F then 0x53 else if u = 0x212A then 0x4B else u)"

definition names_field :: "js_string \<Rightarrow> js_string \<Rightarrow> bool" where
  "names_field k field \<longleftrightarrow> map fold_unit k = map fold_unit field"

definition int64 :: "int \<Rightarrow> bool" where
  "int64 i \<longleftrightarrow> - (2 ^ 63) \<le> i \<and> i < 2 ^ 63"

fun size_fields :: "(js_string \<times> json) list \<Rightarrow> int \<times> int \<Rightarrow> (int \<times> int) option" where
  "size_fields [] d = Some d"
| "size_fields ((k, v) # kvs) (c, r) =
     (if names_field k (js ''cols'') \<or> names_field k (js ''rows'') then
        (case v of
           JNull \<Rightarrow> size_fields kvs (c, r)
         | JInt i \<Rightarrow>
             if \<not> int64 i then None
             else size_fields kvs (if names_field k (js ''cols'') then (i, r) else (c, i))
         | _ \<Rightarrow> None)
      else size_fields kvs (c, r))"

definition unmarshal_size :: "bytes \<Rightarrow> (int \<times> int) option" where
  "unmarshal_size bs =
     (case json_parse (go_text bs) of
        Some JNull \<Rightarrow> Some (0, 0)
      | Some (JObj kvs) \<Rightarrow> size_fields kvs (0, 0)
      | _ \<Rightarrow> None)"

text \<open>The test of \<open>Session.Resize\<close>.\<close>

definition valid_window :: "int \<Rightarrow> int \<Rightarrow> bool" where
  "valid_window c r \<longleftrightarrow> \<not> (c < 1 \<or> r < 1 \<or> c > 1000 \<or> r > 1000)"

section \<open>The handler\<close>

text \<open>\<open>strconv.ParseInt(s, 10, 64)\<close>.\<close>

definition go_parse_int :: "js_string \<Rightarrow> int option" where
  "go_parse_int s =
     (let signed = (s \<noteq> [] \<and> (hd s = 0x2B \<or> hd s = 0x2D));
          ds = (if signed then tl s else s);
          v = (if signed \<and> hd s = 0x2D then - int (digits_val ds) else int (digits_val ds))
      in if ds = [] \<or> \<not> list_all is_digit ds \<or> \<not> int64 v then None else Some v)"

text \<open>
  \<open>TerminalHandler\<close> up to the upgrade: an answer with its status code, or the server to serve. \<open>valid\<close>
  is \<open>auth.ValidateToken\<close>, \<open>load\<close> the query of \<open>loadConnectionServer\<close>, nothing for a failed query and
  for a missing row alike.
\<close>

datatype 'r handled = Answer nat js_string | Serve 'r

definition terminal_handler ::
    "(js_string \<Rightarrow> bool) \<Rightarrow> (int \<Rightarrow> 'r option) \<Rightarrow> js_string \<Rightarrow> js_string \<Rightarrow> 'r handled" where
  "terminal_handler valid load param token =
     (case go_parse_int param of
        None \<Rightarrow> Answer 400 (js ''invalid server id'')
      | Some sid \<Rightarrow>
          if sid \<le> 0 then Answer 400 (js ''invalid server id'')
          else if \<not> valid token then Answer 401 (js ''invalid token'')
          else (case load sid of
              None \<Rightarrow> Answer 404 (js ''server not found'')
            | Some r \<Rightarrow> Serve r))"

lemma go_parse_int_digits: "int64 (int n) \<Longrightarrow> go_parse_int (nat_digits n) = Some (int n)"
proof -
  have "is_digit (hd (nat_digits n))"
    using nat_digits_are_digits [of n] by simp
  then have "hd (nat_digits n) \<noteq> 0x2B" "hd (nat_digits n) \<noteq> 0x2D"
    by (auto simp: is_digit_def word_le_nat_alt)
  then show "int64 (int n) \<Longrightarrow> go_parse_int (nat_digits n) = Some (int n)"
    using nat_digits_are_digits [of n] by (simp add: go_parse_int_def Let_def list_all_iff)
qed

section \<open>State\<close>

datatype shell_phase = Dialing | Opening | Running | Returned

datatype stream = Stdout | Stderr

text \<open>
  \<open>phase\<close> is where \<open>runTerminal\<close> itself is, \<open>cancelled\<close> whether its context is done, \<open>reading\<close> and
  \<open>taking\<close> the goroutines that read the socket and that serve the input channel, \<open>inbox\<close> the channel.
  \<open>stdin\<close> and \<open>windows\<close> are what the shell received, \<open>to_browser\<close> the frames written to the socket.
\<close>

record shell =
  phase :: shell_phase
  cancelled :: bool
  reading :: bool
  taking :: bool
  out_open :: bool
  err_open :: bool
  opened :: bool
  inbox :: "bytes list"
  stdin :: bytes
  windows :: "(int \<times> int) list"
  to_browser :: "bytes list"

definition init_shell :: shell where
  "init_shell =
     \<lparr>phase = Dialing, cancelled = False, reading = True, taking = False, out_open = False,
      err_open = False, opened = False, inbox = [], stdin = [], windows = [], to_browser = []\<rparr>"

definition max_terminal_message :: nat where
  "max_terminal_message = 64 * 1024"

definition terminal_input_queue :: nat where
  "terminal_input_queue = 32"

definition cancel :: "shell \<Rightarrow> shell" where
  "cancel s = s\<lparr>cancelled := True\<rparr>"

text \<open>\<open>return\<close> from \<open>runTerminal\<close>: the deferred calls close the socket and cancel the context.\<close>

definition returned :: "shell \<Rightarrow> shell" where
  "returned s = s\<lparr>phase := Returned, cancelled := True\<rparr>"

section \<open>Writing to the browser\<close>

definition send_typed :: "8 word \<Rightarrow> bytes \<Rightarrow> bool \<Rightarrow> shell \<Rightarrow> shell" where
  "send_typed kind payload ok s = (if ok then s\<lparr>to_browser := to_browser s @ [kind # payload]\<rparr> else s)"

definition stream_byte :: "stream \<Rightarrow> 8 word" where
  "stream_byte st = (case st of Stdout \<Rightarrow> 0x00 | Stderr \<Rightarrow> 0x01)"

definition stream_open :: "stream \<Rightarrow> shell \<Rightarrow> bool" where
  "stream_open st s = (case st of Stdout \<Rightarrow> out_open s | Stderr \<Rightarrow> err_open s)"

text \<open>A stream's goroutine ends; with the last one the context is cancelled.\<close>

definition end_stream :: "stream \<Rightarrow> shell \<Rightarrow> shell" where
  "end_stream st s =
     (let s1 = (case st of Stdout \<Rightarrow> s\<lparr>out_open := False\<rparr> | Stderr \<Rightarrow> s\<lparr>err_open := False\<rparr>)
      in if \<not> out_open s1 \<and> \<not> err_open s1 then cancel s1 else s1)"

text \<open>One \<open>Read\<close> of \<open>pumpTerminalOutput\<close>: data, and whether writing it to the browser succeeded.\<close>

definition stream_data :: "stream \<Rightarrow> bytes \<Rightarrow> bool \<Rightarrow> shell \<Rightarrow> shell" where
  "stream_data st data ok s =
     (if \<not> stream_open st s \<or> data = [] \<or> 8192 < length data then s
      else if ok then send_typed (stream_byte st) data True s
      else cancel (end_stream st s))"

definition stream_ends :: "stream \<Rightarrow> bool \<Rightarrow> shell \<Rightarrow> shell" where
  "stream_ends st eof s =
     (if \<not> stream_open st s then s
      else if eof then end_stream st s else cancel (end_stream st s))"

section \<open>Reading the socket\<close>

datatype ws_kind = Ws_Text | Ws_Binary

definition stop_reading :: "shell \<Rightarrow> shell" where
  "stop_reading s = cancel (s\<lparr>reading := False\<rparr>)"

text \<open>
  One round of \<open>readTerminalInput\<close>. A message over the read limit is an error of the read. When the
  channel has room and the context is done, \<open>pick\<close> says which case \<open>select\<close> takes.
\<close>

definition read_message :: "ws_kind \<Rightarrow> bytes \<Rightarrow> bool \<Rightarrow> shell \<Rightarrow> shell" where
  "read_message kind msg pick s =
     (if \<not> reading s then s
      else if max_terminal_message < length msg then stop_reading s
      else if kind \<noteq> Ws_Binary \<or> msg = [] then s
      else if length (inbox s) < terminal_input_queue \<and> (\<not> cancelled s \<or> pick)
        then s\<lparr>inbox := inbox s @ [msg]\<rparr>
      else stop_reading s)"

section \<open>Serving the input\<close>

definition stop_taking :: "shell \<Rightarrow> shell" where
  "stop_taking s = cancel (s\<lparr>taking := False\<rparr>)"

text \<open>
  The goroutine that serves the channel takes one message. The shell's pipe accepts \<open>n\<close> bytes of a
  write, and a write that accepts fewer than it was given is an error; \<open>ok\<close> is false when the call
  fails for another reason.
\<close>

definition take_message :: "nat \<Rightarrow> bool \<Rightarrow> shell \<Rightarrow> shell" where
  "take_message n ok s0 =
     (case inbox s0 of
        [] \<Rightarrow> s0
      | msg # rest \<Rightarrow>
          if \<not> taking s0 then s0
          else
            (let s = s0\<lparr>inbox := rest\<rparr>
             in (case msg of
                  [] \<Rightarrow> s
                | t # payload \<Rightarrow>
                    if t = 0x00 then
                      (let s1 = s\<lparr>stdin := stdin s @ take n payload\<rparr>
                       in if n < length payload \<or> \<not> ok then stop_taking s1 else s1)
                    else if t = 0x01 then
                      (case unmarshal_size payload of
                         None \<Rightarrow> stop_taking s
                       | Some (c, r) \<Rightarrow>
                           if \<not> valid_window c r \<or> \<not> ok then stop_taking s
                           else s\<lparr>windows := windows s @ [(c, r)]\<rparr>)
                    else stop_taking s)))"

section \<open>The main goroutine\<close>

definition dial_failed :: js_string where
  "dial_failed = js ''SSH connection failed: ''"

definition session_failed :: js_string where
  "session_failed = js ''SSH session failed: ''"

text \<open>The dial ends, with an error text or a client.\<close>

definition dial_result :: "bytes option \<Rightarrow> bool \<Rightarrow> shell \<Rightarrow> shell" where
  "dial_result err ok s =
     (if phase s \<noteq> Dialing then s
      else (case err of
          Some e \<Rightarrow> returned (send_typed 0x02 (text_encode dial_failed @ e) ok s)
        | None \<Rightarrow> s\<lparr>phase := Opening\<rparr>))"

text \<open>
  The session ends, or is there: then the browser is told, and the goroutines start. \<open>host\<close> is the JSON
  text of the server's host.
\<close>

definition confirmation :: "bytes \<Rightarrow> bytes" where
  "confirmation host =
     text_encode (js ''{\"cols\":80,\"host\":'') @ host @ text_encode (js '',\"rows\":24}'')"

definition session_result :: "bytes option \<Rightarrow> bytes \<Rightarrow> bool \<Rightarrow> shell \<Rightarrow> shell" where
  "session_result err host ok s =
     (if phase s \<noteq> Opening then s
      else (case err of
          Some e \<Rightarrow> returned (send_typed 0x02 (text_encode session_failed @ e) ok s)
        | None \<Rightarrow>
            (let s1 = send_typed 0x04 (confirmation host) ok (s\<lparr>opened := True\<rparr>)
             in if \<not> ok then returned s1
                else s1\<lparr>phase := Running, taking := True, out_open := True, err_open := True\<rparr>)))"

section \<open>Events\<close>

datatype shell_event =
    Dial_Result "bytes option" bool
  | Session_Result "bytes option" bytes bool
  | Ws_Message ws_kind bytes bool
  | Ws_Read_Error
  | Ping_Error
  | Parent_Done
  | Stream_Data stream bytes bool
  | Stream_Ends stream bool
  | Take_Message nat bool
  | Take_Done
  | Main_Done

fun shell_step :: "shell \<Rightarrow> shell_event \<Rightarrow> shell" where
  "shell_step s (Dial_Result err ok) = dial_result err ok s"
| "shell_step s (Session_Result err host ok) = session_result err host ok s"
| "shell_step s (Ws_Message kind msg pick) = read_message kind msg pick s"
| "shell_step s Ws_Read_Error = (if reading s then stop_reading s else s)"
| "shell_step s Ping_Error = cancel s"
| "shell_step s Parent_Done = cancel s"
| "shell_step s (Stream_Data st data ok) = stream_data st data ok s"
| "shell_step s (Stream_Ends st eof) = stream_ends st eof s"
| "shell_step s (Take_Message n ok) = take_message n ok s"
| "shell_step s Take_Done = (if taking s \<and> cancelled s then s\<lparr>taking := False\<rparr> else s)"
| "shell_step s Main_Done = (if phase s = Running \<and> cancelled s then returned s else s)"

section \<open>The invariant\<close>

definition before_session :: "shell \<Rightarrow> bool" where
  "before_session s \<longleftrightarrow> phase s = Dialing \<or> phase s = Opening"

definition shell_inv :: "shell \<Rightarrow> bool" where
  "shell_inv s \<longleftrightarrow>
     length (inbox s) \<le> terminal_input_queue \<and>
     (\<forall>f \<in> set (inbox s). f \<noteq> [] \<and> length f \<le> max_terminal_message) \<and>
     (\<not> cancelled s \<longrightarrow> reading s \<and> phase s \<noteq> Returned \<and> (phase s = Running \<longrightarrow> taking s)) \<and>
     (before_session s \<longrightarrow> \<not> opened s) \<and>
     (\<not> opened s \<longrightarrow> \<not> taking s \<and> \<not> out_open s \<and> \<not> err_open s \<and> stdin s = [] \<and> windows s = [] \<and>
        outputs_of (to_browser s) = []) \<and>
     (\<forall>f \<in> set (to_browser s). f \<noteq> [] \<and> (hd f = 0x04 \<longrightarrow> opened s))"

lemma init_shell_inv: "shell_inv init_shell"
  by (simp add: shell_inv_def init_shell_def before_session_def)

lemma send_typed_fields [simp]:
  "phase (send_typed k p ok s) = phase s" "cancelled (send_typed k p ok s) = cancelled s"
  "reading (send_typed k p ok s) = reading s" "taking (send_typed k p ok s) = taking s"
  "out_open (send_typed k p ok s) = out_open s" "err_open (send_typed k p ok s) = err_open s"
  "opened (send_typed k p ok s) = opened s" "inbox (send_typed k p ok s) = inbox s"
  "stdin (send_typed k p ok s) = stdin s" "windows (send_typed k p ok s) = windows s"
  "to_browser (send_typed k p ok s) = to_browser s @ (if ok then [k # p] else [])"
  by (simp_all add: send_typed_def)

lemma end_stream_fields [simp]:
  "phase (end_stream st s) = phase s" "reading (end_stream st s) = reading s"
  "taking (end_stream st s) = taking s" "opened (end_stream st s) = opened s"
  "inbox (end_stream st s) = inbox s" "stdin (end_stream st s) = stdin s"
  "windows (end_stream st s) = windows s" "to_browser (end_stream st s) = to_browser s"
  by (cases st; auto simp: end_stream_def Let_def cancel_def split: if_splits)+

lemma stream_open_opened: "shell_inv s \<Longrightarrow> stream_open st s \<Longrightarrow> opened s"
  by (cases st) (auto simp: shell_inv_def stream_open_def)

text \<open>The small changes the operations are made of.\<close>

lemma shell_inv_moves:
  assumes "shell_inv s"
  shows "shell_inv (cancel s)" "shell_inv (stop_taking s)" "shell_inv (stop_reading s)"
    "shell_inv (returned s)" "inbox s = f # fs \<Longrightarrow> shell_inv (s\<lparr>inbox := fs\<rparr>)"
    "opened s \<Longrightarrow> shell_inv (s\<lparr>stdin := b\<rparr>)" "opened s \<Longrightarrow> shell_inv (s\<lparr>windows := ws\<rparr>)"
  using assms
  by (simp_all add: shell_inv_def before_session_def cancel_def stop_taking_def stop_reading_def
    returned_def)

lemma send_typed_inv:
  "shell_inv s \<Longrightarrow> k \<noteq> 0x04 \<Longrightarrow> opened s \<or> k = 0x02 \<Longrightarrow> shell_inv (send_typed k p ok s)"
  by (cases "opened s"; cases ok)
    (simp_all add: shell_inv_def before_session_def send_typed_def output_frame_def, blast+)

lemma end_stream_inv: "shell_inv s \<Longrightarrow> shell_inv (end_stream st s)"
  by (cases st) (auto simp: shell_inv_def before_session_def end_stream_def Let_def cancel_def)

lemma take_message_inv: "shell_inv s \<Longrightarrow> shell_inv (take_message n ok s)"
proof (cases "inbox s")
  case (Cons f fs)
  assume s: "shell_inv s"
  let ?s = "s\<lparr>inbox := fs\<rparr>"
  have i: "shell_inv ?s" "taking s \<Longrightarrow> opened ?s"
    using s shell_inv_moves(5) [OF s Cons] by (auto simp: shell_inv_def)
  show ?thesis
  proof (cases "taking s")
    case True
    note m = shell_inv_moves(6,7) [OF i(1) i(2) [OF True]]
    show ?thesis
      unfolding take_message_def Cons Let_def
      using m shell_inv_moves(2) [OF i(1)] shell_inv_moves(2) [OF m(1)] i(1) True
      by (simp split: list.split option.split)
  qed (use s Cons in \<open>simp add: take_message_def\<close>)
qed (simp add: take_message_def)

lemma read_message_inv: "shell_inv s \<Longrightarrow> shell_inv (read_message k m b s)"
proof -
  assume s: "shell_inv s"
  have "shell_inv (s\<lparr>inbox := inbox s @ [m]\<rparr>)"
    if "m \<noteq> []" "length m \<le> max_terminal_message" "length (inbox s) < terminal_input_queue"
    using s that by (simp add: shell_inv_def before_session_def)
  then show ?thesis
    using s shell_inv_moves(3) [OF s] by (simp add: read_message_def)
qed

lemma dial_result_inv: "shell_inv s \<Longrightarrow> shell_inv (dial_result err ok s)"
proof -
  assume s: "shell_inv s"
  then have "shell_inv (returned (send_typed 2 p ok s))" for p
    by (intro shell_inv_moves(4) send_typed_inv) auto
  moreover have "phase s = Dialing \<Longrightarrow> shell_inv (s\<lparr>phase := Opening\<rparr>)"
    using s by (auto simp: shell_inv_def before_session_def)
  ultimately show ?thesis
    using s by (simp add: dial_result_def split: option.split)
qed

lemma session_result_inv: "shell_inv s \<Longrightarrow> shell_inv (session_result err host ok s)"
proof -
  assume s: "shell_inv s"
  then have "shell_inv (returned (send_typed 2 p ok s))" for p
    by (intro shell_inv_moves(4) send_typed_inv) auto
  moreover have "shell_inv (returned (send_typed 4 p ok (s\<lparr>opened := True\<rparr>)))"
    "shell_inv ((send_typed 4 p ok (s\<lparr>opened := True\<rparr>))
      \<lparr>phase := Running, taking := True, out_open := True, err_open := True\<rparr>)"
    if "phase s = Opening" for p
    using s that by (auto simp: shell_inv_def before_session_def returned_def)
  ultimately show ?thesis
    using s unfolding session_result_def Let_def by (cases ok) (simp_all split: option.split)
qed

lemma stream_data_inv: "shell_inv s \<Longrightarrow> shell_inv (stream_data st d ok s)"
proof -
  assume s: "shell_inv s"
  have "shell_inv (send_typed (stream_byte st) d True s)" if "stream_open st s"
    using send_typed_inv [OF s] stream_open_opened [OF s that] by (cases st) (auto simp: stream_byte_def)
  then show ?thesis
    using s by (simp add: stream_data_def shell_inv_moves(1) end_stream_inv)
qed

lemma stream_ends_inv: "shell_inv s \<Longrightarrow> shell_inv (stream_ends st eof s)"
  by (simp add: stream_ends_def shell_inv_moves(1) end_stream_inv)

lemma shell_step_inv: "shell_inv s \<Longrightarrow> shell_inv (shell_step s e)"
proof (cases e)
  case Take_Done
  assume "shell_inv s"
  then show ?thesis
    using Take_Done by (simp add: shell_inv_def before_session_def)
qed (simp_all add: take_message_inv read_message_inv dial_result_inv session_result_inv
      stream_data_inv stream_ends_inv shell_inv_moves)

interpretation server: machine shell_step shell_inv
  by unfold_locales (rule shell_step_inv)

section \<open>Sizes\<close>

lemma go_text_encode: "well_formed s \<Longrightarrow> go_text (text_encode s) = s"
  by (simp add: go_text_def text_encode_def utf8_points_encode code_points_scalar units_code_points)

lemma field_names [simp]:
  "names_field (js ''cols'') (js ''cols'')" "names_field (js ''rows'') (js ''rows'')"
  "\<not> names_field (js ''rows'') (js ''cols'')"
  by (simp_all add: names_field_def fold_unit_def js_def of_char_def)

lemma unmarshal_resize_frame:
  assumes "int64 (int c)" "int64 (int r)"
  shows "unmarshal_size (tl (resize_frame c r)) = Some (int c, int r)"
proof -
  have "go_text (tl (resize_frame c r)) = json_pair (js ''cols'') c (js ''rows'') r"
    by (simp add: resize_frame_def go_text_encode [OF ascii_well_formed] size_text_ascii)
  then show ?thesis
    using assms size_keys by (simp add: unmarshal_size_def json_pair_round_trip)
qed

lemma length_nat_digits: "n < 10 ^ Suc k \<Longrightarrow> length (nat_digits n) \<le> Suc k"
proof (induction k arbitrary: n)
  case 0
  then show ?case
    by (subst nat_digits.simps) simp
next
  case (Suc k)
  then have "n div 10 < 10 ^ Suc k"
    by (simp add: less_mult_imp_div_less)
  from Suc.IH [OF this] show ?case
    by (subst nat_digits.simps) simp
qed

lemma length_resize_frame:
  assumes "int64 (int c)" "int64 (int r)"
  shows "length (resize_frame c r) \<le> 58"
proof -
  have "length (nat_digits n) \<le> 19" if "int64 (int n)" for n
  proof -
    have "int n < 2 ^ 63"
      using that by (simp add: int64_def)
    then have "n < 2 ^ 63"
      by (metis of_nat_less_iff of_nat_numeral of_nat_power)
    then have "n < 10 ^ Suc 18"
      by simp
    from length_nat_digits [OF this] show ?thesis
      by simp
  qed
  then have d: "length (nat_digits c) \<le> 19" "length (nat_digits r) \<le> 19"
    using assms by blast+
  have "length (resize_frame c r) = Suc (length (json_pair (js ''cols'') c (js ''rows'') r))"
    unfolding resize_frame_def text_encode_ascii [OF size_text_ascii] by simp
  then show ?thesis
    using d by (simp add: json_pair_def js_def)
qed

section \<open>The stream of input\<close>

text \<open>
  The shell has absorbed the bytes \<open>p\<close> of the messages read so far: what it received is a prefix of
  them, and what is still in the channel continues that prefix for as long as somebody may take it.
\<close>

definition served :: "shell \<Rightarrow> bool" where
  "served s \<longleftrightarrow> before_session s \<or> taking s"

definition absorbs :: "bytes \<Rightarrow> shell \<Rightarrow> bool" where
  "absorbs p s \<longleftrightarrow>
     prefix (stdin s) p \<and>
     (served s \<longrightarrow> prefix (stdin s @ stdin_of (inbox s)) p) \<and>
     (served s \<and> reading s \<longrightarrow> stdin s @ stdin_of (inbox s) = p)"

definition read_bytes :: "shell_event \<Rightarrow> bytes" where
  "read_bytes e = (case e of Ws_Message Ws_Binary m _ \<Rightarrow> stdin_of [m] | _ \<Rightarrow> [])"

lemma absorbs_more: "absorbs p s \<Longrightarrow> \<not> reading s \<Longrightarrow> absorbs (p @ q) s"
  by (auto simp: absorbs_def prefix_append)

lemma absorbs_fields:
  "absorbs p s \<Longrightarrow> stdin t = stdin s \<Longrightarrow> inbox t = inbox s \<Longrightarrow> (served t \<Longrightarrow> served s) \<Longrightarrow>
   (reading t \<Longrightarrow> reading s) \<Longrightarrow> absorbs p t"
  by (auto simp: absorbs_def)

lemma take_message_absorbs:
  assumes "shell_inv s" "absorbs p s"
  shows "absorbs p (take_message n ok s)"
proof (cases "taking s \<and> inbox s \<noteq> []")
  case True
  then obtain t payload fs where i: "inbox s = (t # payload) # fs"
    using assms(1) by (cases "inbox s") (auto simp: shell_inv_def neq_Nil_conv)
  have p: "prefix (stdin s @ stdin_of ((t # payload) # fs)) p"
    and q: "reading s \<longrightarrow> stdin s @ stdin_of ((t # payload) # fs) = p"
    and r: "\<not> before_session s"
    using assms True i by (auto simp: absorbs_def served_def shell_inv_def)
  have pre: "prefix (stdin s @ take n payload) p" if "t = 0"
  proof -
    have "prefix (take n payload) (payload @ stdin_of fs)"
      by (simp add: take_is_prefix prefix_prefix)
    then have "prefix (stdin s @ take n payload) (stdin s @ stdin_of ((t # payload) # fs))"
      using that by simp
    then show ?thesis
      using p by (rule prefix_order.trans)
  qed
  have s: "prefix (stdin s) p"
    using p by (metis append_prefixD)
  have stop: "absorbs p (stop_taking t)"
    if "prefix (stdin t) p" "phase t = phase s" for t
    using that r by (simp add: absorbs_def served_def before_session_def stop_taking_def cancel_def)
  have go: "absorbs p t"
    if "prefix (stdin t @ stdin_of (inbox t)) p" "reading t = reading s" "taking t" "phase t = phase s"
      "reading s \<Longrightarrow> stdin t @ stdin_of (inbox t) = p" for t
    using that append_prefixD [OF that(1)] by (simp add: absorbs_def)
  show ?thesis
  proof (cases "t = 0")
    case True
    have "absorbs p (s\<lparr>inbox := fs, stdin := stdin s @ take n payload\<rparr>)" if "length payload \<le> n"
      using that p q True \<open>taking s \<and> inbox s \<noteq> []\<close> by (intro go) auto
    then show ?thesis
      using True pre \<open>taking s \<and> inbox s \<noteq> []\<close> i
      by (auto simp: take_message_def Let_def intro!: stop)
  next
    case False
    have "absorbs p (s\<lparr>inbox := fs, windows := w\<rparr>)" for w
      using p q False \<open>taking s \<and> inbox s \<noteq> []\<close> by (intro go) auto
    then show ?thesis
      using False s \<open>taking s \<and> inbox s \<noteq> []\<close> i
      by (auto simp: take_message_def Let_def intro!: stop split: option.split)
  qed
qed (use assms in \<open>auto simp: take_message_def split: list.split\<close>)

lemma read_message_absorbs:
  "absorbs p s \<Longrightarrow> absorbs (p @ (if k = Ws_Binary then stdin_of [m] else [])) (read_message k m b s)"
proof -
  assume a: "absorbs p s"
  have z: "absorbs (p @ q) (stop_reading s)" for q
    using absorbs_more [OF absorbs_fields [OF a, of "stop_reading s"]]
    by (simp add: stop_reading_def cancel_def served_def before_session_def)
  moreover have "absorbs (p @ stdin_of [m]) (s\<lparr>inbox := inbox s @ [m]\<rparr>)" if "reading s"
    using a that by (auto simp: absorbs_def served_def before_session_def prefix_append)
  ultimately show ?thesis
    using a absorbs_more [OF a] z z [of "[]"] by (cases k) (auto simp: read_message_def)
qed

lemma shell_step_absorbs:
  assumes "shell_inv s" "absorbs p s"
  shows "absorbs (p @ read_bytes e) (shell_step s e)"
proof (cases e)
  case (Ws_Message k m b)
  then show ?thesis
    using read_message_absorbs [OF assms(2), of k m b] by (cases k) (simp_all add: read_bytes_def)
next
  case (Take_Message n ok)
  then show ?thesis
    using take_message_absorbs [OF assms] by (simp add: read_bytes_def)
qed (use assms in \<open>auto simp: read_bytes_def dial_result_def session_result_def stream_data_def
    stream_ends_def stop_reading_def returned_def cancel_def Let_def served_def before_session_def
    elim!: absorbs_fields split: option.split\<close>)

lemma init_shell_absorbs: "absorbs [] init_shell"
  by (simp add: absorbs_def init_shell_def)

text \<open>While the session lives, nothing that was read is missing.\<close>

lemma live_absorbs:
  "shell_inv s \<Longrightarrow> absorbs p s \<Longrightarrow> \<not> cancelled s \<Longrightarrow> stdin s @ stdin_of (inbox s) = p"
  by (cases "phase s") (auto simp: shell_inv_def absorbs_def served_def before_session_def)

end
