(* ===== verification/End_To_End.thy ===== *)
theory End_To_End
  imports Terminal_Server Terminal_Properties
begin

text \<open>
  A terminal from the keyboard to the shell: the hook in the browser, the handler on the server, and
  the socket between one of the hook's connections and it.

  The socket delivers, in each direction, the messages it was given in the order they were given, or
  stops; that is all that is assumed of it. Everything else that may happen at either end happens at any
  time: all events of the hook, except that the frames of this connection are those the server wrote,
  and all events of the server, except that the messages it reads are those the connection sent.
\<close>

section \<open>The composition\<close>

record link =
  hook :: terminal_hook
  shell :: shell
  frames_up :: nat
  frames_down :: nat

datatype link_event =
    Browser terminal_event
  | Backend shell_event
  | Deliver_Up bool
  | Deliver_Down "(nat \<times> nat) option"

definition init_link :: "terminal_hook \<Rightarrow> link" where
  "init_link h = \<lparr>hook = h, shell = init_shell, frames_up = 0, frames_down = 0\<rparr>"

definition message_for :: "nat \<Rightarrow> terminal_event \<Rightarrow> bool" where
  "message_for j e \<longleftrightarrow> (case e of Message i _ _ \<Rightarrow> i = j | _ \<Rightarrow> False)"

definition is_ws_message :: "shell_event \<Rightarrow> bool" where
  "is_ws_message e \<longleftrightarrow> (case e of Ws_Message _ _ _ \<Rightarrow> True | _ \<Rightarrow> False)"

text \<open>What the hook sees of an event: at most one event of its own.\<close>

definition hook_event :: "nat \<Rightarrow> link \<Rightarrow> link_event \<Rightarrow> terminal_event list" where
  "hook_event j l e =
     (case e of
        Browser te \<Rightarrow> if message_for j te then [] else [te]
      | Deliver_Down fit \<Rightarrow>
          (case conns (hook l) j of
             None \<Rightarrow> []
           | Some c \<Rightarrow>
               if ready_state (sock c) = Ws_Open \<and> frames_down l < length (to_browser (shell l))
               then [Message j (Binary_Data (to_browser (shell l) ! frames_down l)) fit] else [])
      | _ \<Rightarrow> [])"

text \<open>And what the server sees.\<close>

definition server_event :: "nat \<Rightarrow> link \<Rightarrow> link_event \<Rightarrow> shell_event list" where
  "server_event j l e =
     (case e of
        Backend se \<Rightarrow> if is_ws_message se then [] else [se]
      | Deliver_Up pick \<Rightarrow>
          (case conns (hook l) j of
             None \<Rightarrow> []
           | Some c \<Rightarrow>
               if frames_up l < length (sent (sock c)) then [Ws_Message Ws_Binary (sent (sock c) ! frames_up l) pick]
               else [])
      | _ \<Rightarrow> [])"

definition link_step :: "nat \<Rightarrow> link \<Rightarrow> link_event \<Rightarrow> link" where
  "link_step j l e =
     \<lparr>hook = run terminal_step (hook l) (hook_event j l e),
      shell = run shell_step (shell l) (server_event j l e),
      frames_up = (case e of Deliver_Up _ \<Rightarrow> frames_up l + length (server_event j l e) | _ \<Rightarrow> frames_up l),
      frames_down = (case e of Deliver_Down _ \<Rightarrow> frames_down l + length (hook_event j l e) | _ \<Rightarrow> frames_down l)\<rparr>"

fun hook_events :: "nat \<Rightarrow> link \<Rightarrow> link_event list \<Rightarrow> terminal_event list" where
  "hook_events j l [] = []"
| "hook_events j l (e # es) = hook_event j l e @ hook_events j (link_step j l e) es"

lemma hook_run: "hook (run (link_step j) l es) = run terminal_step (hook l) (hook_events j l es)"
  by (induction es arbitrary: l) (simp_all add: run_append link_step_def)

section \<open>The invariant\<close>

text \<open>
  What the server has read are the first \<open>frames_up\<close> frames the connection sent; what the terminal shows are
  the output frames among the first \<open>frames_down\<close> the server wrote, all of them while the connection lives; and
  a confirmed connection was confirmed by one of those.
\<close>

definition conn_link :: "link \<Rightarrow> bool \<Rightarrow> connection \<Rightarrow> bool" where
  "conn_link l current c \<longleftrightarrow>
     queue_ok c \<and> (\<forall>f \<in> set (sent (sock c)). client_frame f) \<and> frames_up l \<le> length (sent (sock c)) \<and>
     absorbs (stdin_of (take (frames_up l) (sent (sock c)))) (shell l) \<and>
     prefix (written (xterm c)) (outputs_of (take (frames_down l) (to_browser (shell l)))) \<and>
     (current \<and> \<not> failed c \<longrightarrow> written (xterm c) = outputs_of (take (frames_down l) (to_browser (shell l)))) \<and>
     (connected c \<longrightarrow> opened (shell l))"

definition link_inv :: "nat \<Rightarrow> link \<Rightarrow> bool" where
  "link_inv j l \<longleftrightarrow>
     hook_inv (hook l) \<and> shell_inv (shell l) \<and> frames_down l \<le> length (to_browser (shell l)) \<and>
     (case conns (hook l) j of
        None \<Rightarrow> frames_up l = 0 \<and> frames_down l = 0 \<and> absorbs [] (shell l)
      | Some c \<Rightarrow> conn_link l (generation (hook l) = j) c)"

section \<open>Every step keeps it\<close>

lemma shell_step_grows:
  "\<exists>fs. to_browser (shell_step s e) = to_browser s @ fs" "opened s \<Longrightarrow> opened (shell_step s e)"
proof -
  have "(\<exists>fs. to_browser (take_message n ok s) = to_browser s @ fs) \<and>
      (opened s \<longrightarrow> opened (take_message n ok s))" for n ok
    by (auto simp: take_message_def stop_taking_def cancel_def Let_def split: list.split option.split)
  then have "(\<exists>fs. to_browser (shell_step s e) = to_browser s @ fs) \<and> (opened s \<longrightarrow> opened (shell_step s e))"
    by (cases e) (auto simp: dial_result_def session_result_def read_message_def stream_data_def
        stream_ends_def stop_reading_def returned_def cancel_def Let_def split: option.split)
  then show "\<exists>fs. to_browser (shell_step s e) = to_browser s @ fs" "opened s \<Longrightarrow> opened (shell_step s e)"
    by blast+
qed

lemma conn_link_wire:
  assumes "conn_link l b c" "wire c c'" "b' \<Longrightarrow> b"
    and "shell l' = shell l" "frames_up l' = frames_up l" "frames_down l' = frames_down l"
  shows "conn_link l' b' c'"
proof -
  have w: "extends c c'" "written (xterm c') = written (xterm c)" "connected c' \<longrightarrow> connected c"
    using assms(1,2) by (auto simp: conn_link_def wire_def)
  obtain fs where fs: "sent (sock c') = sent (sock c) @ fs" "\<forall>f \<in> set fs. client_frame f"
    "queue_ok c'" "failed c \<longrightarrow> failed c'"
    using w(1) by (auto simp: extends_def)
  have "take (frames_up l) (sent (sock c')) = take (frames_up l) (sent (sock c))"
    using assms(1) fs(1) by (simp add: conn_link_def)
  then show ?thesis
    using assms fs w(2,3) unfolding conn_link_def by auto
qed

lemma conn_link_fresh:
  "fresh c \<Longrightarrow> absorbs [] (shell l) \<Longrightarrow> frames_up l = 0 \<Longrightarrow> frames_down l = 0 \<Longrightarrow> conn_link l b c"
  by (simp add: conn_link_def fresh_def queue_ok_def)

lemma conn_link_shell:
  assumes "conn_link l b c" "shell_inv (shell l)" "frames_down l \<le> length (to_browser (shell l))"
    and "read_bytes e = []" "shell l' = shell_step (shell l) e" "frames_up l' = frames_up l" "frames_down l' = frames_down l"
  shows "conn_link l' b c"
proof -
  obtain fs where "to_browser (shell l') = to_browser (shell l) @ fs"
    using shell_step_grows(1) [of "shell l" e] assms(5) by auto
  then have "take (frames_down l') (to_browser (shell l')) = take (frames_down l) (to_browser (shell l))"
    using assms(3,7) by simp
  moreover have "absorbs (stdin_of (take (frames_up l') (sent (sock c)))) (shell l')"
    using shell_step_absorbs [OF assms(2), of _ e] assms by (fastforce simp: conn_link_def)
  ultimately show ?thesis
    using assms(1) shell_step_grows(2) [of "shell l" e] assms(5-7) by (auto simp: conn_link_def)
qed

lemma conn_link_up:
  assumes "conn_link l b c" "shell_inv (shell l)" "frames_up l < length (sent (sock c))"
    and "shell l' = shell_step (shell l) (Ws_Message Ws_Binary (sent (sock c) ! frames_up l) pick)"
    and "frames_down l \<le> length (to_browser (shell l))" "frames_up l' = Suc (frames_up l)" "frames_down l' = frames_down l"
  shows "conn_link l' b c"
proof -
  let ?e = "Ws_Message Ws_Binary (sent (sock c) ! frames_up l) pick"
  obtain fs where "to_browser (shell l') = to_browser (shell l) @ fs"
    using shell_step_grows(1) [of "shell l" ?e] assms(4) by auto
  then have "take (frames_down l') (to_browser (shell l')) = take (frames_down l) (to_browser (shell l))"
    using assms(5,7) by simp
  moreover have "absorbs (stdin_of (take (frames_up l') (sent (sock c)))) (shell l')"
    using shell_step_absorbs [OF assms(2), of "stdin_of (take (frames_up l) (sent (sock c)))" ?e] assms
    by (simp add: conn_link_def take_Suc_conv_app_nth read_bytes_def del: shell_step.simps)
  ultimately show ?thesis
    using assms(1,3) shell_step_grows(2) [of "shell l" ?e] assms(4-7) by (auto simp: conn_link_def)
qed

lemma current_before:
  "hook_inv h \<Longrightarrow> conns h j = Some c \<Longrightarrow> generation (terminal_step h e) = j \<Longrightarrow> generation h = j"
  using hook_inv_conns_le [of h j] terminal_generation_mono [of h e] by fastforce

lemma browser_step_inv:
  assumes "link_inv j l" "\<not> message_for j e"
    and "l' = l\<lparr>hook := terminal_step (hook l) e\<rparr>"
  shows "link_inv j l'"
proof (cases "conns (hook l) j")
  case (Some c)
  have h: "hook_inv (hook l)" and cl: "conn_link l (generation (hook l) = j) c"
    using assms(1) Some by (auto simp: link_inv_def)
  have "\<exists>c'. conns (terminal_step (hook l) e) j = Some c' \<and> wire c c'"
  proof (cases "is_message e")
    case True
    then show ?thesis
      using assms(2) on_message_other [OF _ Some]
      by (cases e) (auto simp: is_message_def message_for_def)
  next
    case False
    then show ?thesis
      using step_wire [OF h _ Some] by blast
  qed
  then obtain c' where c': "conns (hook l') j = Some c'" "wire c c'"
    using assms(3) by auto
  have "conn_link l' (generation (hook l') = j) c'"
    by (rule conn_link_wire [OF cl c'(2)]) (use assms(3) current_before [OF h Some] in auto)
  then show ?thesis
    using assms(1,3) c'(1) terminal_step_inv [OF h] by (simp add: link_inv_def)
next
  case None
  have h: "hook_inv (hook l)"
    using assms(1) by (simp add: link_inv_def)
  have "conn_link l' b c'" if "conns (hook l') j = Some c'" for c' b
    using step_fresh [OF h None] that assms(1,3) None
    by (intro conn_link_fresh) (auto simp: link_inv_def)
  then show ?thesis
    using assms(1,3) None terminal_step_inv [OF h] by (simp add: link_inv_def split: option.split)
qed

lemma deliver_down_inv:
  assumes "link_inv j l" "conns (hook l) j = Some c" "frames_down l < length (to_browser (shell l))"
    and "l' = l\<lparr>hook := on_message j (Binary_Data (to_browser (shell l) ! frames_down l)) fit (hook l),
      frames_down := Suc (frames_down l)\<rparr>"
  shows "link_inv j l'"
proof -
  let ?f = "to_browser (shell l) ! frames_down l"
  have h: "hook_inv (hook l)" and s: "shell_inv (shell l)" and cl: "conn_link l (generation (hook l) = j) c"
    using assms(1,2) by (auto simp: link_inv_def)
  obtain c' where c': "conns (hook l') j = Some c'" "extends c c'"
    "written (xterm c') = written (xterm c) @
      (if generation (hook l) = j \<and> \<not> failed c then outputs_of [?f] else [])"
    "connected c' \<longrightarrow> connected c \<or> ?f \<noteq> [] \<and> hd ?f = 0x04"
    using on_message_receives [OF assms(2), of ?f fit] cl assms(4) by (auto simp: conn_link_def)
  obtain fs where fs: "sent (sock c') = sent (sock c) @ fs" "\<forall>f \<in> set fs. client_frame f"
    "queue_ok c'" "failed c \<longrightarrow> failed c'"
    using c'(2) by (auto simp: extends_def)
  have "take (frames_up l) (sent (sock c')) = take (frames_up l) (sent (sock c))"
    using cl fs(1) by (simp add: conn_link_def)
  moreover have "take (frames_down l') (to_browser (shell l')) = take (frames_down l) (to_browser (shell l)) @ [?f]"
    using assms(3,4) by (simp add: take_Suc_conv_app_nth)
  moreover have "hd ?f = 0x04 \<Longrightarrow> opened (shell l)"
    using s nth_mem [OF assms(3)] unfolding shell_inv_def by blast
  moreover have "hook_inv (hook l')"
    using on_message_inv [OF h] assms(4) by simp
  moreover have "generation (hook l') = generation (hook l)"
    using assms(4) by simp
  ultimately have "conn_link l' (generation (hook l') = j) c'"
    using cl c' fs assms(4) unfolding conn_link_def by (auto simp: prefix_append)
  then show ?thesis
    using assms(1,3,4) c'(1) \<open>hook_inv (hook l')\<close> by (simp add: link_inv_def)
qed

lemma backend_step_inv:
  assumes "link_inv j l" "\<not> is_ws_message e" "l' = l\<lparr>shell := shell_step (shell l) e\<rparr>"
  shows "link_inv j l'"
proof -
  have s: "shell_inv (shell l)" and r: "read_bytes e = []" and d: "frames_down l \<le> length (to_browser (shell l))"
    using assms(1,2) by (auto simp: link_inv_def is_ws_message_def read_bytes_def split: shell_event.splits)
  obtain fs where "to_browser (shell l') = to_browser (shell l) @ fs"
    using shell_step_grows(1) [of "shell l" e] assms(3) by auto
  moreover have "absorbs [] (shell l) \<Longrightarrow> absorbs [] (shell l')"
    using shell_step_absorbs [OF s, of "[]" e] r assms(3) by simp
  moreover have "conn_link l b c \<Longrightarrow> conn_link l' b c" for b c
    using conn_link_shell [OF _ s d r, of b c l'] assms(3) by simp
  ultimately show ?thesis
    using assms(1,3) shell_step_inv [OF s] by (auto simp: link_inv_def split: option.splits)
qed

lemma deliver_up_inv:
  assumes "link_inv j l" "conns (hook l) j = Some c" "frames_up l < length (sent (sock c))"
    and "l' = l\<lparr>shell := read_message Ws_Binary (sent (sock c) ! frames_up l) pick (shell l), frames_up := Suc (frames_up l)\<rparr>"
  shows "link_inv j l'"
proof -
  let ?e = "Ws_Message Ws_Binary (sent (sock c) ! frames_up l) pick"
  have s: "shell_inv (shell l)" and d: "frames_down l \<le> length (to_browser (shell l))"
    and cl: "conn_link l (generation (hook l) = j) c"
    using assms(1,2) by (auto simp: link_inv_def)
  obtain fs where "to_browser (shell l') = to_browser (shell l) @ fs"
    using shell_step_grows(1) [of "shell l" ?e] assms(4) by auto
  moreover have "conn_link l' (generation (hook l) = j) c"
    using conn_link_up [OF cl s assms(3), of l' pick] assms(4) d by simp
  moreover have "shell_inv (shell l')"
    using shell_step_inv [OF s, of ?e] assms(4) by simp
  ultimately show ?thesis
    using assms(1,2,4) by (auto simp: link_inv_def)
qed

lemma link_same [simp]:
  "\<lparr>hook = hook l, shell = shell l, frames_up = frames_up l, frames_down = frames_down l\<rparr> = l"
  by (cases l) simp

lemma link_step_simps:
  "link_step j l (Browser te) =
     (if message_for j te then l else l\<lparr>hook := terminal_step (hook l) te\<rparr>)"
  "link_step j l (Backend se) =
     (if is_ws_message se then l else l\<lparr>shell := shell_step (shell l) se\<rparr>)"
  "link_step j l (Deliver_Up pick) =
     (case conns (hook l) j of
        None \<Rightarrow> l
      | Some c \<Rightarrow>
          if frames_up l < length (sent (sock c)) then
            l\<lparr>shell := read_message Ws_Binary (sent (sock c) ! frames_up l) pick (shell l),
              frames_up := Suc (frames_up l)\<rparr>
          else l)"
  "link_step j l (Deliver_Down fit) =
     (case conns (hook l) j of
        None \<Rightarrow> l
      | Some c \<Rightarrow>
          if ready_state (sock c) = Ws_Open \<and> frames_down l < length (to_browser (shell l)) then
            l\<lparr>hook := on_message j (Binary_Data (to_browser (shell l) ! frames_down l)) fit (hook l),
              frames_down := Suc (frames_down l)\<rparr>
          else l)"
  by (simp_all add: link_step_def hook_event_def server_event_def split: option.split)

lemma link_step_inv: "link_inv j l \<Longrightarrow> link_inv j (link_step j l e)"
  by (cases e)
    (auto simp: link_step_simps intro: browser_step_inv backend_step_inv deliver_up_inv deliver_down_inv
      split: option.split)

interpretation ends: machine "link_step j" "link_inv j"
  by unfold_locales (rule link_step_inv)

lemma init_link_inv: "hook_inv h \<Longrightarrow> conns h j = None \<Longrightarrow> link_inv j (init_link h)"
  by (simp add: link_inv_def init_link_def init_shell_inv init_shell_absorbs)

end
