(* ===== verification/Shell_Properties.thy ===== *)
theory Shell_Properties
  imports End_To_End
begin

text \<open>
  The contract of a terminal, an abstract pipe, and the proof that the browser's hook and the server's
  handler together implement it; then what follows for the person at the keyboard.
\<close>

section \<open>The abstract pipe\<close>

text \<open>
  Text is typed; once there is a session the shell receives some of it, in order and without gaps, and
  produces output, which is shown in order and without gaps; a terminal is confirmed only over a session.
\<close>

record pipe =
  typed_in :: bytes
  received :: bytes
  produced :: "bytes list"
  shown :: "bytes list"
  session :: bool
  confirmed :: bool

definition empty_pipe :: pipe where
  "empty_pipe = \<lparr>typed_in = [], received = [], produced = [], shown = [], session = False,
     confirmed = False\<rparr>"

inductive pipe_step :: "pipe \<Rightarrow> pipe \<Rightarrow> bool" where
  type_text: "pipe_step p (p\<lparr>typed_in := typed_in p @ b\<rparr>)"
| start: "pipe_step p (p\<lparr>session := True\<rparr>)"
| receive: "session p \<Longrightarrow> prefix (received p @ b) (typed_in p) \<Longrightarrow>
    pipe_step p (p\<lparr>received := received p @ b\<rparr>)"
| produce: "session p \<Longrightarrow> pipe_step p (p\<lparr>produced := produced p @ fs\<rparr>)"
| display: "prefix (shown p @ fs) (produced p) \<Longrightarrow> pipe_step p (p\<lparr>shown := shown p @ fs\<rparr>)"
| confirm: "session p \<Longrightarrow> pipe_step p (p\<lparr>confirmed := True\<rparr>)"
| disconnect: "pipe_step p (p\<lparr>confirmed := False\<rparr>)"

definition pipe_ok :: "pipe \<Rightarrow> bool" where
  "pipe_ok p \<longleftrightarrow>
     prefix (received p) (typed_in p) \<and> prefix (shown p) (produced p) \<and>
     (confirmed p \<or> received p \<noteq> [] \<or> produced p \<noteq> [] \<longrightarrow> session p)"

lemma pipe_step_ok: "pipe_step p q \<Longrightarrow> pipe_ok p \<Longrightarrow> pipe_ok q"
  by (induction rule: pipe_step.induct) (auto simp: pipe_ok_def prefix_append)

lemma pipe_steps_ok: "pipe_step\<^sup>*\<^sup>* p q \<Longrightarrow> pipe_ok p \<Longrightarrow> pipe_ok q"
  by (induction rule: rtranclp_induct) (auto intro: pipe_step_ok)

lemma empty_pipe_ok: "pipe_ok empty_pipe"
  by (simp add: pipe_ok_def empty_pipe_def)

text \<open>Any two states that differ by growth within the contract are connected by steps.\<close>

lemma pipe_grows:
  assumes "typed_in q = typed_in p @ b" "received q = received p @ r" "produced q = produced p @ fs"
    and "shown q = shown p @ gs" "session p \<longrightarrow> session q" "pipe_ok q"
    and "r \<noteq> [] \<or> fs \<noteq> [] \<longrightarrow> session q"
  shows "pipe_step\<^sup>*\<^sup>* p q"
proof -
  let ?p1 = "p\<lparr>typed_in := typed_in q\<rparr>"
  let ?p2 = "?p1\<lparr>session := session q\<rparr>"
  let ?p3 = "?p2\<lparr>received := received q\<rparr>"
  let ?p4 = "?p3\<lparr>produced := produced q\<rparr>"
  let ?p5 = "?p4\<lparr>shown := shown q\<rparr>"
  let ?p6 = "?p5\<lparr>confirmed := confirmed q\<rparr>"
  have s: "pipe_step\<^sup>*\<^sup>* p ?p1"
    using type_text [of p b] assms(1) by (simp add: r_into_rtranclp)
  have "session q \<or> ?p2 = ?p1"
    using assms(5) by (cases p) auto
  then have "pipe_step\<^sup>*\<^sup>* ?p1 ?p2"
    using start [of ?p1] by (cases "session q") (auto intro!: r_into_rtranclp)
  with s have s: "pipe_step\<^sup>*\<^sup>* p ?p2"
    by (rule rtranclp_trans)
  have "pipe_step\<^sup>*\<^sup>* ?p2 ?p3"
    using receive [of ?p2 r] assms(2,6,7) by (cases "r = []") (auto simp: pipe_ok_def intro!: r_into_rtranclp)
  with s have s: "pipe_step\<^sup>*\<^sup>* p ?p3"
    by (rule rtranclp_trans)
  have "pipe_step\<^sup>*\<^sup>* ?p3 ?p4"
    using produce [of ?p3 fs] assms(3,7) by (cases "fs = []") (auto intro!: r_into_rtranclp)
  with s have s: "pipe_step\<^sup>*\<^sup>* p ?p4"
    by (rule rtranclp_trans)
  have "pipe_step\<^sup>*\<^sup>* ?p4 ?p5"
    using display [of ?p4 gs] assms(4,6) by (auto simp: pipe_ok_def intro!: r_into_rtranclp)
  with s have s: "pipe_step\<^sup>*\<^sup>* p ?p5"
    by (rule rtranclp_trans)
  have "pipe_step\<^sup>*\<^sup>* ?p5 ?p6"
    using confirm [of ?p5] disconnect [of ?p5] assms(6)
    by (cases "confirmed q") (auto simp: pipe_ok_def intro!: r_into_rtranclp)
  with s have "pipe_step\<^sup>*\<^sup>* p ?p6"
    by (rule rtranclp_trans)
  moreover have "?p6 = q"
    by (cases p; cases q) simp
  ultimately show ?thesis
    by simp
qed

section \<open>The implementation\<close>

definition shown_by :: "nat \<Rightarrow> terminal_hook \<Rightarrow> bytes list" where
  "shown_by j h = (case conns h j of None \<Rightarrow> [] | Some c \<Rightarrow> written (xterm c))"

definition confirmed_by :: "nat \<Rightarrow> terminal_hook \<Rightarrow> bool" where
  "confirmed_by j h = (case conns h j of None \<Rightarrow> False | Some c \<Rightarrow> connected c)"

text \<open>The pipe that the two ends of connection \<open>j\<close> make, when \<open>p\<close> was typed so far.\<close>

definition pipe_of :: "nat \<Rightarrow> bytes \<Rightarrow> link \<Rightarrow> pipe" where
  "pipe_of j p l =
     \<lparr>typed_in = p, received = stdin (shell l), produced = outputs_of (to_browser (shell l)),
      shown = shown_by j (hook l), session = opened (shell l), confirmed = confirmed_by j (hook l)\<rparr>"

lemma prefix_take: "prefix (outputs_of (take n fs)) (outputs_of fs)"
  using outputs_of_simps(2) [of "take n fs" "drop n fs"] by (metis append_take_drop_id prefixI)

lemma stdin_of_prefix: "prefix (stdin_of (take n fs)) (stdin_of fs)"
  using stdin_of_simps(3) [of "take n fs" "drop n fs"] by (metis append_take_drop_id prefixI)

lemma pipe_of_ok:
  assumes "link_inv j l" "channel j p (hook l)"
  shows "pipe_ok (pipe_of j p l)"
proof (cases "conns (hook l) j")
  case (Some c)
  have cl: "conn_link l (generation (hook l) = j) c"
    using assms(1) Some by (simp add: link_inv_def)
  have "prefix (stdin (shell l)) (stdin_of (take (frames_up l) (sent (sock c))))"
    using cl by (simp add: conn_link_def absorbs_def)
  also have "prefix \<dots> (stdin_of (sent (sock c)))"
    by (rule stdin_of_prefix)
  also have "prefix \<dots> p"
    using assms(2) Some by (simp add: channel_def carries_def delivered_def)
  finally have "prefix (stdin (shell l)) p" .
  moreover have "prefix (written (xterm c)) (outputs_of (to_browser (shell l)))"
    using cl prefix_take by (auto simp: conn_link_def intro: prefix_order.trans)
  ultimately show ?thesis
    using cl assms(1) Some
    by (auto simp: pipe_ok_def pipe_of_def shown_by_def confirmed_by_def conn_link_def link_inv_def
        shell_inv_def)
next
  case None
  then show ?thesis
    using assms(1)
    by (auto simp: pipe_ok_def pipe_of_def shown_by_def confirmed_by_def link_inv_def shell_inv_def
        absorbs_def)
qed

lemma shell_step_stdin: "prefix (stdin s) (stdin (shell_step s e))"
proof -
  have "prefix (stdin s) (stdin (take_message n ok s))" for n ok
    by (auto simp: take_message_def stop_taking_def cancel_def Let_def split: list.split option.split)
  then show ?thesis
    by (cases e) (auto simp: dial_result_def session_result_def read_message_def stream_data_def
        stream_ends_def stop_reading_def returned_def cancel_def Let_def split: option.split)
qed

lemma shell_run_grows:
  "prefix (stdin s) (stdin (run shell_step s es))"
  "\<exists>fs. to_browser (run shell_step s es) = to_browser s @ fs"
  "opened s \<Longrightarrow> opened (run shell_step s es)"
proof (induction es arbitrary: s)
  case (Cons e es)
  case 1
  then show ?case
    using Cons(1) [of "shell_step s e"] prefix_order.trans [OF shell_step_stdin] by simp
  case 2
  then show ?case
    using Cons(2) [of "shell_step s e"] shell_step_grows(1) [of s e] by auto
  case 3
  then show ?case
    using Cons(3) [of "shell_step s e"] shell_step_grows(2) [of s e] by simp
qed simp_all

lemma hook_step_shown:
  assumes "hook_inv h" "\<And>c. conns h j = Some c \<Longrightarrow> queue_ok c"
    and "message_for j e \<Longrightarrow> \<exists>f fit. e = Message j (Binary_Data f) fit"
  shows "prefix (shown_by j h) (shown_by j (terminal_step h e))"
proof (cases "conns h j")
  case (Some c)
  have "\<exists>c'. conns (terminal_step h e) j = Some c' \<and> prefix (written (xterm c)) (written (xterm c'))"
  proof (cases "message_for j e")
    case True
    then obtain f fit where e: "e = Message j (Binary_Data f) fit"
      using assms(3) by blast
    show ?thesis
      using on_message_receives [OF Some assms(2) [OF Some], of f fit] e by auto
  next
    case False
    have "\<exists>c'. conns (terminal_step h e) j = Some c' \<and> wire c c'"
    proof (cases "is_message e")
      case True
      then show ?thesis
        using on_message_other [OF _ Some] False by (cases e) (auto simp: is_message_def message_for_def)
    qed (rule step_wire [OF assms(1) _ Some])
    then show ?thesis
      using assms(2) [OF Some] by (auto simp: wire_def)
  qed
  then show ?thesis
    using Some by (auto simp: shown_by_def)
qed (simp add: shown_by_def)

lemma hook_event_cases:
  "hook_event j l e = [] \<or>
   (\<exists>te. hook_event j l e = [te] \<and> (message_for j te \<longrightarrow> (\<exists>f fit. te = Message j (Binary_Data f) fit)))"
  by (auto simp: hook_event_def message_for_def split: link_event.split option.split)

lemma link_step_shown:
  "link_inv j l \<Longrightarrow> prefix (shown_by j (hook l)) (shown_by j (hook (link_step j l e)))"
proof -
  assume i: "link_inv j l"
  then have h: "hook_inv (hook l)" and q: "conns (hook l) j = Some c \<Longrightarrow> queue_ok c" for c
    by (auto simp: link_inv_def conn_link_def)
  show ?thesis
    using hook_event_cases [of j l e]
  proof (elim disjE exE conjE)
    fix te
    assume te: "hook_event j l e = [te]"
      "message_for j te \<longrightarrow> (\<exists>f fit. te = Message j (Binary_Data f) fit)"
    have "prefix (shown_by j (hook l)) (shown_by j (terminal_step (hook l) te))"
      using te(2) by (intro hook_step_shown [OF h q]) simp_all
    then show ?thesis
      using te(1) by (simp add: link_step_def)
  qed (simp add: link_step_def)
qed

lemma link_step_channel:
  assumes "link_inv j l" "channel j p (hook l)"
  shows "channel j (p @ typed j (hook l) (hook_event j l e)) (hook (link_step j l e))"
  using run_channel [OF _ assms(2), of "hook_event j l e"] assms(1)
  by (simp add: link_inv_def link_step_def)

text \<open>One step of the two ends is some steps of the pipe.\<close>

lemma link_step_refines:
  assumes "link_inv j l" "channel j p (hook l)"
  shows "pipe_step\<^sup>*\<^sup>* (pipe_of j p l)
    (pipe_of j (p @ typed j (hook l) (hook_event j l e)) (link_step j l e))"
proof -
  let ?s = "shell l" and ?s' = "shell (link_step j l e)"
  have s': "?s' = run shell_step ?s (server_event j l e)"
    by (simp add: link_step_def)
  obtain r where r: "stdin ?s' = stdin ?s @ r"
    using shell_run_grows(1) [of ?s "server_event j l e"] unfolding s' by (auto elim: prefixE)
  obtain fs where f: "to_browser ?s' = to_browser ?s @ fs"
    using shell_run_grows(2) [of ?s "server_event j l e"] unfolding s' by auto
  have o: "opened ?s \<Longrightarrow> opened ?s'"
    using shell_run_grows(3) [of ?s "server_event j l e"] unfolding s' .
  obtain gs where g: "shown_by j (hook (link_step j l e)) = shown_by j (hook l) @ gs"
    using link_step_shown [OF assms(1)] by (auto elim: prefixE)
  have inv: "shell_inv ?s'"
    using link_step_inv [OF assms(1)] by (simp add: link_inv_def)
  then have "r \<noteq> [] \<or> outputs_of fs \<noteq> [] \<Longrightarrow> opened ?s'"
    using r f by (auto simp: shell_inv_def)
  then show ?thesis
    using r f g o
    by (intro pipe_grows [OF _ _ _ _ _ pipe_of_ok [OF link_step_inv [OF assms(1)] link_step_channel [OF assms]]])
      (auto simp: pipe_of_def)
qed

lemma link_run_refines:
  assumes "link_inv j l" "channel j p (hook l)"
  shows "pipe_step\<^sup>*\<^sup>* (pipe_of j p l)
    (pipe_of j (p @ typed j (hook l) (hook_events j l es)) (run (link_step j) l es))"
  using assms
proof (induction es arbitrary: l p)
  case (Cons e es)
  have t: "typed j h (xs @ ys) = typed j h xs @ typed j (run terminal_step h xs) ys" for h xs ys
    by (induction xs arbitrary: h) simp_all
  show ?case
    using rtranclp_trans [OF link_step_refines [OF Cons.prems, of e]
        Cons.IH [OF link_step_inv [OF Cons.prems(1)] link_step_channel [OF Cons.prems]]]
    by (simp add: t link_step_def)
qed simp

section \<open>Sample run\<close>

text \<open>
  Connect, open, confirm over an established session, type \<open>ls\<close>, deliver it, and let the shell answer.
\<close>

definition sample_shell :: shell where
  "sample_shell =
     init_shell\<lparr>phase := Running, taking := True, out_open := True, err_open := True, opened := True,
       to_browser := [4 # confirmation [0x22, 0x68, 0x22]]\<rparr>"

definition sample_opening :: "link_event list" where
  "sample_opening =
     [Browser sample_connect, Browser (Env_Open 1), Backend (Dial_Result None True),
      Backend (Session_Result None [0x22, 0x68, 0x22] True), Deliver_Down None]"

definition sample_typing :: "link_event list" where
  "sample_typing =
     [Browser (Term_Data 1 (js ''ls'')), Deliver_Up True, Deliver_Up True,
      Backend (Take_Message 2 True), Backend (Take_Message 2 True),
      Backend (Stream_Data Stdout [0x61] True), Deliver_Down None]"

lemma confirmation_payload: "on_message i (Binary_Data (4 # p)) fit h = on_message i (Binary_Data [4]) fit h"
  by (simp add: on_message_def split: option.split)

lemmas sample_link_evaluation =
  link_step_simps message_for_def is_ws_message_def dial_result_def session_result_def read_message_def
  sample_shell_def init_shell_def max_terminal_message_def terminal_input_queue_def

lemma sample_opened:
  "run (link_step 1) (init_link sample_start) sample_opening =
     \<lparr>hook = run terminal_step sample_start sample_open, shell = sample_shell, frames_up = 0,
      frames_down = 1\<rparr>"
proof -
  have c: "conns (terminal_step (terminal_step sample_start sample_connect) (Env_Open 1)) 1
      = Some (sample_conn\<lparr>connected := False, timers := [], armed := [], next_timer := 1,
          sock := (sock sample_conn)\<lparr>buffered := 0, sent := []\<rparr>\<rparr>)"
    by (simp add: sample_start_def sample_connect_def sample_conn_def sample_sock_def sample_evaluation)
  have r: "ready_state (sock sample_conn) = Ws_Open"
    by (simp add: sample_conn_def sample_sock_def)
  show ?thesis
    using c r
    by (simp add: sample_opening_def sample_open_def sample_link_evaluation init_link_def
        sample_connect_def confirmation_payload [where p = "confirmation _"]
        del: terminal_step.simps(1) terminal_step.simps(16))
qed

text \<open>The state after the typing, step by step.\<close>

definition sample_shown :: terminal_hook where
  "sample_shown = (run terminal_step sample_start sample_ls)\<lparr>conns := [1 \<mapsto> sample_conn\<lparr>sock := sample_sent,
     xterm := (xterm sample_conn)\<lparr>written := [[0x61]]\<rparr>\<rparr>]\<rparr>"

definition sample_final :: link where
  "sample_final =
     \<lparr>hook = sample_shown,
      shell = sample_shell\<lparr>stdin := [0x6C, 0x73], windows := [(80, 24)],
        to_browser := [4 # confirmation [0x22, 0x68, 0x22], [0, 0x61]]\<rparr>,
      frames_up = 2, frames_down = 2\<rparr>"

lemma sample_facts_ls:
  "conns (run terminal_step sample_start sample_ls) 1 = Some (sample_conn\<lparr>sock := sample_sent\<rparr>)"
  "generation (run terminal_step sample_start sample_ls) = 1"
  "terminal_step (run terminal_step sample_start sample_open) (Term_Data 1 (js ''ls''))
     = run terminal_step sample_start sample_ls"
proof -
  show "terminal_step (run terminal_step sample_start sample_open) (Term_Data 1 (js ''ls''))
     = run terminal_step sample_start sample_ls"
    unfolding sample_ls_def run_append by simp
qed (simp_all add: sample_ls_run sample_run)

lemma sample_read:
  "read_message Ws_Binary (resize_frame 80 24) True sample_shell
     = sample_shell\<lparr>inbox := [resize_frame 80 24]\<rparr>"
  "read_message Ws_Binary [0, 0x6C, 0x73] True (sample_shell\<lparr>inbox := [resize_frame 80 24]\<rparr>)
     = sample_shell\<lparr>inbox := [resize_frame 80 24, [0, 0x6C, 0x73]]\<rparr>"
  by (simp_all add: read_message_def sample_shell_def init_shell_def max_terminal_message_def
      terminal_input_queue_def sample_size) (simp add: resize_frame_def)

lemma sample_take:
  "take_message 2 True (sample_shell\<lparr>inbox := [resize_frame 80 24, [0, 0x6C, 0x73]]\<rparr>)
     = sample_shell\<lparr>inbox := [[0, 0x6C, 0x73]], windows := [(80, 24)]\<rparr>"
  "take_message 2 True (sample_shell\<lparr>inbox := [[0, 0x6C, 0x73]], windows := [(80, 24)]\<rparr>)
     = sample_shell\<lparr>windows := [(80, 24)], stdin := [0x6C, 0x73]\<rparr>"
proof -
  have "unmarshal_size (tl (resize_frame 80 24)) = Some (80, 24)"
    using unmarshal_resize_frame [of 80 24] by (simp add: int64_def)
  moreover obtain p where "resize_frame 80 24 = 1 # p"
    by (simp add: resize_frame_def)
  ultimately show "take_message 2 True (sample_shell\<lparr>inbox := [resize_frame 80 24, [0, 0x6C, 0x73]]\<rparr>)
     = sample_shell\<lparr>inbox := [[0, 0x6C, 0x73]], windows := [(80, 24)]\<rparr>"
    by (simp add: take_message_def sample_shell_def init_shell_def valid_window_def)
  show "take_message 2 True (sample_shell\<lparr>inbox := [[0, 0x6C, 0x73]], windows := [(80, 24)]\<rparr>)
     = sample_shell\<lparr>windows := [(80, 24)], stdin := [0x6C, 0x73]\<rparr>"
    by (simp add: take_message_def sample_shell_def init_shell_def)
qed

lemma sample_final_run:
  "run (link_step 1) (init_link sample_start) (sample_opening @ sample_typing) = sample_final"
proof -
  have s: "sent (sock (sample_conn\<lparr>sock := sample_sent\<rparr>)) = [resize_frame 80 24, [0, 0x6C, 0x73]]"
    "ready_state sample_sent = Ws_Open"
    by (simp_all add: sample_sent_def sample_sock_def)
  have m: "on_message 1 (Binary_Data [0, 0x61]) None (run terminal_step sample_start sample_ls) = sample_shown"
    using sample_facts_ls
    by (simp add: on_message_def write_term_def sample_shown_def put_conn_def sample_conn_def sample_ls_run)
  have d: "stream_data Stdout [0x61] True (sample_shell\<lparr>windows := [(80, 24)], stdin := [0x6C, 0x73]\<rparr>)
      = shell sample_final"
    by (simp add: stream_data_def stream_open_def sample_shell_def sample_final_def send_typed_def stream_byte_def)
  show ?thesis
    unfolding run_append sample_opened
    using s m d sample_read sample_take sample_facts_ls
    by (simp add: sample_typing_def link_step_simps message_for_def is_ws_message_def sample_final_def
        del: One_nat_def)
qed

section \<open>Properties\<close>

lemma start_link_inv: "link_inv j (init_link (init_hook sid fs th a))"
  by (rule init_link_inv [OF init_hook_inv]) (simp add: init_hook_def)

lemma start_channel: "channel j [] (hook (init_link (init_hook sid fs th a)))"
  by (simp add: channel_def init_link_def init_hook_def)

lemma start_pipe: "pipe_of j [] (init_link (init_hook sid fs th a)) = empty_pipe"
  by (simp add: pipe_of_def empty_pipe_def init_link_def init_shell_def shown_by_def confirmed_by_def
      init_hook_def)

lemma hook_init_link [simp]: "hook (init_link h) = h"
  by (simp add: init_link_def)

lemma reached_pipe:
  "pipe_ok (pipe_of j (typed j (init_hook sid fs th a) (hook_events j (init_link (init_hook sid fs th a)) es))
     (run (link_step j) (init_link (init_hook sid fs th a)) es))"
  using pipe_steps_ok [OF link_run_refines [OF start_link_inv start_channel, where j = j and es = es]]
    empty_pipe_ok
  by (simp add: start_pipe)




text \<open>
  A terminal is confirmed only over a session: a connection counts as connected, and the hook
  shows it so, only if the server established an SSH session for it; and before that the shell received
  nothing.
\<close>

lemma confirmed_only_over_a_session:
  assumes "l = run (link_step j) (init_link (init_hook sid fs th a)) es"
  shows "(\<forall>c. conns (hook l) j = Some c \<and> connected c \<longrightarrow> opened (shell l))
    \<and> (status (hook l) = Status_Connected \<and> ws_ref (hook l) = Some j \<longrightarrow> opened (shell l))
    \<and> (opened (shell l) \<or> stdin (shell l) = [] \<and> windows (shell l) = [])"
proof -
  have i: "link_inv j l"
    using ends.run_inv [OF start_link_inv] assms by simp
  then have c: "\<forall>c. conns (hook l) j = Some c \<and> connected c \<longrightarrow> opened (shell l)"
    by (auto simp: link_inv_def conn_link_def)
  moreover have "status (hook l) = Status_Connected \<and> ws_ref (hook l) = Some j \<longrightarrow> opened (shell l)"
    using i c unfolding link_inv_def hook_inv_def refs_ok_def by auto
  moreover have "opened (shell l) \<or> stdin (shell l) = [] \<and> windows (shell l) = []"
    using i by (auto simp: link_inv_def shell_inv_def)
  ultimately show ?thesis
    by blast
qed

text \<open>
  The server serves every frame the hook sends: a frame of a connection is input, and goes to
  the shell byte for byte when its pipe accepts it, or it is the frame of a size, and then the shell's
  window gets exactly that size, except that a size beyond 1000 columns or rows ends the session.
\<close>

lemma the_server_serves_every_frame:
  assumes "l = run (link_step j) (init_link (init_hook sid fs th a)) es"
    and "conns (hook l) j = Some c" and "f \<in> set (sent (sock c))"
    and "taking s" and "inbox s = f # rest" and "length f \<le> n"
  shows "length f \<le> max_terminal_message
      \<and> (\<exists>b. f = 0 # b \<and> take_message n True s = s\<lparr>inbox := rest, stdin := stdin s @ b\<rparr>)
    \<or> (\<exists>w h. f = resize_frame w h
        \<and> (int64 (int w) \<and> int64 (int h) \<longrightarrow>
             length f \<le> max_terminal_message \<and>
             take_message n True s =
               (if 1 \<le> w \<and> w \<le> 1000 \<and> 1 \<le> h \<and> h \<le> 1000
                then s\<lparr>inbox := rest, windows := windows s @ [(int w, int h)]\<rparr>
                else stop_taking (s\<lparr>inbox := rest\<rparr>))))"
proof -
  have "link_inv j l"
    using ends.run_inv [OF start_link_inv] assms(1) by simp
  then have "client_frame f"
    using assms(2,3) by (simp add: link_inv_def conn_link_def)
  then consider "stdin_frame f" | w h where "f = resize_frame w h"
    unfolding client_frame_def by blast
  then show ?thesis
  proof cases
    case 1
    then obtain b where b: "f = 0 # b" "length f \<le> max_terminal_message"
      by (cases f) (auto simp: stdin_frame_def input_chunk_bytes_def max_terminal_message_def)
    then show ?thesis
      using assms(4-6) by (intro disjI1) (auto simp: take_message_def Let_def)
  next
    case 2
    have "take_message n True s =
        (if 1 \<le> w \<and> w \<le> 1000 \<and> 1 \<le> h \<and> h \<le> 1000
         then s\<lparr>inbox := rest, windows := windows s @ [(int w, int h)]\<rparr>
         else stop_taking (s\<lparr>inbox := rest\<rparr>))" if "int64 (int w)" "int64 (int h)"
    proof -
      obtain q where q: "f = 1 # q" "q = tl (resize_frame w h)"
        using 2 by (simp add: resize_frame_def)
      then show ?thesis
        using assms(4,5) unmarshal_resize_frame [OF that]
        by (auto simp: take_message_def Let_def valid_window_def)
    qed
    moreover have "length f \<le> max_terminal_message" if "int64 (int w)" "int64 (int h)"
      using length_resize_frame [OF that] 2 by (simp add: max_terminal_message_def)
    ultimately show ?thesis
      using 2 by blast
  qed
qed

text \<open>
  A browser cannot make the server hold more than 2 MiB of input: in every run of the handler
  the channel holds at most 32 messages, none over 64 KiB; and one more message than it has room for ends
  the session instead of blocking the reader.
\<close>

lemma server_input_is_bounded:
  "length (inbox (run shell_step init_shell es)) \<le> 32
   \<and> sum_list (map length (inbox (run shell_step init_shell es))) \<le> 2 * 1024 * 1024
   \<and> (length (inbox (run shell_step init_shell es)) = 32 \<and> reading (run shell_step init_shell es) \<and> m \<noteq> []
      \<longrightarrow> (let s = shell_step (run shell_step init_shell es) (Ws_Message Ws_Binary m pick)
          in cancelled s \<and> \<not> reading s \<and> inbox s = inbox (run shell_step init_shell es)))"
proof -
  let ?s = "run shell_step init_shell es"
  have i: "shell_inv ?s"
    by (rule server.run_inv [OF init_shell_inv])
  then have l: "length (inbox ?s) \<le> 32" and m: "\<forall>f \<in> set (inbox ?s). length f \<le> 65536"
    by (auto simp: shell_inv_def terminal_input_queue_def max_terminal_message_def)
  have "sum_list (map length (inbox ?s)) \<le> sum_list (map (\<lambda>_. 65536) (inbox ?s))"
    using m by (intro sum_list_mono) auto
  also have "\<dots> = length (inbox ?s) * 65536"
    by (simp add: sum_list_triv)
  also have "\<dots> \<le> 2 * 1024 * 1024"
    using l by simp
  finally show ?thesis
    using l by (auto simp: read_message_def stop_reading_def cancel_def terminal_input_queue_def Let_def)
qed

text \<open>
  The handler opens a session only for a valid token and a stored server: every other request
  is answered with an error, a malformed or non-positive id before the token is even looked at; and the
  id the hook writes into its address is the one the handler reads.
\<close>

lemma sessions_need_a_token:
  "(terminal_handler valid load param token = Serve r
    \<longleftrightarrow> (\<exists>sid. go_parse_int param = Some sid \<and> 0 < sid \<and> valid token \<and> load sid = Some r))
   \<and> (\<not> valid token \<longrightarrow> (\<exists>msg. terminal_handler valid load param token = Answer 400 msg
        \<or> terminal_handler valid load param token = Answer 401 msg))
   \<and> (0 < sid \<and> int64 sid \<and> valid token \<and> load sid = Some r
      \<longrightarrow> terminal_handler valid load (int_digits sid) token = Serve r)"
proof -
  have "go_parse_int (int_digits sid) = Some sid" if "0 < sid" "int64 sid" for sid
    using that go_parse_int_digits [of "nat sid"] by (simp add: int_digits_def)
  then show ?thesis
    by (auto simp: terminal_handler_def split: option.split)
qed

section \<open>Witnesses\<close>

lemma sample_is_run:
  "sample_final = run (link_step 1) (init_link (init_hook 7 14 [] True)) (sample_opening @ sample_typing)"
  using sample_final_run by (simp add: sample_start_def)

lemma sample_conn_final:
  "conns (hook sample_final) 1 = Some (sample_conn\<lparr>sock := sample_sent,
     xterm := (xterm sample_conn)\<lparr>written := [[0x61]]\<rparr>\<rparr>)"
  by (simp add: sample_final_def sample_shown_def)



lemma confirmed_only_over_a_session_witness: "opened (shell sample_final)"
  using confirmed_only_over_a_session [OF sample_is_run] sample_conn_final
  by (auto simp: sample_conn_def)

lemma the_server_serves_every_frame_witness:
  "take_message 2000 True (sample_shell\<lparr>inbox := [[0, 0x6C, 0x73]]\<rparr>)
     = sample_shell\<lparr>stdin := [0x6C, 0x73]\<rparr>"
  using the_server_serves_every_frame [OF sample_is_run sample_conn_final,
      of "[0, 0x6C, 0x73]" "sample_shell\<lparr>inbox := [[0, 0x6C, 0x73]]\<rparr>" "[]" 2000]
  by (auto simp: sample_sent_def sample_shell_def init_shell_def resize_frame_def)

lemma sample_fill:
  "n \<le> 32 \<Longrightarrow> run shell_step init_shell (replicate n (Ws_Message Ws_Binary [0] True))
     = init_shell\<lparr>inbox := replicate n [0]\<rparr>"
proof (induction n)
  case (Suc n)
  then have "run shell_step init_shell (replicate n (Ws_Message Ws_Binary [0] True))
      = init_shell\<lparr>inbox := replicate n [0]\<rparr>"
    by simp
  then show ?case
    unfolding replicate_Suc replicate_append_same [symmetric] run_append
    using Suc.prems
    by (simp add: read_message_def init_shell_def max_terminal_message_def terminal_input_queue_def)
qed (simp add: init_shell_def)

lemma server_input_is_bounded_witness:
  "cancelled (shell_step (init_shell\<lparr>inbox := replicate 32 [0]\<rparr>) (Ws_Message Ws_Binary [0] True))"
  using server_input_is_bounded [of "replicate 32 (Ws_Message Ws_Binary [0] True)" "[0]" True]
  unfolding sample_fill [OF order_refl]
  by (simp add: Let_def init_shell_def del: shell_step.simps)

lemma sessions_need_a_token_witness:
  "terminal_handler (\<lambda>t. t = js ''t'') (\<lambda>i. if i = 7 then Some ''host'' else None) (int_digits 7) (js ''t'')
     = Serve ''host''"
  using sessions_need_a_token [of "\<lambda>t. t = js ''t''" "\<lambda>i. if i = 7 then Some ''host'' else None"
      "int_digits 7" "js ''t''" "''host''" 7]
  by (simp add: int64_def)

end
