(* ===== verification/Api.thy ===== *)
theory Api
  imports Browser Json "HOL-Library.AList"
begin

text \<open>
  The data the frontend exchanges with the server (\<open>types/index.ts\<close>) and the client of its API
  (\<open>api/client.ts\<close>, \<open>api/auth.ts\<close>, \<open>api/servers.ts\<close>, \<open>api/files.ts\<close>): the requests each call
  builds, the interceptor that adds the token, and the one that reacts to an expired session.

  The HTTP library is outside the repository: a call's outcome, a value or a rejection that may carry a
  response, is an argument of the definitions that react to it.
\<close>

section \<open>Data\<close>

datatype protocol = Ssh | Rdp

record server =
  sv_id :: int
  sv_protocol :: "protocol option"
  sv_rdp_domain :: "js_string option"
  sv_rdp_cert_fingerprint :: "js_string option"
  sv_name :: js_string
  sv_host_key :: js_string
  sv_host :: js_string
  sv_port :: int
  sv_username :: js_string
  sv_auth_type :: js_string
  sv_description :: js_string
  sv_group :: js_string
  sv_jump_server_id :: "int option"
  sv_created_at :: js_string
  sv_updated_at :: js_string

text \<open>A form as it is sent: a field the form never had is \<open>undefined\<close>, here \<open>None\<close>.\<close>

record server_form =
  sf_protocol :: "protocol option"
  sf_rdp_domain :: "js_string option"
  sf_rdp_cert_fingerprint :: "js_string option"
  sf_name :: "js_string option"
  sf_host_key :: "js_string option"
  sf_host :: "js_string option"
  sf_port :: "int option"
  sf_username :: "js_string option"
  sf_auth_type :: "js_string option"
  sf_private_key :: "js_string option"
  sf_password :: "js_string option"
  sf_copy_key_from :: "int option"
  sf_jump_server_id :: "int option"
  sf_group :: "js_string option"
  sf_description :: "js_string option"

record auth_status =
  as_initialized :: bool

record login_response =
  lr_token :: js_string
  lr_expires_at :: js_string
  lr_username :: js_string

record file_entry =
  fe_name :: js_string
  fe_size :: nat
  fe_mode :: js_string
  fe_mod_time :: js_string
  fe_is_dir :: bool
  fe_path :: js_string

section \<open>Requests\<close>

datatype http_method = Http_Get | Http_Post | Http_Put | Http_Delete

record upload =
  up_name :: js_string
  up_content :: bytes

datatype form_part = File_Part upload | Text_Part js_string

datatype request_body = No_Body | Json_Body json | Form_Body "(js_string \<times> form_part) list"

record request =
  rq_method :: http_method
  rq_path :: js_string
  rq_params :: "(js_string \<times> js_string) list"
  rq_headers :: "(js_string \<times> js_string) list"
  rq_body :: request_body
  rq_blob :: bool

definition base_url :: js_string where
  "base_url = js ''/api''"

definition call :: "http_method \<Rightarrow> js_string \<Rightarrow> request_body \<Rightarrow> request" where
  "call m p b = \<lparr>rq_method = m, rq_path = p, rq_params = [], rq_headers = [], rq_body = b, rq_blob = False\<rparr>"

definition get_auth_status :: request where
  "get_auth_status = call Http_Get (js ''/auth/status'') No_Body"

definition credentials :: "js_string \<Rightarrow> js_string \<Rightarrow> request_body" where
  "credentials user pass = Json_Body (JObj [(js ''username'', JStr user), (js ''password'', JStr pass)])"

definition setup_request :: "js_string \<Rightarrow> js_string \<Rightarrow> request" where
  "setup_request user pass = call Http_Post (js ''/auth/setup'') (credentials user pass)"

definition login_request :: "js_string \<Rightarrow> js_string \<Rightarrow> request" where
  "login_request user pass = call Http_Post (js ''/auth/login'') (credentials user pass)"

definition server_path :: "int \<Rightarrow> js_string" where
  "server_path i = js ''/servers/'' @ int_digits i"

definition protocol_name :: "protocol \<Rightarrow> js_string" where
  "protocol_name p = (case p of Ssh \<Rightarrow> js ''ssh'' | Rdp \<Rightarrow> js ''rdp'')"

text \<open>The JSON body of a form: fields that are \<open>undefined\<close> are left out; no jump server is \<open>null\<close>.\<close>

definition text_field :: "js_string \<Rightarrow> js_string option \<Rightarrow> (js_string \<times> json) list" where
  "text_field k v = (case v of None \<Rightarrow> [] | Some s \<Rightarrow> [(k, JStr s)])"

definition int_field :: "js_string \<Rightarrow> int option \<Rightarrow> (js_string \<times> json) list" where
  "int_field k v = (case v of None \<Rightarrow> [] | Some n \<Rightarrow> [(k, JInt n)])"

definition server_form_json :: "server_form \<Rightarrow> json" where
  "server_form_json f = JObj (
     text_field (js ''protocol'') (map_option protocol_name (sf_protocol f)) @
     text_field (js ''rdp_domain'') (sf_rdp_domain f) @
     text_field (js ''rdp_cert_fingerprint'') (sf_rdp_cert_fingerprint f) @
     text_field (js ''name'') (sf_name f) @ text_field (js ''host_key'') (sf_host_key f) @
     text_field (js ''host'') (sf_host f) @ int_field (js ''port'') (sf_port f) @
     text_field (js ''username'') (sf_username f) @ text_field (js ''auth_type'') (sf_auth_type f) @
     text_field (js ''private_key'') (sf_private_key f) @ text_field (js ''password'') (sf_password f) @
     int_field (js ''copy_key_from'') (sf_copy_key_from f) @
     [(js ''jump_server_id'', (case sf_jump_server_id f of None \<Rightarrow> JNull | Some i \<Rightarrow> JInt i))] @
     text_field (js ''group'') (sf_group f) @ text_field (js ''description'') (sf_description f))"

definition list_servers :: request where
  "list_servers = call Http_Get (js ''/servers'') No_Body"

definition get_server :: "int \<Rightarrow> request" where
  "get_server i = call Http_Get (server_path i) No_Body"

definition create_server :: "server_form \<Rightarrow> request" where
  "create_server f = call Http_Post (js ''/servers'') (Json_Body (server_form_json f))"

definition update_server :: "int \<Rightarrow> server_form \<Rightarrow> request" where
  "update_server i f = call Http_Put (server_path i) (Json_Body (server_form_json f))"

definition delete_server :: "int \<Rightarrow> request" where
  "delete_server i = call Http_Delete (server_path i) No_Body"

definition test_connection :: "int \<Rightarrow> request" where
  "test_connection i = call Http_Post (server_path i @ js ''/test'') No_Body"

definition files_path :: "int \<Rightarrow> js_string" where
  "files_path i = server_path i @ js ''/files''"

definition list_files :: "int \<Rightarrow> js_string \<Rightarrow> request" where
  "list_files i p = (call Http_Get (files_path i) No_Body)\<lparr>rq_params := [(js ''path'', p)]\<rparr>"

definition upload_file :: "int \<Rightarrow> js_string \<Rightarrow> upload \<Rightarrow> request" where
  "upload_file i dir f =
     (call Http_Post (files_path i @ js ''/upload'')
        (Form_Body [(js ''file'', File_Part f), (js ''path'', Text_Part dir)]))
       \<lparr>rq_headers := [(js ''Content-Type'', js ''multipart/form-data'')]\<rparr>"

definition download_file :: "int \<Rightarrow> js_string \<Rightarrow> request" where
  "download_file i p =
     (call Http_Get (files_path i @ js ''/download'') No_Body)
       \<lparr>rq_params := [(js ''path'', p)], rq_blob := True\<rparr>"

definition create_dir :: "int \<Rightarrow> js_string \<Rightarrow> request" where
  "create_dir i p =
     call Http_Post (files_path i @ js ''/mkdir'') (Json_Body (JObj [(js ''path'', JStr p)]))"

definition delete_file :: "int \<Rightarrow> js_string \<Rightarrow> request" where
  "delete_file i p = (call Http_Delete (files_path i) No_Body)\<lparr>rq_params := [(js ''path'', p)]\<rparr>"

section \<open>Interceptors\<close>

text \<open>The name \<open>opsup_token\<close> under which the token is stored.\<close>

definition client_token_key :: js_string where
  "client_token_key = js ''opsup_token''"

definition authorization :: js_string where
  "authorization = js ''Authorization''"

definition request_interceptor :: "storage \<Rightarrow> request \<Rightarrow> request" where
  "request_interceptor st rq =
     (case get_item st client_token_key of
        Some t \<Rightarrow> if truthy t
          then rq\<lparr>rq_headers := AList.update authorization (js ''Bearer '' @ t) (rq_headers rq)\<rparr>
          else rq
      | None \<Rightarrow> rq)"

text \<open>A rejection: with the response's status and data, when there was a response.\<close>

record http_error =
  response :: "(int \<times> json) option"

text \<open>The page: its storage, and the address it was told to load, if any.\<close>

record page =
  storage :: storage
  href :: "js_string option"

definition response_interceptor :: "http_error + 'a \<Rightarrow> page \<Rightarrow> page \<times> (http_error + 'a)" where
  "response_interceptor r b =
     (case r of
        Inr v \<Rightarrow> (b, Inr v)
      | Inl err \<Rightarrow>
          (if map_option fst (response err) = Some 401
           then b\<lparr>storage := remove_item client_token_key (storage b), href := Some (js ''/login'')\<rparr>
           else b, Inl err))"

text \<open>\<open>error.response?.data?.error || fallback\<close>, the message every handler shows.\<close>

definition error_detail :: "http_error \<Rightarrow> js_string \<Rightarrow> json" where
  "error_detail err fallback =
     (case response err of
        None \<Rightarrow> JStr fallback
      | Some (_, data) \<Rightarrow>
          (case json_prop data (js ''error'') of
             Some v \<Rightarrow> if json_truthy v then v else JStr fallback
           | None \<Rightarrow> JStr fallback))"

section \<open>Properties of the client\<close>

text \<open>
  Every request carries the stored token, and only that: with a non-empty token in storage the
  request that goes out has exactly that token as its bearer authorization, whatever header it had
  before; without one the request is unchanged. No other header, and nothing else of the request, is
  touched.
\<close>

lemma requests_carry_the_token:
  "map_of (rq_headers (request_interceptor st rq)) authorization
     = (if or_else (get_item st client_token_key) [] = [] then map_of (rq_headers rq) authorization
        else Some (js ''Bearer '' @ or_else (get_item st client_token_key) []))
   \<and> (map_of (rq_headers (request_interceptor st rq)))(authorization := None)
     = (map_of (rq_headers rq))(authorization := None)
   \<and> (request_interceptor st rq)\<lparr>rq_headers := []\<rparr> = rq\<lparr>rq_headers := []\<rparr>"
  by (auto simp: request_interceptor_def or_else_def truthy_def update_conv split: option.split)

text \<open>
  An expired session ends in one place: a rejection with status 401, and nothing else, removes
  the token from storage, leaves every other key, and sends the page to the login screen; the caller
  still gets the rejection, and every other outcome passes through without touching the page.
\<close>

lemma expired_session_ends_at_login:
  "snd (response_interceptor r b) = r
   \<and> (case r of
        Inl err \<Rightarrow>
          (if map_option fst (response err) = Some 401
           then get_item (storage (fst (response_interceptor r b))) client_token_key = None
             \<and> (\<forall>k. k = client_token_key
                  \<or> get_item (storage (fst (response_interceptor r b))) k = get_item (storage b) k)
             \<and> href (fst (response_interceptor r b)) = Some (js ''/login'')
           else fst (response_interceptor r b) = b)
      | Inr _ \<Rightarrow> fst (response_interceptor r b) = b)"
  by (auto simp: response_interceptor_def split: sum.split)

end
