(* ===== verification/Auth.thy ===== *)
theory Auth
  imports Api
begin

text \<open>
  Signing in: the authentication hook (\<open>hooks/useAuth.ts\<close>), the pages that use it
  (\<open>pages/LoginPage.tsx\<close>, \<open>pages/SetupPage.tsx\<close>) and the route guard of \<open>App.tsx\<close>.

  A hook's state is paired with the page it runs in. The form library's own \<open>required\<close> and \<open>min\<close> rules
  are parameters of the setup form; its custom validators are translated.
\<close>

section \<open>The hook\<close>

record auth =
  token :: js_string
  username :: js_string

definition username_key :: js_string where
  "username_key = js ''opsup_username''"

definition init_auth :: "storage \<Rightarrow> auth" where
  "init_auth st =
     \<lparr>token = or_else (get_item st client_token_key) [],
      username = or_else (get_item st username_key) []\<rparr>"

definition is_logged_in :: "auth \<Rightarrow> bool" where
  "is_logged_in a \<longleftrightarrow> truthy (token a)"

definition sign_in :: "login_response \<Rightarrow> auth \<times> page \<Rightarrow> auth \<times> page" where
  "sign_in res p =
     (\<lparr>token = lr_token res, username = lr_username res\<rparr>,
      (snd p)\<lparr>storage := set_item username_key (lr_username res)
                         (set_item client_token_key (lr_token res) (storage (snd p)))\<rparr>)"

text \<open>\<open>doLogin\<close> and \<open>doSetup\<close>: the reply passes the client's interceptor; a rejection reaches the caller
  and leaves the hook's state alone.\<close>

definition do_login ::
    "http_error + login_response \<Rightarrow> auth \<times> page \<Rightarrow> (auth \<times> page) \<times> (http_error + login_response)" where
  "do_login reply p =
     (case response_interceptor reply (snd p) of
        (b, Inr res) \<Rightarrow> (sign_in res (fst p, b), Inr res)
      | (b, Inl err) \<Rightarrow> ((fst p, b), Inl err))"

definition do_setup ::
    "http_error + login_response \<Rightarrow> auth \<times> page \<Rightarrow> (auth \<times> page) \<times> (http_error + login_response)" where
  "do_setup reply p =
     (case response_interceptor reply (snd p) of
        (b, Inr res) \<Rightarrow> (sign_in res (fst p, b), Inr res)
      | (b, Inl err) \<Rightarrow> ((fst p, b), Inl err))"

definition logout :: "auth \<times> page \<Rightarrow> auth \<times> page" where
  "logout p =
     (\<lparr>token = [], username = []\<rparr>,
      (snd p)\<lparr>storage := remove_item username_key (remove_item client_token_key (storage (snd p)))\<rparr>)"

section \<open>The route guard\<close>

datatype route = Login_Page | Setup_Page | Main_Page | Redirect js_string

definition private_route :: "storage \<Rightarrow> route" where
  "private_route st =
     (if truthy (or_else (get_item st client_token_key) []) then Main_Page else Redirect (js ''/login''))"

definition themed_app :: "js_string \<Rightarrow> storage \<Rightarrow> route" where
  "themed_app path st =
     (if path = js ''/login'' then Login_Page
      else if path = js ''/setup'' then Setup_Page
      else private_route st)"

section \<open>The login page\<close>

datatype toast = Toast_Success js_string | Toast_Error json

record login_page =
  lp_loading :: bool
  lp_initialized :: "bool option"
  lp_toasts :: "toast list"
  lp_route :: "(js_string \<times> bool) option"

text \<open>\<open>lp_route\<close> is the last address given to \<open>navigate\<close>, and whether it replaces the entry.\<close>

definition init_login_page :: login_page where
  "init_login_page = \<lparr>lp_loading = False, lp_initialized = None, lp_toasts = [], lp_route = None\<rparr>"

definition on_auth_status :: "http_error + auth_status \<Rightarrow> login_page \<Rightarrow> login_page" where
  "on_auth_status reply lp =
     (case reply of
        Inr res \<Rightarrow>
          (let lp1 = lp\<lparr>lp_initialized := Some (as_initialized res)\<rparr>
           in if \<not> as_initialized res then lp1\<lparr>lp_route := Some (js ''/setup'', True)\<rparr> else lp1)
      | Inl _ \<Rightarrow> lp\<lparr>lp_initialized := Some True\<rparr>)"

definition start_submit :: "login_page \<Rightarrow> login_page" where
  "start_submit lp = lp\<lparr>lp_loading := True\<rparr>"

text \<open>What \<open>onFinish\<close> of either page does with the outcome of its call.\<close>

definition finish_submit ::
    "js_string \<Rightarrow> js_string \<Rightarrow> http_error + login_response \<Rightarrow> login_page \<Rightarrow> login_page" where
  "finish_submit done failed r lp =
     (case r of
        Inr _ \<Rightarrow> lp\<lparr>lp_toasts := lp_toasts lp @ [Toast_Success done], lp_route := Some (js ''/'', False),
                    lp_loading := False\<rparr>
      | Inl err \<Rightarrow> lp\<lparr>lp_toasts := lp_toasts lp @ [Toast_Error (error_detail err failed)],
                      lp_loading := False\<rparr>)"

definition msg_login_done :: js_string where
  "msg_login_done = [0x767B, 0x5F55, 0x6210, 0x529F]"

definition msg_login_failed :: js_string where
  "msg_login_failed = [0x767B, 0x5F55, 0x5931, 0x8D25]"

definition msg_setup_done :: js_string where
  "msg_setup_done = [0x7BA1, 0x7406, 0x5458, 0x521B, 0x5EFA, 0x6210, 0x529F]"

definition msg_setup_failed :: js_string where
  "msg_setup_failed = [0x521B, 0x5EFA, 0x5931, 0x8D25]"

definition login_finish ::
    "http_error + login_response \<Rightarrow> login_page \<times> auth \<times> page \<Rightarrow> login_page \<times> auth \<times> page" where
  "login_finish reply s =
     (case do_login reply (snd s) of
        (p, r) \<Rightarrow> (finish_submit msg_login_done msg_login_failed r (start_submit (fst s)), p))"

text \<open>A redirect to \<open>/setup\<close> leaves nothing of the page; otherwise its form is shown.\<close>

definition login_form_shown :: "login_page \<Rightarrow> bool" where
  "login_form_shown lp \<longleftrightarrow> lp_initialized lp \<noteq> Some False"

section \<open>The setup page\<close>

definition on_setup_status :: "http_error + auth_status \<Rightarrow> login_page \<Rightarrow> login_page" where
  "on_setup_status reply lp =
     (case reply of
        Inr res \<Rightarrow> if as_initialized res then lp\<lparr>lp_route := Some (js ''/login'', False)\<rparr> else lp
      | Inl _ \<Rightarrow> lp)"

definition setup_finish ::
    "http_error + login_response \<Rightarrow> login_page \<times> auth \<times> page \<Rightarrow> login_page \<times> auth \<times> page" where
  "setup_finish reply s =
     (case do_setup reply (snd s) of
        (p, r) \<Rightarrow> (finish_submit msg_setup_done msg_setup_failed r (start_submit (fst s)), p))"

definition password_validator :: "js_string \<Rightarrow> bool" where
  "password_validator value \<longleftrightarrow> \<not> truthy value \<or> length (text_encode value) \<le> 72"

definition confirm_validator :: "js_string \<Rightarrow> js_string \<Rightarrow> bool" where
  "confirm_validator password value \<longleftrightarrow> \<not> truthy value \<or> password = value"

text \<open>
  The rules of the three fields. \<open>required\<close> and \<open>at_least\<close> are the form library's \<open>required\<close> and \<open>min\<close>
  rules; the form is submitted when every rule accepts.
\<close>

definition setup_accepts ::
    "(js_string \<Rightarrow> bool) \<Rightarrow> (nat \<Rightarrow> js_string \<Rightarrow> bool) \<Rightarrow> js_string \<Rightarrow> js_string \<Rightarrow> js_string \<Rightarrow> bool" where
  "setup_accepts required at_least user pass confirm \<longleftrightarrow>
     required user \<and> at_least 3 user \<and>
     required pass \<and> at_least 12 pass \<and> password_validator pass \<and>
     required confirm \<and> confirm_validator pass confirm"

section \<open>Properties\<close>

datatype auth_event =
    Login_Reply "http_error + login_response"
  | Setup_Reply "http_error + login_response"
  | Logout
  | Other_Reply "http_error + json"

text \<open>
  A rejection with status 401 makes the browser load the login screen, which starts the hook anew
  from storage.
\<close>

definition reload :: "auth \<times> page \<Rightarrow> auth \<times> page" where
  "reload p = (case href (snd p) of
      None \<Rightarrow> p
    | Some _ \<Rightarrow> (init_auth (storage (snd p)), (snd p)\<lparr>href := None\<rparr>))"

fun auth_step :: "auth \<times> page \<Rightarrow> auth_event \<Rightarrow> auth \<times> page" where
  "auth_step p (Login_Reply r) = reload (fst (do_login r p))"
| "auth_step p (Setup_Reply r) = reload (fst (do_setup r p))"
| "auth_step p Logout = logout p"
| "auth_step p (Other_Reply r) = reload (fst p, fst (response_interceptor r (snd p)))"

definition auth_inv :: "auth \<times> page \<Rightarrow> bool" where
  "auth_inv p \<longleftrightarrow> init_auth (storage (snd p)) = fst p \<and> href (snd p) = None"

lemma keys_distinct: "client_token_key \<noteq> username_key"
  by (simp add: client_token_key_def username_key_def)

lemma or_else_self: "or_else (Some t) [] = t"
  by (simp add: or_else_def truthy_def)

lemma or_else_None: "or_else None d = d"
  by (simp add: or_else_def)

lemma init_auth_simps:
  "init_auth (set_item username_key u (set_item client_token_key t st)) = \<lparr>token = t, username = u\<rparr>"
  "init_auth (remove_item username_key (remove_item client_token_key st)) = \<lparr>token = [], username = []\<rparr>"
  using keys_distinct by (simp_all add: init_auth_def or_else_self or_else_None)

lemma auth_step_inv: "auth_inv p \<Longrightarrow> auth_inv (auth_step p e)"
  by (cases e)
    (auto simp: auth_inv_def do_login_def do_setup_def response_interceptor_def sign_in_def logout_def
      reload_def init_auth_simps split: sum.split option.split)

interpretation auth: machine auth_step auth_inv
  by unfold_locales (rule auth_step_inv)

lemma auth_run_inv: "auth_inv (run auth_step (init_auth st, \<lparr>storage = st, href = None\<rparr>) es)"
  by (rule auth.run_inv) (simp add: auth_inv_def)

text \<open>
  The hook and the guard never disagree: in every run of sign-ins, setups, sign-outs and
  replies to other calls, the hook says someone is logged in exactly when the route guard lets the main
  page be shown, and a page loaded anew would start with the token and name the hook has now.
\<close>

lemma hook_and_guard_agree:
  "case run auth_step (init_auth st, \<lparr>storage = st, href = None\<rparr>) es of
     (a, b) \<Rightarrow> init_auth (storage b) = a \<and> (is_logged_in a \<longleftrightarrow> private_route (storage b) = Main_Page)"
proof -
  obtain a b where r: "run auth_step (init_auth st, \<lparr>storage = st, href = None\<rparr>) es = (a, b)"
    by (cases "run auth_step (init_auth st, \<lparr>storage = st, href = None\<rparr>) es")
  then have "init_auth (storage b) = a"
    using auth_run_inv [of st es] by (simp add: auth_inv_def)
  then show ?thesis
    using r by (auto simp: is_logged_in_def private_route_def init_auth_def)
qed

text \<open>
  After signing out nobody is logged in: neither the hook, nor storage, nor any request sent
  afterwards carries a token, and every path but the two public pages is redirected to the login screen.
\<close>

lemma logout_leaves_nothing:
  "is_logged_in (fst (logout p)) = False
   \<and> get_item (storage (snd (logout p))) client_token_key = None
   \<and> request_interceptor (storage (snd (logout p))) rq = rq
   \<and> (path = js ''/login'' \<or> path = js ''/setup''
      \<or> themed_app path (storage (snd (logout p))) = Redirect (js ''/login''))"
  using keys_distinct
  by (simp add: logout_def is_logged_in_def truthy_def request_interceptor_def themed_app_def
      private_route_def or_else_def)

text \<open>
  A password the setup form accepts is one the server can store: whatever the form library's
  length rule counts, as long as it never counts more than the text's UTF-16 units, an accepted
  password has at least 12 units and at most 72 UTF-8 bytes, equals its confirmation, and the user name
  has at least 3 units.
\<close>

lemma setup_form_bounds:
  assumes "\<And>s. required s \<Longrightarrow> s \<noteq> []" and "\<And>n s. at_least n s \<Longrightarrow> n \<le> length s"
    and "setup_accepts required at_least user pass confirm"
  shows "12 \<le> length pass \<and> length (text_encode pass) \<le> 72 \<and> confirm = pass \<and> 3 \<le> length user"
proof -
  have "pass \<noteq> []" "confirm \<noteq> []"
    using assms(1,3) by (auto simp: setup_accepts_def)
  then show ?thesis
    using assms(2) [of 3 user] assms(2) [of 12 pass] assms(3)
    by (auto simp: setup_accepts_def password_validator_def confirm_validator_def truthy_def)
qed

lemma setup_form_bounds_witness:
  "length (text_encode (js ''correct horse'')) \<le> 72 \<and> 12 \<le> length (js ''correct horse'')"
proof -
  have "length (text_encode (js ''correct horse'')) = 13"
    by code_simp
  then have "setup_accepts (\<lambda>s. s \<noteq> []) (\<lambda>n s. n \<le> length s) (js ''admin'') (js ''correct horse'') (js ''correct horse'')"
    by (simp add: setup_accepts_def password_validator_def confirm_validator_def truthy_def js_def)
  from setup_form_bounds [OF _ _ this] show ?thesis
    by simp
qed

text \<open>
  A wrong password on the login page is never explained: the server answers it with status 401,
  so the interceptor sends the page to the login screen it is already on, and the message that names
  the error is put on a page the browser is about to replace.
\<close>

lemma wrong_password_reloads_the_page:
  assumes "response err = Some (401, detail)" and "login_finish (Inl err) (lp, a, b) = (lp', a', b')"
  shows "lp_toasts lp' = lp_toasts lp @ [Toast_Error (error_detail err msg_login_failed)]
    \<and> href b' = Some (js ''/login'')"
  using assms
  by (auto simp: login_finish_def do_login_def response_interceptor_def finish_submit_def start_submit_def)

lemma wrong_password_reloads_the_page_witness:
  "case login_finish (Inl \<lparr>response = Some (401, JObj [(js ''error'', JStr (js ''invalid credentials''))])\<rparr>)
      (init_login_page, \<lparr>token = [], username = []\<rparr>, \<lparr>storage = Map.empty, href = None\<rparr>) of
     (lp, a, b) \<Rightarrow> href b = Some (js ''/login'')"
proof -
  let ?e = "\<lparr>response = Some (401, JObj [(js ''error'', JStr (js ''invalid credentials''))])\<rparr>"
  let ?b = "\<lparr>storage = Map.empty, href = None\<rparr>"
  obtain lp a b where r: "login_finish (Inl ?e) (init_login_page, \<lparr>token = [], username = []\<rparr>, ?b) = (lp, a, b)"
    by (metis prod_cases3)
  from wrong_password_reloads_the_page [OF _ r] show ?thesis
    using r by simp
qed

end
