(* ===== verification/Server_Form.thy ===== *)
theory Server_Form
  imports Auth
begin

text \<open>
  The server form (\<open>components/ServerFormModal.tsx\<close>, \<open>utils/hostKey.ts\<close>): what it is filled with, what
  each control changes, and what \<open>handleSubmit\<close> sends.

  The form library is outside the repository: \<open>validateFields\<close> is the argument of \<open>submit_form\<close> that holds
  the values it resolved to. The state keeps what the component itself holds, and the one field it reads
  back from the library, \<open>private_key\<close>.
\<close>

section \<open>Patterns\<close>

definition base64_unit :: "16 word \<Rightarrow> bool" where
  "base64_unit u \<longleftrightarrow>
     (0x41 \<le> u \<and> u \<le> 0x5A) \<or> (0x61 \<le> u \<and> u \<le> 0x7A) \<or> (0x30 \<le> u \<and> u \<le> 0x39) \<or> u = 0x2B \<or> u = 0x2F"

text \<open>\<open>HOST_KEY_PATTERN\<close>.\<close>

definition host_key_pattern :: "js_string \<Rightarrow> bool" where
  "host_key_pattern s \<longleftrightarrow>
     (let p = js ''SHA256:''
      in take (length p) s = p \<and> length (drop (length p) s) = 43 \<and> list_all base64_unit (drop (length p) s))"

definition hex_digit :: "16 word \<Rightarrow> bool" where
  "hex_digit u \<longleftrightarrow>
     (0x61 \<le> u \<and> u \<le> 0x66) \<or> (0x41 \<le> u \<and> u \<le> 0x46) \<or> (0x30 \<le> u \<and> u \<le> 0x39)"

text \<open>\<open>n\<close> pairs of hexadecimal digits, each but the last followed by a colon.\<close>

fun hex_pairs :: "nat \<Rightarrow> js_string \<Rightarrow> bool" where
  "hex_pairs n (a # b # s) =
     (hex_digit a \<and> hex_digit b \<and>
      (if n = 1 then s = []
       else (case s of c # t \<Rightarrow> 1 < n \<and> c = 0x3A \<and> hex_pairs (n - 1) t | [] \<Rightarrow> False)))"
| "hex_pairs n _ = False"

definition fingerprint_pattern :: "js_string \<Rightarrow> bool" where
  "fingerprint_pattern s \<longleftrightarrow> (length s = 64 \<and> list_all hex_digit s) \<or> hex_pairs 32 s"

section \<open>State\<close>

datatype key_source = New_Key | Reuse_Key

record form_state =
  edited :: "server option"
  fs_open :: bool
  fs_loading :: bool
  form_protocol :: protocol
  auth_choice :: js_string
  key_source :: key_source
  existing_servers :: "server list"
  reuse_server_id :: "int option"
  private_key_value :: js_string
  private_key_field :: "js_string option"
  jump_server :: "int option"
  filled :: server_form
  effect_count :: nat
  fs_toasts :: "toast list"
  fs_calls :: "request list"
  done_count :: nat

definition key_choice :: js_string where "key_choice = js ''key''"
definition password_choice :: js_string where "password_choice = js ''password''"

definition empty_form :: server_form where
  "empty_form =
     \<lparr>sf_protocol = None, sf_rdp_domain = None, sf_rdp_cert_fingerprint = None, sf_name = None,
      sf_host_key = None, sf_host = None, sf_port = None, sf_username = None, sf_auth_type = None,
      sf_private_key = None, sf_password = None, sf_copy_key_from = None, sf_jump_server_id = None,
      sf_group = None, sf_description = None\<rparr>"

text \<open>The states before the dialog is first opened.\<close>

definition init_form :: form_state where
  "init_form =
     \<lparr>edited = None, fs_open = False, fs_loading = False, form_protocol = Ssh, auth_choice = key_choice,
      key_source = New_Key, existing_servers = [], reuse_server_id = None, private_key_value = [],
      private_key_field = None, jump_server = None, filled = empty_form, effect_count = 0,
      fs_toasts = [], fs_calls = [], done_count = 0\<rparr>"

definition is_edit :: "form_state \<Rightarrow> bool" where
  "is_edit f \<longleftrightarrow> edited f \<noteq> None"

text \<open>\<open>x || null\<close> for an identifier: zero counts as none.\<close>

definition id_or_null :: "int option \<Rightarrow> int option" where
  "id_or_null i = (case i of Some n \<Rightarrow> if n = 0 then None else Some n | None \<Rightarrow> None)"

definition protocol_or_ssh :: "protocol option \<Rightarrow> protocol" where
  "protocol_or_ssh p = (case p of Some q \<Rightarrow> q | None \<Rightarrow> Ssh)"

section \<open>Opening\<close>

definition prefill :: "server \<Rightarrow> server_form" where
  "prefill s =
     \<lparr>sf_protocol = Some (protocol_or_ssh (sv_protocol s)),
      sf_rdp_domain = Some (or_else (sv_rdp_domain s) []),
      sf_rdp_cert_fingerprint = Some (or_else (sv_rdp_cert_fingerprint s) []),
      sf_name = Some (sv_name s), sf_host_key = Some (sv_host_key s), sf_host = Some (sv_host s),
      sf_port = Some (sv_port s), sf_username = Some (sv_username s),
      sf_auth_type = Some (or_else (Some (sv_auth_type s)) key_choice),
      sf_private_key = Some [], sf_password = Some [], sf_copy_key_from = Some 0,
      sf_jump_server_id = id_or_null (sv_jump_server_id s),
      sf_group = Some (sv_group s), sf_description = Some (sv_description s)\<rparr>"

text \<open>The effect when the dialog opens, for a server or for a new one.\<close>

definition open_form :: "server option \<Rightarrow> form_state \<Rightarrow> form_state" where
  "open_form srv f0 =
     (let f = f0\<lparr>edited := srv, fs_open := True, effect_count := Suc (effect_count f0),
                 fs_calls := fs_calls f0 @ [list_servers],
                 form_protocol := protocol_or_ssh (Option.bind srv sv_protocol)\<rparr>
      in (case srv of
            Some s \<Rightarrow>
              f\<lparr>filled := prefill s, private_key_field := Some [],
                auth_choice := or_else (Some (sv_auth_type s)) key_choice, key_source := New_Key,
                reuse_server_id := None, private_key_value := [],
                jump_server := id_or_null (sv_jump_server_id s)\<rparr>
          | None \<Rightarrow>
              f\<lparr>filled := empty_form\<lparr>sf_port := Some 22, sf_auth_type := Some key_choice, sf_host_key := Some []\<rparr>,
                private_key_field := None, auth_choice := key_choice,
                key_source := (if existing_servers f0 \<noteq> [] then Reuse_Key else New_Key),
                reuse_server_id := None, private_key_value := [], jump_server := None\<rparr>))"

definition close_form :: "form_state \<Rightarrow> form_state" where
  "close_form f = f\<lparr>fs_open := False, effect_count := Suc (effect_count f)\<rparr>"

definition msg_load_failed :: js_string where
  "msg_load_failed = [0x52A0, 0x8F7D, 0x670D, 0x52A1, 0x5668, 0x5217, 0x8868, 0x5931, 0x8D25]"

text \<open>The reply to the request of the \<open>n\<close>-th run of the effect, which is \<open>active\<close> until it is cleaned up.\<close>

definition on_existing :: "nat \<Rightarrow> http_error + server list option \<Rightarrow> form_state \<Rightarrow> form_state" where
  "on_existing n reply f =
     (if n \<noteq> effect_count f then f
      else (case reply of
          Inr data \<Rightarrow> f\<lparr>existing_servers := (case data of None \<Rightarrow> [] | Some ss \<Rightarrow> ss)\<rparr>
        | Inl _ \<Rightarrow> f\<lparr>fs_toasts := fs_toasts f @ [Toast_Error (JStr msg_load_failed)]\<rparr>))"

section \<open>Controls\<close>

definition choose_protocol :: "protocol \<Rightarrow> form_state \<Rightarrow> form_state" where
  "choose_protocol p f =
     f\<lparr>form_protocol := p,
       filled := (filled f)\<lparr>sf_port := Some (if p = Rdp then 3389 else 22)\<rparr>\<rparr>"

definition type_private_key :: "js_string \<Rightarrow> form_state \<Rightarrow> form_state" where
  "type_private_key k f = f\<lparr>private_key_value := k, private_key_field := Some k\<rparr>"

definition msg_key_imported :: js_string where "msg_key_imported = [0x5BC6, 0x94A5, 0x6587, 0x4EF6, 0x5DF2, 0x5BFC, 0x5165]"
definition msg_read_failed :: js_string where "msg_read_failed = [0x8BFB, 0x53D6, 0x6587, 0x4EF6, 0x5931, 0x8D25]"

text \<open>A key file was read, or could not be.\<close>

definition handle_file_select :: "js_string option \<Rightarrow> form_state \<Rightarrow> form_state" where
  "handle_file_select content f =
     (case content of
        Some t \<Rightarrow>
          (type_private_key (js_trim t) f)
            \<lparr>key_source := New_Key, fs_toasts := fs_toasts f @ [Toast_Success msg_key_imported]\<rparr>
      | None \<Rightarrow> f\<lparr>fs_toasts := fs_toasts f @ [Toast_Error (JStr msg_read_failed)]\<rparr>)"

definition reuse_options :: "form_state \<Rightarrow> server list" where
  "reuse_options f =
     filter (\<lambda>s. sv_protocol s \<noteq> Some Rdp \<and>
        (case edited f of None \<Rightarrow> True | Some e \<Rightarrow> sv_id s \<noteq> sv_id e)) (existing_servers f)"

definition option_label :: "server \<Rightarrow> js_string" where
  "option_label s = sv_name s @ js '' ('' @ sv_username s @ js ''@'' @ sv_host s @ js '')''"

text \<open>The groups offered: each once, in the order of first use, the empty one left out.\<close>

definition group_options :: "form_state \<Rightarrow> js_string list" where
  "group_options f =
     rev (remdups (rev (filter truthy (map sv_group (existing_servers f)))))"

section \<open>Submitting\<close>

definition msg_need_password :: js_string where "msg_need_password = [0x8BF7, 0x8F93, 0x5165, 0x5BC6, 0x7801]"
definition msg_need_key :: js_string where "msg_need_key = [0x8BF7, 0x8F93, 0x5165] @ js ''SSH'' @ [0x79C1, 0x94A5, 0x6216, 0x9009, 0x62E9, 0x590D, 0x7528, 0x5DF2, 0x6709, 0x5BC6, 0x94A5]"
definition msg_updated :: js_string where "msg_updated = [0x66F4, 0x65B0, 0x6210, 0x529F]"
definition msg_added :: js_string where "msg_added = [0x6DFB, 0x52A0, 0x6210, 0x529F]"
definition msg_form_failed :: js_string where "msg_form_failed = [0x64CD, 0x4F5C, 0x5931, 0x8D25]"

text \<open>The credentials of the form; \<open>Inl\<close> is the message shown instead of sending it.\<close>

definition credentials_of :: "form_state \<Rightarrow> server_form \<Rightarrow> js_string + server_form" where
  "credentials_of f v =
     (if form_protocol f = Rdp then
        Inr (v\<lparr>sf_auth_type := Some password_choice, sf_password := Some [], sf_private_key := Some [],
               sf_copy_key_from := Some 0, sf_host_key := Some []\<rparr>)
      else if auth_choice f = password_choice then
        (if \<not> is_edit f \<and> \<not> truthy (or_else (sf_password v) []) then Inl msg_need_password
         else Inr (v\<lparr>sf_private_key := Some [], sf_copy_key_from := Some 0\<rparr>))
      else
        (let v1 = v\<lparr>sf_password := Some []\<rparr>
         in (case (key_source f, id_or_null (reuse_server_id f)) of
               (Reuse_Key, Some i) \<Rightarrow> Inr (v1\<lparr>sf_private_key := Some [], sf_copy_key_from := Some i\<rparr>)
             | _ \<Rightarrow>
               (let pk = or_else (private_key_field f) []
                in if \<not> is_edit f \<and> \<not> truthy pk then Inl msg_need_key
                   else Inr (v1\<lparr>sf_copy_key_from := Some 0, sf_private_key := Some pk\<rparr>)))))"

definition submitted_form :: "form_state \<Rightarrow> server_form \<Rightarrow> js_string + server_form" where
  "submitted_form f v0 =
     (let v = v0\<lparr>sf_auth_type := Some (auth_choice f),
                 sf_host_key := Some (js_trim (or_else (sf_host_key v0) [])),
                 sf_protocol := Some (form_protocol f)\<rparr>
      in (case credentials_of f v of
            Inl m \<Rightarrow> Inl m
          | Inr w \<Rightarrow>
              Inr (w\<lparr>sf_jump_server_id := (if form_protocol f = Rdp then None else jump_server f)\<rparr>)))"

definition submit_form :: "server_form \<Rightarrow> form_state \<Rightarrow> form_state" where
  "submit_form v f =
     (case submitted_form f v of
        Inl m \<Rightarrow> f\<lparr>fs_toasts := fs_toasts f @ [Toast_Error (JStr m)], fs_loading := False\<rparr>
      | Inr w \<Rightarrow>
          f\<lparr>fs_loading := True,
            fs_calls := fs_calls f @
              [case edited f of Some s \<Rightarrow> update_server (sv_id s) w | None \<Rightarrow> create_server w]\<rparr>)"

text \<open>The reply; \<open>done_count\<close> counts the calls of \<open>onOk\<close>. A failure without a response is silent.\<close>

definition on_submitted :: "bool \<Rightarrow> http_error + json \<Rightarrow> form_state \<Rightarrow> form_state" where
  "on_submitted was_edit reply f =
     (case reply of
        Inr _ \<Rightarrow> f\<lparr>fs_toasts := fs_toasts f @ [Toast_Success (if was_edit then msg_updated else msg_added)],
                   done_count := Suc (done_count f), fs_loading := False\<rparr>
      | Inl err \<Rightarrow>
          f\<lparr>fs_toasts := fs_toasts f @
              (if response err \<noteq> None then [Toast_Error (error_detail err msg_form_failed)] else []),
            fs_loading := False\<rparr>)"

section \<open>Events\<close>

datatype form_event =
    Form_Opened "server option"
  | Form_Closed
  | Existing_Reply nat "http_error + server list option"
  | Protocol_Chosen protocol
  | Auth_Chosen js_string
  | Source_Chosen key_source
  | Reuse_Chosen "int option"
  | Key_Typed js_string
  | File_Read "js_string option"
  | Jump_Chosen "int option"
  | Form_Submitted server_form
  | Submit_Reply bool "http_error + json"

fun form_step :: "form_state \<Rightarrow> form_event \<Rightarrow> form_state" where
  "form_step f (Form_Opened srv) = open_form srv f"
| "form_step f Form_Closed = close_form f"
| "form_step f (Existing_Reply n r) = on_existing n r f"
| "form_step f (Protocol_Chosen p) = choose_protocol p f"
| "form_step f (Auth_Chosen a) = f\<lparr>auth_choice := a\<rparr>"
| "form_step f (Source_Chosen k) = f\<lparr>key_source := k\<rparr>"
| "form_step f (Reuse_Chosen i) = f\<lparr>reuse_server_id := i\<rparr>"
| "form_step f (Key_Typed k) = type_private_key k f"
| "form_step f (File_Read t) = handle_file_select t f"
| "form_step f (Jump_Chosen i) = f\<lparr>jump_server := i\<rparr>"
| "form_step f (Form_Submitted v) = submit_form v f"
| "form_step f (Submit_Reply e r) = on_submitted e r f"

definition reopens :: "form_state \<Rightarrow> form_event \<Rightarrow> bool" where
  "reopens f e \<longleftrightarrow> (case e of Form_Opened _ \<Rightarrow> True | Form_Closed \<Rightarrow> True | _ \<Rightarrow> False)"

lemma form_step_effects:
  "effect_count (form_step f e) = (if reopens f e then Suc (effect_count f) else effect_count f)"
  by (cases e)
    (simp_all add: reopens_def open_form_def close_form_def on_existing_def choose_protocol_def
      type_private_key_def handle_file_select_def submit_form_def on_submitted_def Let_def
      split: option.split sum.split)

interpretation form_effects: generation_machine form_step effect_count reopens
  by unfold_locales (simp_all add: form_step_effects)

lemma or_else_Some: "or_else (Some t) d = (if t = [] then d else t)"
  by (simp add: or_else_def truthy_def)

lemma hex_pairs_digits:
  "hex_pairs n s \<Longrightarrow> 0 < n \<Longrightarrow>
   length (filter (\<lambda>u. u \<noteq> 0x3A) s) = 2 * n \<and> list_all hex_digit (filter (\<lambda>u. u \<noteq> 0x3A) s)"
proof (induction n s rule: hex_pairs.induct)
  case (1 n a b s)
  have h: "\<not> hex_digit 0x3A"
    by (simp add: hex_digit_def)
  show ?case
  proof (cases "n = 1")
    case True
    then show ?thesis
      using "1.prems" h by auto
  next
    case False
    then obtain t where t: "s = 0x3A # t" "1 < n" "hex_pairs (n - 1) t" "hex_digit a" "hex_digit b"
      using "1.prems" by (auto split: list.splits)
    have "length (filter (\<lambda>u. u \<noteq> 0x3A) t) = 2 * (n - 1) \<and> list_all hex_digit (filter (\<lambda>u. u \<noteq> 0x3A) t)"
      using "1.IH" False t by simp
    then show ?thesis
      using t h by auto
  qed
qed simp_all

section \<open>Properties\<close>

text \<open>
  No form carries a secret that does not belong to it: an RDP form carries no password, key,
  host key or jump server; a password form no key and no server to copy one from; a key form no
  password, and either a key or a server to copy it from but not both; and a new SSH server is never
  submitted without a credential. This holds whatever the form library resolved the fields to.
\<close>

lemma forms_carry_one_kind_of_secret:
  assumes "submitted_form f v = Inr w"
  shows "sf_protocol w = Some (form_protocol f)
    \<and> (if form_protocol f = Rdp
       then sf_password w = Some [] \<and> sf_private_key w = Some [] \<and> sf_copy_key_from w = Some 0
         \<and> sf_host_key w = Some [] \<and> sf_jump_server_id w = None \<and> sf_auth_type w = Some password_choice
       else if auth_choice f = password_choice
       then sf_private_key w = Some [] \<and> sf_copy_key_from w = Some 0 \<and> sf_password w = sf_password v
         \<and> (is_edit f \<or> or_else (sf_password w) [] \<noteq> [])
       else sf_password w = Some []
         \<and> (sf_private_key w = Some [] \<or> sf_copy_key_from w = Some 0)
         \<and> (is_edit f \<or> sf_private_key w \<noteq> Some [] \<or> sf_copy_key_from w \<noteq> Some 0))"
proof (cases "form_protocol f = Rdp \<or> auth_choice f = password_choice")
  case True
  then show ?thesis
    using assms by (auto simp: submitted_form_def credentials_of_def truthy_def Let_def split: if_splits)
next
  case False
  then show ?thesis
    using assms
    by (auto simp: submitted_form_def credentials_of_def truthy_def id_or_null_def Let_def
        split: if_splits sum.splits option.splits key_source.splits)
qed

definition sample_form :: form_state where
  "sample_form = open_form None init_form"

lemma choices_differ: "key_choice \<noteq> password_choice"
  by (simp add: key_choice_def password_choice_def)

lemma forms_carry_one_kind_of_secret_witness:
  "\<exists>w. submitted_form (form_step sample_form (Key_Typed (js ''k''))) empty_form = Inr w \<and> sf_password w = Some []"
proof -
  let ?f = "form_step sample_form (Key_Typed (js ''k''))"
  obtain w where w: "submitted_form ?f empty_form = Inr w"
    using choices_differ
    by (simp add: sample_form_def init_form_def open_form_def type_private_key_def submitted_form_def credentials_of_def
        protocol_or_ssh_def or_else_Some truthy_def Let_def)
  have "form_protocol ?f \<noteq> Rdp" "auth_choice ?f \<noteq> password_choice"
    using choices_differ by (simp_all add: sample_form_def init_form_def open_form_def type_private_key_def protocol_or_ssh_def Let_def)
  then show ?thesis
    using forms_carry_one_kind_of_secret [OF w] w by auto
qed

text \<open>
  Editing without a change changes nothing: when the form opened for an SSH server is submitted
  with the values it was filled with, the update has the server's own data (its host key without
  surrounding white space), no new password or key, and no server to copy one from, so the stored
  credential is kept.
\<close>

lemma unchanged_edit_is_the_server:
  assumes "sv_protocol s \<noteq> Some Rdp" and "js_trim (sv_host_key s) = sv_host_key s"
    and "sv_auth_type s \<noteq> []" and "sv_jump_server_id s \<noteq> Some 0"
  shows "submitted_form (open_form (Some s) f) (filled (open_form (Some s) f))
    = Inr \<lparr>sf_protocol = Some Ssh, sf_rdp_domain = Some (or_else (sv_rdp_domain s) []),
        sf_rdp_cert_fingerprint = Some (or_else (sv_rdp_cert_fingerprint s) []),
        sf_name = Some (sv_name s), sf_host_key = Some (sv_host_key s), sf_host = Some (sv_host s),
        sf_port = Some (sv_port s), sf_username = Some (sv_username s), sf_auth_type = Some (sv_auth_type s),
        sf_private_key = Some [], sf_password = Some [], sf_copy_key_from = Some 0,
        sf_jump_server_id = sv_jump_server_id s, sf_group = Some (sv_group s),
        sf_description = Some (sv_description s)\<rparr>"
proof -
  have "protocol_or_ssh (sv_protocol s) = Ssh"
    using assms(1) by (cases "sv_protocol s"; cases "the (sv_protocol s)") (auto simp: protocol_or_ssh_def)
  moreover have "js_trim [] = []"
    by (simp add: js_trim_def trim_start_def)
  ultimately show ?thesis
    using assms
    by (auto simp: open_form_def submitted_form_def credentials_of_def prefill_def or_else_Some is_edit_def
        id_or_null_def truthy_def or_else_def [of None] Let_def split: option.split)
qed

text \<open>
  The certificate pattern admits SHA-256 fingerprints only: whichever of the two notations is
  used, what remains without the colons is exactly 64 hexadecimal digits.
\<close>

lemma fingerprints_have_64_digits:
  assumes "fingerprint_pattern s"
  shows "length (filter (\<lambda>u. u \<noteq> 0x3A) s) = 64 \<and> list_all hex_digit (filter (\<lambda>u. u \<noteq> 0x3A) s)"
proof (cases "hex_pairs 32 s")
  case True
  then show ?thesis
    using hex_pairs_digits [of 32 s] by simp
next
  case False
  then have h: "length s = 64" "list_all hex_digit s"
    using assms by (simp_all add: fingerprint_pattern_def)
  moreover have "u \<noteq> 0x3A" if "u \<in> set s" for u
    using that h(2) by (auto simp: list_all_iff hex_digit_def)
  then have "filter (\<lambda>u. u \<noteq> 0x3A) s = s"
    by simp
  ultimately show ?thesis
    by simp
qed

lemma fingerprints_have_64_digits_witness:
  "length (filter (\<lambda>u. u \<noteq> 0x3A) (replicate 64 (0x61 :: 16 word))) = 64"
  using fingerprints_have_64_digits [of "replicate 64 0x61"]
  by (simp add: fingerprint_pattern_def hex_digit_def list_all_iff)

text \<open>
  A list of servers that arrives after the dialog was closed or opened again is dropped: it
  never becomes the list offered for key reuse and as jump servers, whatever happens in between; and
  what is offered never contains an RDP server or the server being edited.
\<close>

lemma late_server_list_is_dropped:
  assumes "reopens f e" and "f' = run form_step (form_step f e) es"
  shows "form_step f' (Existing_Reply (effect_count f) reply) = f'
    \<and> list_all (\<lambda>s. sv_protocol s \<noteq> Some Rdp \<and> map_option sv_id (edited f') \<noteq> Some (sv_id s))
        (reuse_options f')"
  using form_effects.superseded [OF assms(1), of es] assms(2)
  by (auto simp: on_existing_def reuse_options_def list_all_iff split: option.splits)

lemma late_server_list_is_dropped_witness:
  "form_step (form_step sample_form Form_Closed) (Existing_Reply 1 (Inr None)) = form_step sample_form Form_Closed"
  using late_server_list_is_dropped [of sample_form Form_Closed _ "[]" "Inr None", OF _ refl]
  by (simp add: reopens_def sample_form_def init_form_def open_form_def Let_def)


end
