(* ===== verification/View.thy ===== *)
theory View
  imports Js_Prelude
begin

text \<open>
  What the components show, as far as a user can act on it: a control has a label, may be disabled, and
  raises an event of its component. Style and layout are left out.
\<close>

record 'e control =
  ct_label :: js_string
  ct_enabled :: bool
  ct_event :: "'e"

definition button :: "js_string \<Rightarrow> bool \<Rightarrow> 'e \<Rightarrow> 'e control" where
  "button l en e = \<lparr>ct_label = l, ct_enabled = en, ct_event = e\<rparr>"

lemma button_simps [simp]:
  "ct_label (button l en e) = l" "ct_enabled (button l en e) = en" "ct_event (button l en e) = e"
  by (simp_all add: button_def)

text \<open>The guard of a control agrees with its handler: it is disabled just when its event changes nothing.\<close>

definition guarded :: "('s \<Rightarrow> 'e \<Rightarrow> 's) \<Rightarrow> ('s \<Rightarrow> 's \<Rightarrow> bool) \<Rightarrow> 's \<Rightarrow> 'e control \<Rightarrow> bool" where
  "guarded step acts s c \<longleftrightarrow>
     (if ct_enabled c then acts s (step s (ct_event c)) else step s (ct_event c) = s)"

lemma guarded_button [simp]:
  "guarded step acts s (button l en e) = (if en then acts s (step s e) else step s e = s)"
  by (simp add: guarded_def)

end
