(* ===== verification/Form_View.thy ===== *)
theory Form_View
  imports Server_Form View Terminal_Server
begin

text \<open>
  The dialog of the server form as it is shown (\<open>components/ServerFormModal.tsx\<close>): its fields with the
  rules they declare, and the controls beside them with the events they raise. The form library applies
  the rules; its documented behaviour is written out: a pattern is not applied to an empty field, and a
  number field keeps its value within its bounds.
\<close>

section \<open>Fields and rules\<close>

datatype form_field =
    Fld_Name | Fld_Host | Fld_Port | Fld_Username | Fld_Rdp_Domain | Fld_Fingerprint | Fld_Host_Key
  | Fld_Password | Fld_Description | Fld_Group

datatype rule = Required_Text js_string | Matches "js_string \<Rightarrow> bool" js_string | Within int int

record form_item =
  fi_field :: form_field
  fi_label :: js_string
  fi_rules :: "rule list"

definition item :: "form_field \<Rightarrow> js_string \<Rightarrow> rule list \<Rightarrow> form_item" where
  "item n l rs = \<lparr>fi_field = n, fi_label = l, fi_rules = rs\<rparr>"

definition lbl_name :: js_string where "lbl_name = [0x540D, 0x79F0]"
definition lbl_host :: js_string where "lbl_host = [0x4E3B, 0x673A]"
definition lbl_port :: js_string where "lbl_port = [0x7AEF, 0x53E3]"
definition lbl_username :: js_string where "lbl_username = [0x7528, 0x6237, 0x540D]"
definition lbl_rdp_domain :: js_string where "lbl_rdp_domain = [0x57DF, 0xFF08, 0x53EF, 0x9009, 0xFF09]"
definition lbl_fingerprint :: js_string where
  "lbl_fingerprint = js ''RDP '' @ [0x8BC1, 0x4E66] @ js '' SHA256 '' @ [0x6307, 0x7EB9]"
definition lbl_host_key :: js_string where
  "lbl_host_key = js ''SSH '' @ [0x4E3B, 0x673A, 0x5BC6, 0x94A5, 0x6307, 0x7EB9]"
definition lbl_description :: js_string where "lbl_description = [0x63CF, 0x8FF0]"
definition lbl_group :: js_string where "lbl_group = [0x5206, 0x7EC4]"

definition msg_enter :: js_string where "msg_enter = [0x8BF7, 0x8F93, 0x5165]"
definition msg_enter_host :: js_string where "msg_enter_host = msg_enter @ lbl_host @ [0x5730, 0x5740]"
definition msg_enter_fingerprint :: js_string where
  "msg_enter_fingerprint = msg_enter @ js '' 64 '' @ [0x4F4D, 0x5341, 0x516D, 0x8FDB, 0x5236] @
     js '' SHA256 '' @ [0x6307, 0x7EB9]"
definition msg_enter_host_key :: js_string where
  "msg_enter_host_key = msg_enter @ js '' SHA256: '' @ [0x540E, 0x8DDF] @ js '' 43 '' @ [0x4F4D] @
     js '' Base64 '' @ [0x5B57, 0x7B26, 0x7684, 0x6307, 0x7EB9]"

text \<open>The items with a field, from the top of the dialog to its end.\<close>

definition top_items :: "form_item list" where
  "top_items =
     [item Fld_Name lbl_name [Required_Text (msg_enter @ lbl_name)],
      item Fld_Host lbl_host [Required_Text msg_enter_host],
      item Fld_Port lbl_port [Within 1 65535],
      item Fld_Username lbl_username [Required_Text (msg_enter @ lbl_username)]]"

definition rdp_items :: "form_item list" where
  "rdp_items =
     [item Fld_Rdp_Domain lbl_rdp_domain [],
      item Fld_Fingerprint lbl_fingerprint [Matches fingerprint_pattern msg_enter_fingerprint]]"

definition ssh_items :: "form_state \<Rightarrow> form_item list" where
  "ssh_items f =
     item Fld_Host_Key lbl_host_key [Matches host_key_pattern msg_enter_host_key] #
     (if auth_choice f = password_choice then [item Fld_Password [] []] else [])"

definition last_items :: "form_item list" where
  "last_items = [item Fld_Description lbl_description [], item Fld_Group lbl_group []]"

definition form_items :: "form_state \<Rightarrow> form_item list" where
  "form_items f = top_items @ (if form_protocol f = Rdp then rdp_items else ssh_items f) @ last_items"

definition given :: "'a \<Rightarrow> 'a option \<Rightarrow> 'a" where
  "given d v = (case v of None \<Rightarrow> d | Some x \<Rightarrow> x)"

lemma given_simps [simp]: "given d None = d" "given d (Some x) = x"
  by (simp_all add: given_def)

fun field_text :: "form_field \<Rightarrow> server_form \<Rightarrow> js_string option" where
  "field_text Fld_Name v = sf_name v"
| "field_text Fld_Host v = sf_host v"
| "field_text Fld_Port v = None"
| "field_text Fld_Username v = sf_username v"
| "field_text Fld_Rdp_Domain v = sf_rdp_domain v"
| "field_text Fld_Fingerprint v = sf_rdp_cert_fingerprint v"
| "field_text Fld_Host_Key v = sf_host_key v"
| "field_text Fld_Password v = sf_password v"
| "field_text Fld_Description v = sf_description v"
| "field_text Fld_Group v = sf_group v"

text \<open>What a rule says of the values; nothing when they keep it.\<close>

fun rule_error :: "server_form \<Rightarrow> form_field \<Rightarrow> rule \<Rightarrow> js_string option" where
  "rule_error v n (Required_Text m) = (if given [] (field_text n v) = [] then Some m else None)"
| "rule_error v n (Matches p m) =
     (let t = given [] (field_text n v) in if t = [] \<or> p t then None else Some m)"
| "rule_error v n (Within lo hi) =
     (case sf_port v of None \<Rightarrow> None | Some p \<Rightarrow> if lo \<le> p \<and> p \<le> hi then None else Some [])"

definition field_errors :: "form_state \<Rightarrow> server_form \<Rightarrow> (form_field \<times> js_string) list" where
  "field_errors f v =
     concat (map (\<lambda>it. concat (map (\<lambda>r. case rule_error v (fi_field it) r of
        None \<Rightarrow> [] | Some m \<Rightarrow> [(fi_field it, m)]) (fi_rules it))) (form_items f))"

definition form_rules :: "form_state \<Rightarrow> server_form \<Rightarrow> bool" where
  "form_rules f v \<longleftrightarrow> field_errors f v = []"

lemma form_rules_iff:
  "form_rules f v \<longleftrightarrow>
     given [] (sf_name v) \<noteq> [] \<and> given [] (sf_host v) \<noteq> [] \<and> given [] (sf_username v) \<noteq> [] \<and>
     (case sf_port v of None \<Rightarrow> True | Some p \<Rightarrow> 1 \<le> p \<and> p \<le> 65535) \<and>
     (if form_protocol f = Rdp
      then given [] (sf_rdp_cert_fingerprint v) = [] \<or> fingerprint_pattern (given [] (sf_rdp_cert_fingerprint v))
      else given [] (sf_host_key v) = [] \<or> host_key_pattern (given [] (sf_host_key v)))"
  by (auto simp: form_rules_def field_errors_def form_items_def top_items_def rdp_items_def ssh_items_def
      last_items_def item_def Let_def split: option.splits)

section \<open>Controls\<close>

definition lbl_key_auth :: js_string where "lbl_key_auth = [0x5BC6, 0x94A5, 0x8BA4, 0x8BC1]"
definition lbl_password_auth :: js_string where "lbl_password_auth = [0x5BC6, 0x7801, 0x8BA4, 0x8BC1]"
definition lbl_reuse_key :: js_string where "lbl_reuse_key = [0x590D, 0x7528, 0x5DF2, 0x6709, 0x5BC6, 0x94A5]"
definition lbl_new_key :: js_string where "lbl_new_key = [0x7C98, 0x8D34, 0x65B0, 0x5BC6, 0x94A5]"

text \<open>A radio raises its event when it is not the chosen one.\<close>

definition radio :: "('v \<Rightarrow> form_event) \<Rightarrow> 'v \<Rightarrow> js_string \<times> 'v \<Rightarrow> form_event control" where
  "radio e chosen lv = button (fst lv) (snd lv \<noteq> chosen) (e (snd lv))"

definition server_select :: "(int option \<Rightarrow> form_event) \<Rightarrow> form_state \<Rightarrow> form_event control list" where
  "server_select e f = map (\<lambda>s. button (option_label s) True (e (Some (sv_id s)))) (reuse_options f)"

definition protocol_radios :: "form_state \<Rightarrow> form_event control list" where
  "protocol_radios f =
     map (radio Protocol_Chosen (form_protocol f)) [(js ''SSH'', Ssh), (js ''RDP'', Rdp)]"

definition auth_radios :: "form_state \<Rightarrow> form_event control list" where
  "auth_radios f =
     map (radio Auth_Chosen (auth_choice f)) [(lbl_key_auth, key_choice), (lbl_password_auth, password_choice)]"

definition source_radios :: "form_state \<Rightarrow> form_event control list" where
  "source_radios f =
     map (radio Source_Chosen (key_source f)) [(lbl_reuse_key, Reuse_Key), (lbl_new_key, New_Key)]"

datatype key_panel =
    Reuse_Panel "int option" "form_event control list"
  | No_Server_Note
  | Paste_Panel js_string

definition key_panel_of :: "form_state \<Rightarrow> key_panel" where
  "key_panel_of f =
     (if key_source f = Reuse_Key then
        (if reuse_options f \<noteq> [] then Reuse_Panel (reuse_server_id f) (server_select Reuse_Chosen f)
         else No_Server_Note)
      else Paste_Panel (private_key_value f))"

definition panel_controls :: "key_panel \<Rightarrow> form_event control list" where
  "panel_controls p = (case p of Reuse_Panel _ cs \<Rightarrow> cs | _ \<Rightarrow> [])"

text \<open>The select of the jump server can be cleared.\<close>

definition jump_select :: "form_state \<Rightarrow> form_event control list" where
  "jump_select f = button [] (jump_server f \<noteq> None) (Jump_Chosen None) # server_select Jump_Chosen f"

record ssh_part =
  sp_auth :: "form_event control list"
  sp_sources :: "form_event control list"
  sp_panel :: "key_panel option"
  sp_keep_note :: bool
  sp_jump_value :: "int option"
  sp_jump :: "form_event control list"

definition ssh_part_of :: "form_state \<Rightarrow> ssh_part" where
  "ssh_part_of f =
     (let by_key = auth_choice f \<noteq> password_choice
      in \<lparr>sp_auth = auth_radios f, sp_sources = (if by_key then source_radios f else []),
          sp_panel = (if by_key then Some (key_panel_of f) else None),
          sp_keep_note = (by_key \<and> is_edit f \<and> key_source f = New_Key),
          sp_jump_value = jump_server f, sp_jump = jump_select f\<rparr>)"

definition part_controls :: "ssh_part \<Rightarrow> form_event control list" where
  "part_controls p =
     sp_auth p @ sp_sources p @ (case sp_panel p of None \<Rightarrow> [] | Some k \<Rightarrow> panel_controls k) @ sp_jump p"

section \<open>The dialog\<close>

definition lbl_edit_server :: js_string where "lbl_edit_server = [0x7F16, 0x8F91, 0x670D, 0x52A1, 0x5668]"
definition lbl_add_server :: js_string where "lbl_add_server = [0x6DFB, 0x52A0, 0x670D, 0x52A1, 0x5668]"
definition lbl_update :: js_string where "lbl_update = [0x66F4, 0x65B0]"
definition lbl_add :: js_string where "lbl_add = [0x6DFB, 0x52A0]"

text \<open>The groups offered for what is typed; \<open>lower\<close> is \<open>toLowerCase\<close>.\<close>

definition infix_of :: "'a list \<Rightarrow> 'a list \<Rightarrow> bool" where
  "infix_of p t \<longleftrightarrow> (\<exists>k \<in> set [0..<Suc (length t)]. take (length p) (drop k t) = p)"

definition offered_groups :: "(js_string \<Rightarrow> js_string) \<Rightarrow> js_string \<Rightarrow> form_state \<Rightarrow> js_string list" where
  "offered_groups lower input f = filter (\<lambda>g. infix_of (lower input) (lower g)) (group_options f)"

record form_view =
  fw_title :: js_string
  fw_ok_text :: js_string
  fw_ok_loading :: bool
  fw_protocols :: "form_event control list"
  fw_items :: "form_item list"
  fw_ssh :: "ssh_part option"
  fw_groups :: "js_string list"

definition render_form :: "(js_string \<Rightarrow> js_string) \<Rightarrow> js_string \<Rightarrow> form_state \<Rightarrow> form_view option" where
  "render_form lower input f =
     (if \<not> fs_open f then None
      else Some \<lparr>fw_title = (if is_edit f then lbl_edit_server else lbl_add_server),
        fw_ok_text = (if is_edit f then lbl_update else lbl_add), fw_ok_loading = fs_loading f,
        fw_protocols = protocol_radios f, fw_items = form_items f,
        fw_ssh = (if form_protocol f = Rdp then None else Some (ssh_part_of f)),
        fw_groups = offered_groups lower input f\<rparr>)"

definition form_controls :: "form_state \<Rightarrow> form_event control list" where
  "form_controls f =
     (case render_form id [] f of
        None \<Rightarrow> []
      | Some w \<Rightarrow> fw_protocols w @ (case fw_ssh w of None \<Rightarrow> [] | Some p \<Rightarrow> part_controls p))"

section \<open>What the dialog lets happen\<close>

definition positive_id :: "int option \<Rightarrow> bool" where
  "positive_id v \<longleftrightarrow> (case v of None \<Rightarrow> True | Some i \<Rightarrow> 0 < i \<and> int64 i)"

lemma positive_id_simps [simp]: "positive_id None" "positive_id (Some i) = (0 < i \<and> int64 i)"
  by (simp_all add: positive_id_def)

definition auth_known :: "js_string \<Rightarrow> bool" where
  "auth_known a \<longleftrightarrow> a = key_choice \<or> a = password_choice"

text \<open>A server as the server lists it.\<close>

definition listed_ok :: "server \<Rightarrow> bool" where
  "listed_ok s \<longleftrightarrow>
     positive_id (Some (sv_id s)) \<and> positive_id (sv_jump_server_id s) \<and> auth_known (sv_auth_type s)"

text \<open>
  The events that can reach the form: the dialog opens for a listed server and gets lists of such
  servers; a control is used while it is shown and on; the fields pass their rules before \<open>handleSubmit\<close> goes
  on, and the button that starts it takes no click while it is loading. Replies and read files come at any time.
\<close>

definition allowed :: "form_state \<Rightarrow> form_event \<Rightarrow> bool" where
  "allowed f e \<longleftrightarrow>
     (case e of
        Form_Opened srv \<Rightarrow> (case srv of None \<Rightarrow> True | Some s \<Rightarrow> listed_ok s)
      | Existing_Reply n r \<Rightarrow> (case r of Inr (Some ss) \<Rightarrow> list_all listed_ok ss | _ \<Rightarrow> True)
      | Form_Submitted v \<Rightarrow> fs_open f \<and> \<not> fs_loading f \<and> form_rules f v
      | Key_Typed k \<Rightarrow> fs_open f
      | Form_Closed \<Rightarrow> True
      | File_Read t \<Rightarrow> True
      | Submit_Reply u r \<Rightarrow> True
      | _ \<Rightarrow> list_ex (\<lambda>c. ct_enabled c \<and> ct_event c = e) (form_controls f))"

definition offered_step :: "form_state \<Rightarrow> form_event \<Rightarrow> form_state" where
  "offered_step f e = (if allowed f e then form_step f e else f)"

definition controls_ok :: "form_state \<Rightarrow> bool" where
  "controls_ok f \<longleftrightarrow>
     auth_known (auth_choice f) \<and> positive_id (jump_server f) \<and> positive_id (reuse_server_id f) \<and>
     list_all listed_ok (existing_servers f)"

lemma select_offers:
  "c \<in> set (server_select e f) \<longleftrightarrow>
     (\<exists>s \<in> set (reuse_options f). c = button (option_label s) True (e (Some (sv_id s))))"
  by (auto simp: server_select_def)

lemma offered_control:
  assumes "c \<in> set (form_controls f)"
  shows "c \<in> set (protocol_radios f) \<or> c \<in> set (auth_radios f) \<or> c \<in> set (source_radios f)
    \<or> c \<in> set (jump_select f) \<or> c \<in> set (server_select Reuse_Chosen f)"
  using assms
  by (auto simp: form_controls_def render_form_def ssh_part_of_def part_controls_def panel_controls_def
      key_panel_of_def Let_def split: if_splits)

lemma listed_choice: "controls_ok f \<Longrightarrow> s \<in> set (reuse_options f) \<Longrightarrow> 0 < sv_id s \<and> int64 (sv_id s)"
  by (auto simp: controls_ok_def reuse_options_def listed_ok_def list_all_iff)

lemma control_keeps:
  assumes "controls_ok f" and "c \<in> set (form_controls f)"
  shows "controls_ok (form_step f (ct_event c))"
  using offered_control [OF assms(2)]
proof (elim disjE)
  assume "c \<in> set (jump_select f)"
  then consider "c = button [] (jump_server f \<noteq> None) (Jump_Chosen None)"
    | s where "s \<in> set (reuse_options f)" "ct_event c = Jump_Chosen (Some (sv_id s))"
    by (auto simp: jump_select_def select_offers)
  then show ?thesis
    using assms(1) listed_choice [OF assms(1)] by cases (simp_all add: controls_ok_def)
next
  assume "c \<in> set (server_select Reuse_Chosen f)"
  then obtain s where "s \<in> set (reuse_options f)" "ct_event c = Reuse_Chosen (Some (sv_id s))"
    by (auto simp: select_offers)
  then show ?thesis
    using assms(1) listed_choice [OF assms(1)] by (simp add: controls_ok_def)
qed (use assms(1) in \<open>auto simp: protocol_radios_def auth_radios_def source_radios_def radio_def
    controls_ok_def auth_known_def choose_protocol_def\<close>)

lemma open_keeps:
  assumes "controls_ok f" and "\<forall>s. srv = Some s \<longrightarrow> listed_ok s"
  shows "controls_ok (open_form srv f)"
  using assms
  by (cases srv) (auto simp: open_form_def controls_ok_def auth_known_def listed_ok_def or_else_Some
      id_or_null_def Let_def split: option.splits)

lemma form_step_controls:
  assumes "controls_ok f" and "allowed f e"
  shows "controls_ok (form_step f e)"
proof -
  have c: "list_ex (\<lambda>c. ct_enabled c \<and> ct_event c = e) (form_controls f) \<Longrightarrow> ?thesis"
    using control_keeps [OF assms(1)] by (auto simp: list_ex_iff)
  show ?thesis
  proof (cases e)
    case (Form_Opened srv)
    then show ?thesis
      using assms open_keeps by (auto simp: allowed_def split: option.splits)
  next
    case (Existing_Reply n r)
    then show ?thesis
      using assms by (auto simp: allowed_def on_existing_def controls_ok_def split: sum.splits option.splits)
  qed (use assms c in \<open>auto simp: allowed_def controls_ok_def close_form_def type_private_key_def
      handle_file_select_def submit_form_def on_submitted_def split: option.splits sum.splits\<close>)
qed

interpretation dialog: machine offered_step controls_ok
  by unfold_locales (simp add: offered_step_def form_step_controls)

lemma init_form_ok [simp]: "controls_ok init_form"
  by (simp add: controls_ok_def init_form_def auth_known_def)

lemma dialog_controls: "f = run offered_step init_form es \<Longrightarrow> controls_ok f"
  using dialog.run_inv by simp

lemma submission_rules: "allowed f (Form_Submitted v) \<Longrightarrow> form_rules f v"
  by (simp add: allowed_def)

text \<open>
  A key that was pasted and is no longer shown is still sent: with the source switched to a stored key and
  no server chosen, the dialog shows the select or its notice, and the form carries the pasted key.
\<close>

lemma hidden_key_is_submitted:
  assumes "form_protocol f = Ssh" "auth_choice f \<noteq> password_choice" "key_source f = Reuse_Key"
    and "reuse_server_id f = None" "private_key_field f = Some k" "k \<noteq> []" "submitted_form f v = Inr w"
  shows "sf_private_key w = Some k \<and> (\<forall>t. key_panel_of f \<noteq> Paste_Panel t)"
  using assms
  by (auto simp: submitted_form_def credentials_of_def key_panel_of_def id_or_null_def or_else_Some truthy_def Let_def)

end
