(* ===== verification/Server_Request.thy ===== *)
theory Server_Request
  imports Form_View
begin

text \<open>
  What the server makes of a form (\<open>internal/api/server_handler.go\<close>): the body is decoded into
  \<open>serverCreateReq\<close>, checked for its required fields, and validated and normalised. A Go string is the
  text it holds, a list of UTF-16 units as everywhere in this library.
\<close>

section \<open>Decoding\<close>

record server_req =
  cr_protocol :: js_string
  cr_rdp_domain :: js_string
  cr_rdp_cert_fingerprint :: js_string
  cr_name :: js_string
  cr_host :: js_string
  cr_port :: int
  cr_username :: js_string
  cr_auth_type :: js_string
  cr_host_key :: js_string
  cr_private_key :: js_string
  cr_password :: js_string
  cr_copy_key_from :: int
  cr_jump_server_id :: "int option"
  cr_group :: js_string
  cr_description :: js_string

definition empty_req :: server_req where
  "empty_req =
     \<lparr>cr_protocol = [], cr_rdp_domain = [], cr_rdp_cert_fingerprint = [], cr_name = [], cr_host = [],
      cr_port = 0, cr_username = [], cr_auth_type = [], cr_host_key = [], cr_private_key = [],
      cr_password = [], cr_copy_key_from = 0, cr_jump_server_id = None, cr_group = [], cr_description = []\<rparr>"

definition text_fields :: "(js_string \<times> (js_string \<Rightarrow> server_req \<Rightarrow> server_req)) list" where
  "text_fields =
     [(js ''protocol'', \<lambda>t r. r\<lparr>cr_protocol := t\<rparr>), (js ''rdp_domain'', \<lambda>t r. r\<lparr>cr_rdp_domain := t\<rparr>),
      (js ''rdp_cert_fingerprint'', \<lambda>t r. r\<lparr>cr_rdp_cert_fingerprint := t\<rparr>),
      (js ''name'', \<lambda>t r. r\<lparr>cr_name := t\<rparr>), (js ''host'', \<lambda>t r. r\<lparr>cr_host := t\<rparr>),
      (js ''username'', \<lambda>t r. r\<lparr>cr_username := t\<rparr>), (js ''auth_type'', \<lambda>t r. r\<lparr>cr_auth_type := t\<rparr>),
      (js ''host_key'', \<lambda>t r. r\<lparr>cr_host_key := t\<rparr>), (js ''private_key'', \<lambda>t r. r\<lparr>cr_private_key := t\<rparr>),
      (js ''password'', \<lambda>t r. r\<lparr>cr_password := t\<rparr>), (js ''group'', \<lambda>t r. r\<lparr>cr_group := t\<rparr>),
      (js ''description'', \<lambda>t r. r\<lparr>cr_description := t\<rparr>)]"

definition text_setter :: "js_string \<Rightarrow> (js_string \<Rightarrow> server_req \<Rightarrow> server_req) option" where
  "text_setter k = map_option snd (find (\<lambda>(n, _). names_field k n) text_fields)"

text \<open>A member that is not of its field's type makes the whole call fail; \<open>null\<close> leaves a value alone.\<close>

definition bind_int :: "json \<Rightarrow> (int \<Rightarrow> server_req) \<Rightarrow> server_req \<Rightarrow> server_req option" where
  "bind_int v f r =
     (case v of JNull \<Rightarrow> Some r | JInt i \<Rightarrow> if int64 i then Some (f i) else None | _ \<Rightarrow> None)"

definition bind_member :: "js_string \<Rightarrow> json \<Rightarrow> server_req \<Rightarrow> server_req option" where
  "bind_member k v r =
     (case text_setter k of
        Some f \<Rightarrow> (case v of JNull \<Rightarrow> Some r | JStr t \<Rightarrow> Some (f t r) | _ \<Rightarrow> None)
      | None \<Rightarrow>
          if names_field k (js ''port'') then bind_int v (\<lambda>i. r\<lparr>cr_port := i\<rparr>) r
          else if names_field k (js ''copy_key_from'') then bind_int v (\<lambda>i. r\<lparr>cr_copy_key_from := i\<rparr>) r
          else if names_field k (js ''jump_server_id'') then
            bind_int v (\<lambda>i. r\<lparr>cr_jump_server_id := Some i\<rparr>) (r\<lparr>cr_jump_server_id := None\<rparr>)
          else Some r)"

fun bind_members :: "(js_string \<times> json) list \<Rightarrow> server_req \<Rightarrow> server_req option" where
  "bind_members [] r = Some r"
| "bind_members ((k, v) # ms) r = Option.bind (bind_member k v r) (bind_members ms)"

text \<open>\<open>ShouldBindJSON\<close>: the body decoded, and the required fields not empty.\<close>

definition bind_request :: "json \<Rightarrow> server_req option" where
  "bind_request body =
     Option.bind (case body of JObj ms \<Rightarrow> bind_members ms empty_req | JNull \<Rightarrow> Some empty_req | _ \<Rightarrow> None)
       (\<lambda>r. if cr_name r = [] \<or> cr_host r = [] \<or> cr_username r = [] then None else Some r)"

section \<open>Validating\<close>

text \<open>\<open>strings.TrimSpace\<close>, by the white space of Unicode.\<close>

definition go_space :: "16 word \<Rightarrow> bool" where
  "go_space u \<longleftrightarrow>
     (0x0009 \<le> u \<and> u \<le> 0x000D) \<or> u = 0x0020 \<or> u = 0x0085 \<or> u = 0x00A0 \<or> u = 0x1680 \<or>
     (0x2000 \<le> u \<and> u \<le> 0x200A) \<or> u = 0x2028 \<or> u = 0x2029 \<or> u = 0x202F \<or> u = 0x205F \<or> u = 0x3000"

definition go_trim :: "js_string \<Rightarrow> js_string" where
  "go_trim s = rev (dropWhile go_space (rev (dropWhile go_space s)))"

text \<open>
  \<open>strings.ToLower\<close> on what it is used for: a letter outside ASCII has no hexadecimal digit as its
  lower case, so such a text is refused whatever becomes of the letter.
\<close>

definition lower_unit :: "16 word \<Rightarrow> 16 word" where
  "lower_unit u = (if 0x41 \<le> u \<and> u \<le> 0x5A then u + 0x20 else u)"

text \<open>\<open>hex.DecodeString\<close> and \<open>base64.RawStdEncoding.DecodeString\<close> give that many bytes.\<close>

definition hex_bytes :: "js_string \<Rightarrow> nat \<Rightarrow> bool" where
  "hex_bytes s n \<longleftrightarrow> length s = 2 * n \<and> list_all hex_digit s"

definition base64_bytes :: "js_string \<Rightarrow> nat \<Rightarrow> bool" where
  "base64_bytes s n \<longleftrightarrow>
     (let t = filter (\<lambda>u. u \<noteq> 0x0D \<and> u \<noteq> 0x0A) s
      in list_all base64_unit t \<and> length t mod 4 \<noteq> 1 \<and> length t * 6 div 8 = n)"

definition sha256_prefix :: js_string where
  "sha256_prefix = js ''SHA256:''"

definition host_key_ok :: "js_string \<Rightarrow> bool" where
  "host_key_ok s \<longleftrightarrow> starts_with s sha256_prefix \<and> base64_bytes (drop (length sha256_prefix) s) 32"

definition validate_rdp :: "server_req \<Rightarrow> js_string + server_req" where
  "validate_rdp r =
     (if cr_password r \<noteq> [] \<or> cr_private_key r \<noteq> [] \<or> cr_copy_key_from r \<noteq> 0 \<or> cr_host_key r \<noteq> [] \<or>
         cr_jump_server_id r \<noteq> None
      then Inl (js ''RDP V1 does not store credentials or support SSH settings'')
      else
        (let fp = map lower_unit (filter (\<lambda>u. u \<noteq> 0x3A) (go_trim (cr_rdp_cert_fingerprint r)))
         in if fp \<noteq> [] \<and> \<not> hex_bytes fp 32
            then Inl (js ''RDP certificate fingerprint must be SHA256 (64 hex digits)'')
            else Inr (r\<lparr>cr_auth_type := js ''password'', cr_rdp_cert_fingerprint := fp\<rparr>)))"

definition validate_ssh :: "server_req \<Rightarrow> js_string + server_req" where
  "validate_ssh r0 =
     (let r1 = r0\<lparr>cr_rdp_domain := [], cr_rdp_cert_fingerprint := [],
                 cr_auth_type := (if cr_auth_type r0 = [] then js ''key'' else cr_auth_type r0)\<rparr>
      in if cr_auth_type r1 \<noteq> js ''key'' \<and> cr_auth_type r1 \<noteq> js ''password''
         then Inl (js ''auth_type must be key or password'')
         else
           (let r = r1\<lparr>cr_host_key := go_trim (cr_host_key r1)\<rparr>
            in if cr_host_key r \<noteq> [] \<and> \<not> host_key_ok (cr_host_key r)
               then Inl (js ''host_key must be an SHA256 SSH host fingerprint'')
               else (case cr_jump_server_id r of
                   Some i \<Rightarrow> if i \<le> 0 then Inl (js ''invalid jump_server_id'') else Inr r
                 | None \<Rightarrow> Inr r)))"

definition validate :: "server_req \<Rightarrow> js_string + server_req" where
  "validate r0 =
     (let r1 = r0\<lparr>cr_protocol := (if cr_protocol r0 = [] then js ''ssh'' else cr_protocol r0)\<rparr>
      in if cr_protocol r1 \<noteq> js ''ssh'' \<and> cr_protocol r1 \<noteq> js ''rdp''
         then Inl (js ''protocol must be ssh or rdp'')
         else
           (let r2 = (if cr_protocol r1 = js ''rdp'' \<and> cr_port r1 = 0 then r1\<lparr>cr_port := 3389\<rparr> else r1);
                r = (if cr_port r2 = 0 then r2\<lparr>cr_port := 22\<rparr> else r2)
            in if cr_port r < 1 \<or> 65535 < cr_port r then Inl (js ''port must be between 1 and 65535'')
               else if cr_protocol r = js ''rdp'' then validate_rdp r
               else validate_ssh r))"

section \<open>The body of a form\<close>

text \<open>The request the server reads from a form: a field the form did not have is empty.\<close>

definition request_of :: "server_form \<Rightarrow> server_req" where
  "request_of w =
     \<lparr>cr_protocol = given [] (map_option protocol_name (sf_protocol w)),
      cr_rdp_domain = given [] (sf_rdp_domain w),
      cr_rdp_cert_fingerprint = given [] (sf_rdp_cert_fingerprint w), cr_name = given [] (sf_name w),
      cr_host = given [] (sf_host w), cr_port = given 0 (sf_port w), cr_username = given [] (sf_username w),
      cr_auth_type = given [] (sf_auth_type w), cr_host_key = given [] (sf_host_key w),
      cr_private_key = given [] (sf_private_key w), cr_password = given [] (sf_password w),
      cr_copy_key_from = given 0 (sf_copy_key_from w), cr_jump_server_id = sf_jump_server_id w,
      cr_group = given [] (sf_group w), cr_description = given [] (sf_description w)\<rparr>"

lemma text_setters:
  "text_setter (js ''protocol'') = Some (\<lambda>t r. r\<lparr>cr_protocol := t\<rparr>)"
  "text_setter (js ''rdp_domain'') = Some (\<lambda>t r. r\<lparr>cr_rdp_domain := t\<rparr>)"
  "text_setter (js ''rdp_cert_fingerprint'') = Some (\<lambda>t r. r\<lparr>cr_rdp_cert_fingerprint := t\<rparr>)"
  "text_setter (js ''name'') = Some (\<lambda>t r. r\<lparr>cr_name := t\<rparr>)"
  "text_setter (js ''host'') = Some (\<lambda>t r. r\<lparr>cr_host := t\<rparr>)"
  "text_setter (js ''username'') = Some (\<lambda>t r. r\<lparr>cr_username := t\<rparr>)"
  "text_setter (js ''auth_type'') = Some (\<lambda>t r. r\<lparr>cr_auth_type := t\<rparr>)"
  "text_setter (js ''host_key'') = Some (\<lambda>t r. r\<lparr>cr_host_key := t\<rparr>)"
  "text_setter (js ''private_key'') = Some (\<lambda>t r. r\<lparr>cr_private_key := t\<rparr>)"
  "text_setter (js ''password'') = Some (\<lambda>t r. r\<lparr>cr_password := t\<rparr>)"
  "text_setter (js ''group'') = Some (\<lambda>t r. r\<lparr>cr_group := t\<rparr>)"
  "text_setter (js ''description'') = Some (\<lambda>t r. r\<lparr>cr_description := t\<rparr>)"
  "text_setter (js ''port'') = None" "text_setter (js ''copy_key_from'') = None"
  "text_setter (js ''jump_server_id'') = None"
  by (simp_all add: text_setter_def text_fields_def names_field_def fold_unit_def js_def of_char_def)

lemma int_names:
  "names_field (js ''port'') (js ''port'')" "names_field (js ''copy_key_from'') (js ''copy_key_from'')"
  "\<not> names_field (js ''copy_key_from'') (js ''port'')" "\<not> names_field (js ''jump_server_id'') (js ''port'')"
  "\<not> names_field (js ''jump_server_id'') (js ''copy_key_from'')"
  "names_field (js ''jump_server_id'') (js ''jump_server_id'')"
  by (simp_all add: names_field_def fold_unit_def js_def of_char_def)

lemma bind_members_append:
  "bind_members (xs @ ys) r = Option.bind (bind_members xs r) (bind_members ys)"
  by (induction xs arbitrary: r) (auto simp: bind_assoc split: Option.bind_split)

lemma bind_text:
  "text_setter k = Some f \<Longrightarrow> bind_members (text_field k v) r = Some (case v of None \<Rightarrow> r | Some t \<Rightarrow> f t r)"
  by (simp add: text_field_def bind_member_def split: option.split)

lemma set_given:
  "(case v of None \<Rightarrow> r | Some t \<Rightarrow> r\<lparr>cr_protocol := t\<rparr>) = r\<lparr>cr_protocol := given (cr_protocol r) v\<rparr>"
  "(case v of None \<Rightarrow> r | Some t \<Rightarrow> r\<lparr>cr_rdp_domain := t\<rparr>) = r\<lparr>cr_rdp_domain := given (cr_rdp_domain r) v\<rparr>"
  "(case v of None \<Rightarrow> r | Some t \<Rightarrow> r\<lparr>cr_rdp_cert_fingerprint := t\<rparr>)
     = r\<lparr>cr_rdp_cert_fingerprint := given (cr_rdp_cert_fingerprint r) v\<rparr>"
  "(case v of None \<Rightarrow> r | Some t \<Rightarrow> r\<lparr>cr_name := t\<rparr>) = r\<lparr>cr_name := given (cr_name r) v\<rparr>"
  "(case v of None \<Rightarrow> r | Some t \<Rightarrow> r\<lparr>cr_host := t\<rparr>) = r\<lparr>cr_host := given (cr_host r) v\<rparr>"
  "(case v of None \<Rightarrow> r | Some t \<Rightarrow> r\<lparr>cr_username := t\<rparr>) = r\<lparr>cr_username := given (cr_username r) v\<rparr>"
  "(case v of None \<Rightarrow> r | Some t \<Rightarrow> r\<lparr>cr_auth_type := t\<rparr>) = r\<lparr>cr_auth_type := given (cr_auth_type r) v\<rparr>"
  "(case v of None \<Rightarrow> r | Some t \<Rightarrow> r\<lparr>cr_host_key := t\<rparr>) = r\<lparr>cr_host_key := given (cr_host_key r) v\<rparr>"
  "(case v of None \<Rightarrow> r | Some t \<Rightarrow> r\<lparr>cr_private_key := t\<rparr>) = r\<lparr>cr_private_key := given (cr_private_key r) v\<rparr>"
  "(case v of None \<Rightarrow> r | Some t \<Rightarrow> r\<lparr>cr_password := t\<rparr>) = r\<lparr>cr_password := given (cr_password r) v\<rparr>"
  "(case v of None \<Rightarrow> r | Some t \<Rightarrow> r\<lparr>cr_group := t\<rparr>) = r\<lparr>cr_group := given (cr_group r) v\<rparr>"
  "(case v of None \<Rightarrow> r | Some t \<Rightarrow> r\<lparr>cr_description := t\<rparr>) = r\<lparr>cr_description := given (cr_description r) v\<rparr>"
  by (simp_all split: option.split)

definition small :: "int option \<Rightarrow> bool" where
  "small v \<longleftrightarrow> (case v of None \<Rightarrow> True | Some i \<Rightarrow> int64 i)"

lemma bind_ints:
  "small v \<Longrightarrow> bind_members (int_field (js ''port'') v) r = Some (r\<lparr>cr_port := given (cr_port r) v\<rparr>)"
  "small v \<Longrightarrow> bind_members (int_field (js ''copy_key_from'') v) r
     = Some (r\<lparr>cr_copy_key_from := given (cr_copy_key_from r) v\<rparr>)"
  "small v \<Longrightarrow> bind_member (js ''jump_server_id'') (case v of None \<Rightarrow> JNull | Some i \<Rightarrow> JInt i) r
     = Some (r\<lparr>cr_jump_server_id := v\<rparr>)"
  by (auto simp: int_field_def bind_member_def text_setters int_names bind_int_def small_def
      split: option.split)

lemma bind_form:
  assumes "small (sf_port w)" "small (sf_copy_key_from w)" "small (sf_jump_server_id w)"
    and "server_form_json w = JObj ms"
  shows "bind_members ms empty_req = Some (request_of w)"
proof -
  have "ms = text_field (js ''protocol'') (map_option protocol_name (sf_protocol w)) @
     text_field (js ''rdp_domain'') (sf_rdp_domain w) @
     text_field (js ''rdp_cert_fingerprint'') (sf_rdp_cert_fingerprint w) @
     text_field (js ''name'') (sf_name w) @ text_field (js ''host_key'') (sf_host_key w) @
     text_field (js ''host'') (sf_host w) @ int_field (js ''port'') (sf_port w) @
     text_field (js ''username'') (sf_username w) @ text_field (js ''auth_type'') (sf_auth_type w) @
     text_field (js ''private_key'') (sf_private_key w) @ text_field (js ''password'') (sf_password w) @
     int_field (js ''copy_key_from'') (sf_copy_key_from w) @
     [(js ''jump_server_id'', (case sf_jump_server_id w of None \<Rightarrow> JNull | Some i \<Rightarrow> JInt i))] @
     text_field (js ''group'') (sf_group w) @ text_field (js ''description'') (sf_description w)"
    using assms(4) by (simp add: server_form_json_def)
  then show ?thesis
    using assms(1-3)
    by (simp only: bind_members_append bind_text [OF text_setters(1)] bind_text [OF text_setters(2)]
        bind_text [OF text_setters(3)] bind_text [OF text_setters(4)] bind_text [OF text_setters(5)]
        bind_text [OF text_setters(6)] bind_text [OF text_setters(7)] bind_text [OF text_setters(8)]
        bind_text [OF text_setters(9)] bind_text [OF text_setters(10)] bind_text [OF text_setters(11)]
        bind_text [OF text_setters(12)] bind_ints bind_members.simps set_given Option.bind.bind_lunit)
      (simp add: empty_req_def request_of_def)
qed

section \<open>Every form is accepted\<close>

lemma small_positive: "positive_id v \<Longrightarrow> small v"
  by (cases v) (simp_all add: small_def)

lemma go_trim_id: "s = [] \<or> \<not> go_space (hd s) \<and> \<not> go_space (last s) \<Longrightarrow> go_trim s = s"
  unfolding go_trim_def by (auto simp: dropWhile_keep hd_rev)

lemma base64_unit_plain: "base64_unit u \<Longrightarrow> u \<noteq> 0x0D \<and> u \<noteq> 0x0A \<and> \<not> go_space u \<and> \<not> js_space u"
  by (auto simp: base64_unit_def go_space_def js_space_def word_le_nat_alt word_unat_eq_iff)

lemma hex_digit_plain: "hex_digit u \<Longrightarrow> \<not> go_space u \<and> u \<noteq> 0x3A \<and> hex_digit (lower_unit u)"
proof -
  assume "hex_digit u"
  then have u: "unat u \<in> {0x61..0x66} \<union> {0x41..0x46} \<union> {0x30..0x39}"
    by (auto simp: hex_digit_def word_le_nat_alt)
  have l: "unat (u + 0x20) = unat u + 0x20" if "unat u \<in> {0x41..0x46}"
    using that by (subst unat_add_lem [THEN iffD1]) auto
  show ?thesis
    using u l by (auto simp: hex_digit_def lower_unit_def go_space_def word_le_nat_alt word_unat_eq_iff)
qed

lemma host_key_pattern_ok:
  assumes "host_key_pattern s"
  shows "host_key_ok s" "go_trim s = s" "js_trim s = s" "s \<noteq> []"
proof -
  have p: "sha256_prefix = js ''SHA256:''" "length (js ''SHA256:'') = 7"
    by (simp_all add: sha256_prefix_def js_def)
  have t: "take 7 s = js ''SHA256:''" and d: "length (drop 7 s) = 43" "list_all base64_unit (drop 7 s)"
    using assms p by (simp_all add: host_key_pattern_def Let_def)
  have s: "s = js ''SHA256:'' @ drop 7 s"
    using t by (metis append_take_drop_id)
  have f: "filter (\<lambda>u. u \<noteq> 0x0D \<and> u \<noteq> 0x0A) (drop 7 s) = drop 7 s"
    using d(2) base64_unit_plain by (auto simp: list_all_iff intro: filter_True)
  have "base64_bytes (drop 7 s) 32"
    using d by (simp add: base64_bytes_def Let_def f)
  moreover have "starts_with s (js ''SHA256:'')"
    unfolding starts_with_def p(2) by (rule t)
  ultimately show "host_key_ok s"
    using p by (simp add: host_key_ok_def)
  show n: "s \<noteq> []"
    using d(1) by auto
  have "hd s = 0x53"
    using arg_cong [OF s, of hd] by (simp add: js_def)
  moreover have "last s \<in> set (drop 7 s)"
    using d(1) s by (metis last_appendR last_in_set list.size(3) zero_neq_numeral)
  then have "base64_unit (last s)"
    using d(2) by (simp add: list_all_iff)
  ultimately show "go_trim s = s" "js_trim s = s"
    using base64_unit_plain [of "last s"]
    by (auto intro!: go_trim_id js_trim_id simp: go_space_def js_space_def)
qed

lemma fingerprint_ends: "fingerprint_pattern s \<Longrightarrow> s \<noteq> [] \<and> hex_digit (hd s) \<and> hex_digit (last s)"
proof -
  have p: "hex_pairs n s \<Longrightarrow> s \<noteq> [] \<and> hex_digit (hd s) \<and> hex_digit (last s)" for n s
  proof (induction n s rule: hex_pairs.induct)
    case (1 n a b s)
    then show ?case
      by (cases "n = 1") (auto split: list.splits)
  qed simp_all
  assume "fingerprint_pattern s"
  then show ?thesis
    using p [of 32 s] by (cases "s = []") (auto simp: fingerprint_pattern_def list_all_iff)
qed

lemma fingerprint_accepted:
  assumes "fingerprint_pattern s"
  shows "hex_bytes (map lower_unit (filter (\<lambda>u. u \<noteq> 0x3A) (go_trim s))) 32"
proof -
  have "go_trim s = s"
    using fingerprint_ends [OF assms] hex_digit_plain by (intro go_trim_id) auto
  then show ?thesis
    using fingerprints_have_64_digits [OF assms] hex_digit_plain
    by (auto simp: hex_bytes_def list_all_iff)
qed

text \<open>What \<open>handleSubmit\<close> makes of the fields, and what it leaves.\<close>

lemma submitted_fields:
  assumes "submitted_form f v = Inr w"
  shows "sf_name w = sf_name v" "sf_host w = sf_host v" "sf_port w = sf_port v"
    "sf_username w = sf_username v" "sf_group w = sf_group v" "sf_description w = sf_description v"
    "sf_rdp_domain w = sf_rdp_domain v" "sf_rdp_cert_fingerprint w = sf_rdp_cert_fingerprint v"
    "sf_protocol w = Some (form_protocol f)"
    "sf_jump_server_id w = (if form_protocol f = Rdp then None else jump_server f)"
    "sf_copy_key_from w = Some 0 \<or> (\<exists>i. reuse_server_id f = Some i \<and> sf_copy_key_from w = Some i)"
    "form_protocol f = Rdp \<Longrightarrow> sf_password w = Some [] \<and> sf_private_key w = Some [] \<and>
       sf_copy_key_from w = Some 0 \<and> sf_host_key w = Some []"
    "form_protocol f \<noteq> Rdp \<Longrightarrow> sf_auth_type w = Some (auth_choice f) \<and>
       sf_host_key w = Some (js_trim (or_else (sf_host_key v) []))"
proof -
  let ?v = "v\<lparr>sf_auth_type := Some (auth_choice f),
    sf_host_key := Some (js_trim (or_else (sf_host_key v) [])), sf_protocol := Some (form_protocol f)\<rparr>"
  obtain u where u: "credentials_of f ?v = Inr u"
    and w: "w = u\<lparr>sf_jump_server_id := (if form_protocol f = Rdp then None else jump_server f)\<rparr>"
    using assms by (auto simp: submitted_form_def Let_def split: sum.splits)
  have "(form_protocol f = Rdp \<and> u = ?v\<lparr>sf_auth_type := Some password_choice, sf_password := Some [],
        sf_private_key := Some [], sf_copy_key_from := Some 0, sf_host_key := Some []\<rparr>) \<or>
      form_protocol f \<noteq> Rdp \<and>
      (u = ?v\<lparr>sf_private_key := Some [], sf_copy_key_from := Some 0\<rparr> \<or>
       (\<exists>i. reuse_server_id f = Some i \<and>
          u = ?v\<lparr>sf_password := Some [], sf_private_key := Some [], sf_copy_key_from := Some i\<rparr>) \<or>
       (\<exists>k. u = ?v\<lparr>sf_password := Some [], sf_copy_key_from := Some 0, sf_private_key := Some k\<rparr>))"
    using u unfolding credentials_of_def id_or_null_def Let_def
    by (auto split: if_splits key_source.splits option.splits)
  then show "sf_name w = sf_name v" "sf_host w = sf_host v" "sf_port w = sf_port v"
    "sf_username w = sf_username v" "sf_group w = sf_group v" "sf_description w = sf_description v"
    "sf_rdp_domain w = sf_rdp_domain v" "sf_rdp_cert_fingerprint w = sf_rdp_cert_fingerprint v"
    "sf_protocol w = Some (form_protocol f)"
    "sf_jump_server_id w = (if form_protocol f = Rdp then None else jump_server f)"
    "sf_copy_key_from w = Some 0 \<or> (\<exists>i. reuse_server_id f = Some i \<and> sf_copy_key_from w = Some i)"
    "form_protocol f = Rdp \<Longrightarrow> sf_password w = Some [] \<and> sf_private_key w = Some [] \<and>
       sf_copy_key_from w = Some 0 \<and> sf_host_key w = Some []"
    "form_protocol f \<noteq> Rdp \<Longrightarrow> sf_auth_type w = Some (auth_choice f) \<and>
       sf_host_key w = Some (js_trim (or_else (sf_host_key v) []))"
    using w by auto
qed

lemma protocol_names: "js ''rdp'' \<noteq> js ''ssh''" "js ''ssh'' \<noteq> []" "js ''rdp'' \<noteq> []"
  "protocol_name Rdp = js ''rdp''" "protocol_name Ssh = js ''ssh''"
  "key_choice = js ''key''" "password_choice = js ''password''" "js ''key'' \<noteq> []" "js ''password'' \<noteq> []"
  by (simp_all add: js_def protocol_name_def key_choice_def password_choice_def)

lemma given_port:
  "(case p of None \<Rightarrow> True | Some i \<Rightarrow> 1 \<le> i \<and> i \<le> 65535) \<Longrightarrow> given 0 p = 0 \<or> (1 \<le> given 0 p \<and> given 0 p \<le> (65535 :: int))"
  by (cases p) simp_all

lemma validate_rdp_form:
  assumes "cr_protocol q = js ''rdp''" "cr_port q = 0 \<or> 1 \<le> cr_port q \<and> cr_port q \<le> 65535"
    and "cr_password q = []" "cr_private_key q = []" "cr_copy_key_from q = 0" "cr_host_key q = []"
    and "cr_jump_server_id q = None" "cr_rdp_cert_fingerprint q = [] \<or> fingerprint_pattern (cr_rdp_cert_fingerprint q)"
  shows "\<exists>r. validate q = Inr r \<and> cr_protocol r = js ''rdp'' \<and> 1 \<le> cr_port r \<and> cr_port r \<le> 65535 \<and>
    (cr_rdp_cert_fingerprint r = [] \<or> hex_bytes (cr_rdp_cert_fingerprint r) 32)"
proof -
  let ?fp = "map lower_unit (filter (\<lambda>u. u \<noteq> 0x3A) (go_trim (cr_rdp_cert_fingerprint q)))"
  have "?fp = [] \<or> hex_bytes ?fp 32"
    using assms(8) fingerprint_accepted by (auto simp: go_trim_def)
  then show ?thesis
    using assms(1-7) by (auto simp: validate_def validate_rdp_def Let_def protocol_names)
qed

lemma validate_ssh_form:
  assumes "cr_protocol q = js ''ssh''" "cr_port q = 0 \<or> 1 \<le> cr_port q \<and> cr_port q \<le> 65535"
    and "cr_auth_type q = key_choice \<or> cr_auth_type q = password_choice"
    and "cr_host_key q = [] \<or> host_key_pattern (cr_host_key q)" "positive_id (cr_jump_server_id q)"
  shows "validate q = Inr (q\<lparr>cr_port := if cr_port q = 0 then 22 else cr_port q, cr_rdp_domain := [],
    cr_rdp_cert_fingerprint := []\<rparr>)"
proof -
  have "go_trim (cr_host_key q) = cr_host_key q" "cr_host_key q = [] \<or> host_key_ok (cr_host_key q)"
    using assms(4) host_key_pattern_ok by (auto simp: go_trim_def)
  moreover have "validate q = validate_ssh (q\<lparr>cr_port := if cr_port q = 0 then 22 else cr_port q\<rparr>)"
    using assms(1,2) by (cases q) (auto simp: validate_def Let_def protocol_names(1,2))
  moreover have "cr_auth_type q = js ''key'' \<or> cr_auth_type q = js ''password''" "cr_auth_type q \<noteq> []"
    using assms(3) protocol_names(6-9) by auto
  ultimately show ?thesis
    using assms(5)
    by (cases q; cases "cr_jump_server_id q") (auto simp: validate_ssh_def positive_id_def Let_def)
qed

definition usable :: "server_req \<Rightarrow> server_req" where
  "usable q = q\<lparr>cr_port := if cr_port q = 0 then 22 else cr_port q, cr_rdp_domain := [],
     cr_rdp_cert_fingerprint := []\<rparr>"

lemma form_decoded:
  assumes "form_rules f v" and "controls_ok f" and "submitted_form f v = Inr w"
  shows "bind_request (server_form_json w) = Some (request_of w)"
    and "given 0 (sf_port w) = 0 \<or> 1 \<le> given 0 (sf_port w) \<and> given 0 (sf_port w) \<le> 65535"
proof -
  note w = submitted_fields [OF assms(3)]
  obtain ms where ms: "server_form_json w = JObj ms"
    by (simp add: server_form_json_def)
  have small: "small (sf_port w)" "small (sf_copy_key_from w)" "small (sf_jump_server_id w)"
    using assms(1,2) w(3,10,11) small_positive [of "jump_server f"]
    by (auto simp: form_rules_iff controls_ok_def small_def positive_id_def int64_def split: option.splits)
  show "bind_request (server_form_json w) = Some (request_of w)"
    using assms(1) w(1,2,4) bind_form [OF small ms]
    by (simp add: bind_request_def ms request_of_def form_rules_iff)
  show "given 0 (sf_port w) = 0 \<or> 1 \<le> given 0 (sf_port w) \<and> given 0 (sf_port w) \<le> 65535"
    using assms(1) w(3) given_port by (simp add: form_rules_iff)
qed

lemma host_key_kept:
  assumes "form_rules f v" and "submitted_form f v = Inr w" and "form_protocol f \<noteq> Rdp"
  shows "given [] (sf_host_key w) = given [] (sf_host_key v)"
    and "given [] (sf_host_key v) = [] \<or> host_key_pattern (given [] (sf_host_key v))"
proof -
  show k: "given [] (sf_host_key v) = [] \<or> host_key_pattern (given [] (sf_host_key v))"
    using assms(1,3) by (simp add: form_rules_iff)
  have "js_trim (or_else (sf_host_key v) []) = given [] (sf_host_key v)"
    using k host_key_pattern_ok(3) by (cases "sf_host_key v") (auto simp: or_else_def truthy_def js_trim_def trim_start_def)
  then show "given [] (sf_host_key w) = given [] (sf_host_key v)"
    using submitted_fields(13) [OF assms(2)] assms(3) by simp
qed

lemma ssh_form_valid:
  assumes "form_rules f v" and "controls_ok f" and "submitted_form f v = Inr w" and "form_protocol f \<noteq> Rdp"
  shows "validate (request_of w) = Inr (usable (request_of w))"
proof -
  note w = submitted_fields [OF assms(3)] and p = form_decoded(2) [OF assms(1-3)]
    and h = host_key_kept [OF assms(1,3,4)]
  have "form_protocol f = Ssh"
    using assms(4) by (cases "form_protocol f") auto
  then show ?thesis
    unfolding usable_def using assms(2,4) w(9,10,13) p h
    by (intro validate_ssh_form) (auto simp: request_of_def protocol_names(4,5) controls_ok_def auth_known_def)
qed


text \<open>The dialog for a new server with a typed key, and what is typed into its fields.\<close>

definition typed_form :: form_state where
  "typed_form = run offered_step init_form [Form_Opened None, Key_Typed (js ''k'')]"

lemma typed_form_step: "typed_form = form_step sample_form (Key_Typed (js ''k''))"
  by (simp add: typed_form_def offered_step_def allowed_def sample_form_def open_form_def Let_def)

definition typed_fields :: server_form where
  "typed_fields = empty_form\<lparr>sf_name := Some (js ''web''), sf_host := Some (js ''h''),
     sf_username := Some (js ''root''), sf_port := Some 22\<rparr>"

lemma typed_form_ok:
  "form_rules typed_form typed_fields" "allowed typed_form (Form_Submitted typed_fields)" "form_protocol typed_form = Ssh"
  "\<not> is_edit typed_form" "reuse_server_id typed_form = None" "jump_server typed_form = None"
  "auth_choice typed_form = key_choice" "private_key_field typed_form = Some (js ''k'')"
  "\<exists>w. submitted_form typed_form typed_fields = Inr w"
proof -
  show t: "form_protocol typed_form = Ssh" "auth_choice typed_form = key_choice"
    "jump_server typed_form = None" "reuse_server_id typed_form = None" "\<not> is_edit typed_form"
    "private_key_field typed_form = Some (js ''k'')"
    using choices_differ
    by (simp_all add: typed_form_step sample_form_def init_form_def open_form_def type_private_key_def protocol_or_ssh_def
        is_edit_def Let_def)
  show "form_rules typed_form typed_fields"
    by (simp add: form_rules_iff t(1) typed_fields_def empty_form_def js_def)
  show "allowed typed_form (Form_Submitted typed_fields)"
    using \<open>form_rules typed_form typed_fields\<close>
    by (simp add: allowed_def) (simp add: typed_form_step sample_form_def init_form_def open_form_def
      type_private_key_def Let_def)
  show "\<exists>w. submitted_form typed_form typed_fields = Inr w"
    using choices_differ
    by (simp add: typed_form_step sample_form_def init_form_def open_form_def type_private_key_def submitted_form_def
        credentials_of_def protocol_or_ssh_def or_else_Some truthy_def Let_def)
qed


end
