(* ===== verification/Server_Store.thy ===== *)
theory Server_Store
  imports Server_Request
begin

text \<open>
  The stored servers and the handlers that change them (\<open>internal/models/server.go\<close>,
  \<open>internal/api/server_handler.go\<close>), with the encryption of their credentials
  (\<open>internal/crypto/encryption.go\<close>).

  The database serves one query at a time, but a handler makes several, and those of other requests may
  come between them: a save is a job that advances by one query per step. AES-GCM is a parameter,
  \<open>seal\<close> and \<open>unseal\<close> of a key, a nonce and a text; so are the random bytes, the clock, and whether a
  query fails.
\<close>

section \<open>Encryption\<close>

text \<open>\<open>hex.EncodeToString\<close> and \<open>hex.DecodeString\<close>.\<close>

definition hex_char :: "nat \<Rightarrow> 16 word" where
  "hex_char n = (if n < 10 then word_of_nat (0x30 + n) else word_of_nat (0x61 + (n - 10)))"

definition hex_encode :: "bytes \<Rightarrow> js_string" where
  "hex_encode bs = concat (map (\<lambda>b. [hex_char (unat b div 16), hex_char (unat b mod 16)]) bs)"

fun hex_decode :: "js_string \<Rightarrow> bytes option" where
  "hex_decode [] = Some []"
| "hex_decode [u] = None"
| "hex_decode (u # v # s) =
     (case (hex_val u, hex_val v, hex_decode s) of
        (Some a, Some b, Some bs) \<Rightarrow> Some (byte (a * 16 + b) # bs)
      | _ \<Rightarrow> None)"

type_synonym cipher = "bytes \<Rightarrow> bytes \<Rightarrow> bytes \<Rightarrow> bytes"
type_synonym decipher = "bytes \<Rightarrow> bytes \<Rightarrow> bytes \<Rightarrow> bytes option"

definition aes_key :: "js_string \<Rightarrow> bytes option" where
  "aes_key hex_key =
     (case hex_decode hex_key of
        Some k \<Rightarrow> if length k = 16 \<or> length k = 24 \<or> length k = 32 then Some k else None
      | None \<Rightarrow> None)"

text \<open>\<open>rnd\<close> gives the random bytes of the nonce, or nothing when the source fails.\<close>

definition nonce_size :: nat where "nonce_size = 12"

definition encrypt ::
    "cipher \<Rightarrow> (nat \<Rightarrow> 8 word) option \<Rightarrow> bytes \<Rightarrow> js_string \<Rightarrow> js_string option" where
  "encrypt seal rnd plaintext hex_key =
     (case (aes_key hex_key, rnd) of
        (Some k, Some f) \<Rightarrow>
          (let nonce = map f [0..<nonce_size] in Some (hex_encode (nonce @ seal k nonce plaintext)))
      | _ \<Rightarrow> None)"

definition decrypt :: "decipher \<Rightarrow> js_string \<Rightarrow> js_string \<Rightarrow> bytes option" where
  "decrypt unseal ciphertext hex_key =
     (case (hex_decode hex_key, hex_decode ciphertext, aes_key hex_key) of
        (Some _, Some data, Some k) \<Rightarrow>
          if length data < nonce_size then None else unseal k (take nonce_size data) (drop nonce_size data)
      | _ \<Rightarrow> None)"

section \<open>Rows\<close>

record row =
  rw_protocol :: js_string
  rw_rdp_domain :: js_string
  rw_rdp_cert_fingerprint :: js_string
  rw_id :: int
  rw_name :: js_string
  rw_host :: js_string
  rw_port :: int
  rw_username :: js_string
  rw_auth_type :: js_string
  rw_host_key :: js_string
  rw_private_key :: js_string
  rw_password :: js_string
  rw_description :: js_string
  rw_group :: js_string
  rw_jump_server_id :: "int option"
  rw_created_at :: js_string
  rw_updated_at :: js_string

text \<open>What a reply says of a row: \<open>ToListItem\<close>, a server of the frontend.\<close>

definition list_item :: "row \<Rightarrow> server" where
  "list_item r =
     \<lparr>sv_id = rw_id r,
      sv_protocol = (if rw_protocol r = js ''rdp'' then Some Rdp
                     else if rw_protocol r = js ''ssh'' then Some Ssh else None),
      sv_rdp_domain = Some (rw_rdp_domain r), sv_rdp_cert_fingerprint = Some (rw_rdp_cert_fingerprint r),
      sv_name = rw_name r, sv_host_key = rw_host_key r, sv_host = rw_host r, sv_port = rw_port r,
      sv_username = rw_username r, sv_auth_type = rw_auth_type r, sv_description = rw_description r,
      sv_group = rw_group r, sv_jump_server_id = rw_jump_server_id r, sv_created_at = rw_created_at r,
      sv_updated_at = rw_updated_at r\<rparr>"

text \<open>The table: its rows, and the next number of its automatic key, which never goes back.\<close>

record database =
  rows :: "int \<rightharpoonup> row"
  next_id :: int

definition empty_db :: database where
  "empty_db = \<lparr>rows = Map.empty, next_id = 1\<rparr>"

text \<open>\<open>CreateServer\<close>, \<open>UpdateServer\<close> and \<open>DeleteServer\<close>; an update of a missing row changes nothing.\<close>

definition insert_row :: "js_string \<Rightarrow> row \<Rightarrow> database \<Rightarrow> row \<times> database" where
  "insert_row now r d =
     (let i = next_id d; s = r\<lparr>rw_id := i, rw_created_at := now, rw_updated_at := now\<rparr>
      in (r\<lparr>rw_id := i\<rparr>, d\<lparr>rows := (rows d)(i \<mapsto> s), next_id := i + 1\<rparr>))"

definition update_row :: "js_string \<Rightarrow> row \<Rightarrow> database \<Rightarrow> database" where
  "update_row now r d =
     (case rows d (rw_id r) of
        None \<Rightarrow> d
      | Some old \<Rightarrow>
          d\<lparr>rows := (rows d)(rw_id r \<mapsto> r\<lparr>rw_created_at := rw_created_at old, rw_updated_at := now\<rparr>)\<rparr>)"

definition delete_row :: "int \<Rightarrow> database \<Rightarrow> database" where
  "delete_row i d = d\<lparr>rows := (rows d)(i := None)\<rparr>"

section \<open>Replies\<close>

text \<open>An error text of the code, or one of a library.\<close>

datatype refusal = Refusal js_string | Library_Error

datatype reply =
    Refused nat refusal
  | Saved nat server
  | Listed "server list"
  | Deleted

section \<open>Credentials\<close>

text \<open>
  \<open>resolveCredentials\<close>, the encrypted key and password to store. \<open>enc\<close> is \<open>Encrypt\<close> with the
  server's key; \<open>source\<close> is the outcome of the query for the server to copy from, nothing when it failed.
\<close>

definition resolve_credentials ::
    "(bytes \<Rightarrow> js_string option) \<Rightarrow> row option option \<Rightarrow> server_req \<Rightarrow> row option \<Rightarrow>
      refusal + js_string \<times> js_string" where
  "resolve_credentials enc source r current =
     (if cr_protocol r = js ''rdp'' then Inr ([], [])
      else
        (let pk = (case current of None \<Rightarrow> [] | Some s \<Rightarrow> rw_private_key s);
             pw = (case current of None \<Rightarrow> [] | Some s \<Rightarrow> rw_password s)
         in if cr_auth_type r = js ''password'' then
              (case (if cr_password r \<noteq> [] then enc (text_encode (cr_password r)) else Some pw) of
                 None \<Rightarrow> Inl Library_Error
               | Some p \<Rightarrow>
                   if p = [] then Inl (Refusal (js ''password is required for password auth''))
                   else Inr (pk, p))
            else if cr_private_key r \<noteq> [] then
              (case enc (text_encode (cr_private_key r)) of
                 None \<Rightarrow> Inl Library_Error
               | Some k \<Rightarrow>
                   if k = [] then Inl (Refusal (js ''private_key or copy_key_from is required''))
                   else Inr (k, pw))
            else if cr_copy_key_from r > 0 then
              (case source of
                 None \<Rightarrow> Inl Library_Error
               | Some None \<Rightarrow> Inl (Refusal (js ''source server has no private key''))
               | Some (Some s) \<Rightarrow>
                   if rw_private_key s = [] then Inl (Refusal (js ''source server has no private key''))
                   else Inr (rw_private_key s, pw))
            else if pk = [] then Inl (Refusal (js ''private_key or copy_key_from is required''))
            else Inr (pk, pw)))"

section \<open>Saving a server\<close>

text \<open>
  \<open>saveServer\<close>, for a new server and for an edited one. What is left of a save is its next query: the
  server it edits, the jump server, the server to copy a key from, and the write. A server that is not
  stored yet has the number 0. \<open>ok\<close> says whether the query succeeds.
\<close>

datatype save_job =
    Load_Current server_req int
  | Load_Jump server_req int "row option" int
  | Load_Source server_req int "row option"
  | Write_Row bool row

definition row_of :: "server_req \<Rightarrow> int \<Rightarrow> js_string \<Rightarrow> js_string \<Rightarrow> row" where
  "row_of q i pk pw =
     \<lparr>rw_protocol = cr_protocol q, rw_rdp_domain = cr_rdp_domain q,
      rw_rdp_cert_fingerprint = cr_rdp_cert_fingerprint q, rw_id = i, rw_name = cr_name q,
      rw_host = cr_host q, rw_port = cr_port q, rw_username = cr_username q,
      rw_auth_type = cr_auth_type q, rw_host_key = cr_host_key q, rw_private_key = pk, rw_password = pw,
      rw_description = cr_description q, rw_group = cr_group q,
      rw_jump_server_id = cr_jump_server_id q, rw_created_at = [], rw_updated_at = []\<rparr>"

definition needs_source :: "server_req \<Rightarrow> bool" where
  "needs_source q \<longleftrightarrow>
     cr_protocol q \<noteq> js ''rdp'' \<and> cr_auth_type q \<noteq> js ''password'' \<and> cr_private_key q = [] \<and>
     cr_copy_key_from q > 0"

definition resolved ::
    "(bytes \<Rightarrow> js_string option) \<Rightarrow> row option option \<Rightarrow> server_req \<Rightarrow> int \<Rightarrow> row option \<Rightarrow>
      save_job + reply" where
  "resolved enc source q i current =
     (case resolve_credentials enc source q current of
        Inl e \<Rightarrow> Inr (Refused 400 e)
      | Inr (pk, pw) \<Rightarrow> Inl (Write_Row (current \<noteq> None) (row_of q i pk pw)))"

definition after_jump ::
    "(bytes \<Rightarrow> js_string option) \<Rightarrow> server_req \<Rightarrow> int \<Rightarrow> row option \<Rightarrow> save_job + reply" where
  "after_jump enc q i current =
     (if needs_source q then Inl (Load_Source q i current) else resolved enc None q i current)"

definition after_current ::
    "(bytes \<Rightarrow> js_string option) \<Rightarrow> server_req \<Rightarrow> int \<Rightarrow> row option \<Rightarrow> save_job + reply" where
  "after_current enc q i current =
     (case cr_jump_server_id q of
        None \<Rightarrow> after_jump enc q i current
      | Some j \<Rightarrow>
          if j = i then Inr (Refused 400 (Refusal (js ''server cannot jump through itself'')))
          else Inl (Load_Jump q i current j))"

text \<open>\<open>target\<close> is the id of the address, for an edit.\<close>

definition start_save ::
    "(bytes \<Rightarrow> js_string option) \<Rightarrow> json \<Rightarrow> js_string option \<Rightarrow> save_job + reply" where
  "start_save enc body target =
     (case bind_request body of
        None \<Rightarrow> Inr (Refused 400 Library_Error)
      | Some q0 \<Rightarrow>
          (case validate q0 of
             Inl e \<Rightarrow> Inr (Refused 400 (Refusal e))
           | Inr q \<Rightarrow>
               (case target of
                  None \<Rightarrow> after_current enc q 0 None
                | Some t \<Rightarrow>
                    (case go_parse_int t of
                       Some i \<Rightarrow>
                         if i \<le> 0 then Inr (Refused 400 (Refusal (js ''invalid id'')))
                         else Inl (Load_Current q i)
                     | None \<Rightarrow> Inr (Refused 400 (Refusal (js ''invalid id'')))))))"

definition save_step ::
    "(bytes \<Rightarrow> js_string option) \<Rightarrow> bool \<Rightarrow> js_string \<Rightarrow> save_job \<Rightarrow> database \<Rightarrow>
      (save_job + reply) \<times> database" where
  "save_step enc ok now j d =
     (case j of
        Load_Current q i \<Rightarrow>
          (if \<not> ok then Inr (Refused 500 Library_Error)
           else case rows d i of
             None \<Rightarrow> Inr (Refused 404 (Refusal (js ''server not found'')))
           | Some r \<Rightarrow> after_current enc q i (Some r), d)
      | Load_Jump q i current k \<Rightarrow>
          (case if ok then rows d k else None of
             None \<Rightarrow> Inr (Refused 400 (Refusal (js ''jump server not found'')))
           | Some r \<Rightarrow>
               if rw_protocol r = js ''rdp'' then Inr (Refused 400 (Refusal (js ''jump server not found'')))
               else after_jump enc q i current, d)
      | Load_Source q i current \<Rightarrow>
          (resolved enc (if ok then Some (rows d (cr_copy_key_from q)) else None) q i current, d)
      | Write_Row update r \<Rightarrow>
          if \<not> ok then (Inr (Refused 500 Library_Error), d)
          else if update then (Inr (Saved 200 (list_item r)), update_row now r d)
          else (case insert_row now r d of (r', d') \<Rightarrow> (Inr (Saved 201 (list_item r')), d')))"

section \<open>The other handlers\<close>

text \<open>
  \<open>ListServers\<close>, by group and name (SQLite compares the bytes; the rows it finds equal keep the order
  of their keys), \<open>GetServer\<close> and \<open>DeleteServer\<close>.
\<close>

fun bytes_le :: "bytes \<Rightarrow> bytes \<Rightarrow> bool" where
  "bytes_le [] ys = True"
| "bytes_le (x # xs) [] = False"
| "bytes_le (x # xs) (y # ys) = (if x = y then bytes_le xs ys else x < y)"

definition row_before :: "row \<Rightarrow> row \<Rightarrow> bool" where
  "row_before r s =
     (if rw_group r = rw_group s then bytes_le (text_encode (rw_name r)) (text_encode (rw_name s))
      else bytes_le (text_encode (rw_group r)) (text_encode (rw_group s)))"

fun put_row :: "row \<Rightarrow> row list \<Rightarrow> row list" where
  "put_row r [] = [r]"
| "put_row r (s # ss) = (if row_before r s then r # s # ss else s # put_row r ss)"

definition all_rows :: "database \<Rightarrow> row list" where
  "all_rows d = map (\<lambda>i. the (rows d i)) (filter (\<lambda>i. rows d i \<noteq> None) [1..next_id d - 1])"

definition listed_rows :: "database \<Rightarrow> row list" where
  "listed_rows d = foldr put_row (all_rows d) []"

definition ListServers :: "bool \<Rightarrow> database \<Rightarrow> reply" where
  "ListServers ok d = (if ok then Listed (map list_item (listed_rows d)) else Refused 500 Library_Error)"

definition GetServer :: "js_string \<Rightarrow> bool \<Rightarrow> database \<Rightarrow> reply" where
  "GetServer t ok d =
     (case go_parse_int t of
        None \<Rightarrow> Refused 400 (Refusal (js ''invalid id''))
      | Some i \<Rightarrow>
          if \<not> ok then Refused 500 Library_Error
          else (case rows d i of
              None \<Rightarrow> Refused 404 (Refusal (js ''server not found''))
            | Some r \<Rightarrow> Saved 200 (list_item r)))"

definition DeleteServer :: "js_string \<Rightarrow> bool \<Rightarrow> database \<Rightarrow> reply \<times> database" where
  "DeleteServer t ok d =
     (case go_parse_int t of
        None \<Rightarrow> (Refused 400 (Refusal (js ''invalid id'')), d)
      | Some i \<Rightarrow>
          if i \<le> 0 then (Refused 400 (Refusal (js ''invalid id'')), d)
          else if \<not> ok then (Refused 500 Library_Error, d)
          else (Deleted, delete_row i d))"

section \<open>The store\<close>

text \<open>The database, the saves that are under way by the number of their request, and the replies.\<close>

record store =
  db :: database
  jobs :: "nat \<rightharpoonup> save_job"
  replies :: "(nat \<times> reply) list"

datatype store_event =
    Save nat "bytes \<Rightarrow> js_string option" json "js_string option"
  | Query nat "bytes \<Rightarrow> js_string option" bool js_string
  | Remove nat js_string bool
  | Get nat js_string bool
  | List_All nat bool

definition init_store :: store where
  "init_store = \<lparr>db = empty_db, jobs = Map.empty, replies = []\<rparr>"

definition answer :: "nat \<Rightarrow> reply \<Rightarrow> store \<Rightarrow> store" where
  "answer n a s = s\<lparr>replies := replies s @ [(n, a)]\<rparr>"

definition advance :: "nat \<Rightarrow> save_job + reply \<Rightarrow> store \<Rightarrow> store" where
  "advance n o1 s =
     (case o1 of
        Inl j \<Rightarrow> s\<lparr>jobs := (jobs s)(n \<mapsto> j)\<rparr>
      | Inr a \<Rightarrow> answer n a (s\<lparr>jobs := (jobs s)(n := None)\<rparr>))"

definition store_step :: "store \<Rightarrow> store_event \<Rightarrow> store" where
  "store_step s e =
     (case e of
        Save n enc body target \<Rightarrow>
          if jobs s n = None then advance n (start_save enc body target) s else s
      | Query n enc ok now \<Rightarrow>
          (case jobs s n of
             None \<Rightarrow> s
           | Some j \<Rightarrow> (case save_step enc ok now j (db s) of (o1, d) \<Rightarrow> advance n o1 (s\<lparr>db := d\<rparr>)))
      | Remove n t ok \<Rightarrow> (case DeleteServer t ok (db s) of (a, d) \<Rightarrow> answer n a (s\<lparr>db := d\<rparr>))
      | Get n t ok \<Rightarrow> answer n (GetServer t ok (db s)) s
      | List_All n ok \<Rightarrow> answer n (ListServers ok (db s)) s)"

end
