(* ===== verification/Server_Properties.thy ===== *)
theory Server_Properties
  imports Server_Store
begin

text \<open>
  What the server promises of the stored servers: every row is one the gateways can use, whatever
  requests are served and however their queries interleave; a reply never depends on a secret; and
  what was encrypted is decrypted again.
\<close>

unbundle bit_operations_syntax

section \<open>The invariant of the store\<close>

definition ssh_row_ok :: "row \<Rightarrow> bool" where
  "ssh_row_ok r \<longleftrightarrow>
     rw_protocol r = js ''ssh'' \<and> rw_rdp_domain r = [] \<and> rw_rdp_cert_fingerprint r = [] \<and>
     (rw_auth_type r = js ''password'' \<and> rw_password r \<noteq> [] \<or>
      rw_auth_type r = js ''key'' \<and> rw_private_key r \<noteq> []) \<and>
     (rw_host_key r = [] \<or> host_key_ok (rw_host_key r)) \<and> go_trim (rw_host_key r) = rw_host_key r \<and>
     (case rw_jump_server_id r of None \<Rightarrow> True | Some j \<Rightarrow> 0 < j \<and> j \<noteq> rw_id r)"

definition rdp_row_ok :: "row \<Rightarrow> bool" where
  "rdp_row_ok r \<longleftrightarrow>
     rw_protocol r = js ''rdp'' \<and> rw_auth_type r = js ''password'' \<and>
     rw_private_key r = [] \<and> rw_password r = [] \<and> rw_host_key r = [] \<and> rw_jump_server_id r = None \<and>
     (rw_rdp_cert_fingerprint r = [] \<or> hex_bytes (rw_rdp_cert_fingerprint r) 32) \<and>
     map lower_unit (rw_rdp_cert_fingerprint r) = rw_rdp_cert_fingerprint r"

definition row_ok :: "row \<Rightarrow> bool" where
  "row_ok r \<longleftrightarrow>
     rw_name r \<noteq> [] \<and> rw_host r \<noteq> [] \<and> rw_username r \<noteq> [] \<and> 1 \<le> rw_port r \<and> rw_port r \<le> 65535 \<and>
     (ssh_row_ok r \<or> rdp_row_ok r)"

definition db_ok :: "database \<Rightarrow> bool" where
  "db_ok d \<longleftrightarrow>
     0 < next_id d \<and>
     (\<forall>i r. rows d i = Some r \<longrightarrow> rw_id r = i \<and> 0 < i \<and> i < next_id d \<and> row_ok r)"

text \<open>What a validated request is.\<close>

definition req_ok :: "server_req \<Rightarrow> bool" where
  "req_ok q \<longleftrightarrow>
     cr_name q \<noteq> [] \<and> cr_host q \<noteq> [] \<and> cr_username q \<noteq> [] \<and> 1 \<le> cr_port q \<and> cr_port q \<le> 65535 \<and>
     (cr_protocol q = js ''ssh'' \<and> cr_rdp_domain q = [] \<and> cr_rdp_cert_fingerprint q = [] \<and>
        (cr_auth_type q = js ''key'' \<or> cr_auth_type q = js ''password'') \<and>
        (cr_host_key q = [] \<or> host_key_ok (cr_host_key q)) \<and> go_trim (cr_host_key q) = cr_host_key q \<and>
        (case cr_jump_server_id q of None \<Rightarrow> True | Some j \<Rightarrow> 0 < j) \<or>
      cr_protocol q = js ''rdp'' \<and> cr_auth_type q = js ''password'' \<and> cr_host_key q = [] \<and>
        cr_jump_server_id q = None \<and>
        (cr_rdp_cert_fingerprint q = [] \<or> hex_bytes (cr_rdp_cert_fingerprint q) 32) \<and>
        map lower_unit (cr_rdp_cert_fingerprint q) = cr_rdp_cert_fingerprint q)"

definition jump_ok :: "server_req \<Rightarrow> int \<Rightarrow> int \<Rightarrow> bool" where
  "jump_ok q i n \<longleftrightarrow> (case cr_jump_server_id q of None \<Rightarrow> True | Some j \<Rightarrow> j \<noteq> i \<and> j < n)"

definition pending_ok :: "server_req \<Rightarrow> int \<Rightarrow> row option \<Rightarrow> bool" where
  "pending_ok q i current \<longleftrightarrow> req_ok q \<and> (if current = None then i = 0 else 0 < i)"

fun job_ok :: "int \<Rightarrow> save_job \<Rightarrow> bool" where
  "job_ok n (Load_Current q i) = (req_ok q \<and> 0 < i)"
| "job_ok n (Load_Jump q i current j) = (pending_ok q i current \<and> cr_jump_server_id q = Some j \<and> j \<noteq> i)"
| "job_ok n (Load_Source q i current) = (pending_ok q i current \<and> jump_ok q i n)"
| "job_ok n (Write_Row update r) =
     (row_ok r \<and> (if update then 0 < rw_id r else rw_id r = 0) \<and>
      (case rw_jump_server_id r of None \<Rightarrow> True | Some j \<Rightarrow> j < n))"

definition store_ok :: "store \<Rightarrow> bool" where
  "store_ok s \<longleftrightarrow> db_ok (db s) \<and> (\<forall>n j. jobs s n = Some j \<longrightarrow> job_ok (next_id (db s)) j)"

fun outcome_ok :: "int \<Rightarrow> save_job + reply \<Rightarrow> bool" where
  "outcome_ok n (Inl j) = job_ok n j"
| "outcome_ok n (Inr a) = True"

definition named :: "server_req \<Rightarrow> bool" where
  "named q \<longleftrightarrow> cr_name q \<noteq> [] \<and> cr_host q \<noteq> [] \<and> cr_username q \<noteq> []"

lemma dropWhile_rev_hd: "s \<noteq> [] \<Longrightarrow> \<not> P (hd s) \<Longrightarrow> hd (rev (dropWhile P (rev s))) = hd s"
proof -
  assume s: "s \<noteq> []" "\<not> P (hd s)"
  then have "rev s = rev (tl s) @ [hd s]"
    by (cases s) simp_all
  then show ?thesis
    using s(2) by (simp add: dropWhile_append)
qed

lemma go_trim_last: "go_trim s \<noteq> [] \<Longrightarrow> \<not> go_space (last (go_trim s))"
  using hd_dropWhile [of go_space "rev (dropWhile go_space s)"]
  unfolding go_trim_def last_rev rev_is_Nil_conv by blast

lemma go_trim_hd:
  assumes "go_trim s \<noteq> []"
  shows "\<not> go_space (hd (go_trim s))"
proof -
  let ?t = "dropWhile go_space s"
  have t: "?t \<noteq> []"
    using assms by (auto simp only: go_trim_def rev.simps dropWhile.simps)
  then have "\<not> go_space (hd ?t)"
    by (rule hd_dropWhile)
  then show ?thesis
    using dropWhile_rev_hd [OF t, of go_space] unfolding go_trim_def by metis
qed

lemma go_trim_idem: "go_trim (go_trim s) = go_trim s"
  using go_trim_hd go_trim_last by (intro go_trim_id) blast

lemma lower_unit_idem: "lower_unit (lower_unit u) = lower_unit u"
proof (cases "0x41 \<le> u \<and> u \<le> 0x5A")
  case True
  then have "unat (u + 0x20) = unat u + 0x20"
    by (subst unat_add_lem [THEN iffD1]) (auto simp: word_le_nat_alt)
  then show ?thesis
    using True by (auto simp: lower_unit_def word_le_nat_alt)
qed (auto simp: lower_unit_def)

lemma validate_rdp_ok:
  assumes "validate_rdp q = Inr r" "named q" "cr_protocol q = js ''rdp''" "1 \<le> cr_port q" "cr_port q \<le> 65535"
  shows "req_ok r"
proof -
  let ?fp = "map lower_unit (filter (\<lambda>u. u \<noteq> 0x3A) (go_trim (cr_rdp_cert_fingerprint q)))"
  have "r = q\<lparr>cr_auth_type := js ''password'', cr_rdp_cert_fingerprint := ?fp\<rparr>"
    "cr_host_key q = []" "cr_jump_server_id q = None" "?fp = [] \<or> hex_bytes ?fp 32"
    using assms(1) by (auto simp: validate_rdp_def Let_def split: if_splits)
  then show ?thesis
    using assms(2-) by (simp add: req_ok_def named_def o_def lower_unit_idem)
qed

lemma validate_ssh_ok:
  assumes "validate_ssh q = Inr r" "named q" "cr_protocol q = js ''ssh''" "1 \<le> cr_port q" "cr_port q \<le> 65535"
  shows "req_ok r"
proof -
  let ?a = "if cr_auth_type q = [] then js ''key'' else cr_auth_type q"
  have "r = q\<lparr>cr_rdp_domain := [], cr_rdp_cert_fingerprint := [], cr_auth_type := ?a,
      cr_host_key := go_trim (cr_host_key q)\<rparr>"
    and "?a = js ''key'' \<or> ?a = js ''password''"
    and "go_trim (cr_host_key q) = [] \<or> host_key_ok (go_trim (cr_host_key q))"
    and "case cr_jump_server_id q of None \<Rightarrow> True | Some j \<Rightarrow> 0 < j"
    using assms(1) by (auto simp: validate_ssh_def Let_def split: if_splits option.splits)
  then show ?thesis
    using assms(2-) by (simp add: req_ok_def named_def go_trim_idem)
qed

lemma validated:
  assumes "bind_request body = Some q0" and "validate q0 = Inr q"
  shows "req_ok q"
proof -
  have "named q0"
    using assms(1) by (auto simp: named_def bind_request_def split: Option.bind_splits if_splits)
  then show ?thesis
    using assms(2) validate_rdp_ok [of _ q] validate_ssh_ok [of _ q]
    by (simp add: validate_def named_def Let_def split: if_splits)
qed

lemma credentials_resolved:
  assumes "resolve_credentials enc source q current = Inr (pk, pw)" "cr_protocol q \<noteq> js ''rdp''"
    and "cr_auth_type q = js ''key'' \<or> cr_auth_type q = js ''password''"
  shows "cr_auth_type q = js ''password'' \<and> pw \<noteq> [] \<or> cr_auth_type q = js ''key'' \<and> pk \<noteq> []"
proof (cases "cr_auth_type q = js ''password''")
  case True
  then show ?thesis
    using assms(1,2) by (auto simp: resolve_credentials_def Let_def split: if_splits option.splits)
next
  case False
  then show ?thesis
    using assms by (auto simp: resolve_credentials_def Let_def split: if_splits option.splits)
qed

lemma row_of_ok:
  assumes "pending_ok q i current" "jump_ok q i n"
    and "resolve_credentials enc source q current = Inr (pk, pw)"
  shows "row_ok (row_of q i pk pw)"
proof (cases "cr_protocol q = js ''rdp''")
  case True
  then have "rdp_row_ok (row_of q i pk pw)"
    using assms protocol_names(1)
    by (auto simp: rdp_row_ok_def row_of_def req_ok_def pending_ok_def resolve_credentials_def)
  then show ?thesis
    using assms by (simp add: row_ok_def row_of_def req_ok_def pending_ok_def)
next
  case False
  then have q: "cr_protocol q = js ''ssh''" "cr_auth_type q = js ''key'' \<or> cr_auth_type q = js ''password''"
    using assms by (auto simp: req_ok_def pending_ok_def)
  have "ssh_row_ok (row_of q i pk pw)"
    using False assms(1,2) credentials_resolved [OF assms(3) False q(2)]
    by (auto simp: ssh_row_ok_def row_of_def req_ok_def pending_ok_def jump_ok_def split: option.splits)
  then show ?thesis
    using assms by (simp add: row_ok_def row_of_def req_ok_def pending_ok_def)
qed

lemma resolved_ok:
  assumes "pending_ok q i current" "jump_ok q i n"
  shows "outcome_ok n (resolved enc source q i current)"
  using assms row_of_ok [OF assms]
  by (auto simp: resolved_def row_of_def pending_ok_def jump_ok_def split: sum.splits option.splits)

lemma after_jump_ok:
  "pending_ok q i current \<Longrightarrow> jump_ok q i n \<Longrightarrow> outcome_ok n (after_jump enc q i current)"
  by (simp add: after_jump_def resolved_ok)

lemma after_current_ok:
  "pending_ok q i current \<Longrightarrow> outcome_ok n (after_current enc q i current)"
  by (auto simp: after_current_def jump_ok_def intro: after_jump_ok split: option.split)

lemma start_save_ok: "outcome_ok n (start_save enc body target)"
  by (auto simp: start_save_def pending_ok_def dest: validated intro!: after_current_ok
      split: option.splits sum.splits)

text \<open>A row that is written keeps the database good; the numbers only grow.\<close>

lemma row_ok_times: "row_ok (r\<lparr>rw_created_at := c, rw_updated_at := u\<rparr>) = row_ok r"
  by (simp add: row_ok_def ssh_row_ok_def rdp_row_ok_def split: option.split)

lemma row_ok_id:
  "row_ok r \<Longrightarrow> (case rw_jump_server_id r of None \<Rightarrow> True | Some j \<Rightarrow> j \<noteq> i) \<Longrightarrow> row_ok (r\<lparr>rw_id := i\<rparr>)"
  by (auto simp: row_ok_def ssh_row_ok_def rdp_row_ok_def split: option.splits)

lemma update_row_ok:
  assumes "db_ok d" "row_ok r"
  shows "db_ok (update_row now r d) \<and> next_id (update_row now r d) = next_id d"
proof (cases "rows d (rw_id r)")
  case (Some old)
  then show ?thesis
    using assms row_ok_times [where r = r and c = "rw_created_at old" and u = now]
    by (auto simp: db_ok_def update_row_def)
qed (use assms in \<open>simp add: update_row_def\<close>)

lemma insert_row_ok:
  assumes "db_ok d" "row_ok r" "case rw_jump_server_id r of None \<Rightarrow> True | Some j \<Rightarrow> j < next_id d"
  shows "db_ok (snd (insert_row now r d)) \<and> next_id d \<le> next_id (snd (insert_row now r d))"
proof -
  have "row_ok (r\<lparr>rw_id := next_id d\<rparr>)"
    using assms(2,3) by (intro row_ok_id) (auto split: option.splits)
  then have "row_ok (r\<lparr>rw_id := next_id d, rw_created_at := now, rw_updated_at := now\<rparr>)"
    using row_ok_times [where r = "r\<lparr>rw_id := next_id d\<rparr>" and c = now and u = now] by simp
  then show ?thesis
    using assms(1) by (fastforce simp: db_ok_def insert_row_def Let_def)
qed

lemma delete_row_ok: "db_ok d \<Longrightarrow> db_ok (delete_row i d) \<and> next_id (delete_row i d) = next_id d"
  by (simp add: db_ok_def delete_row_def)

lemma job_ok_mono: "job_ok n j \<Longrightarrow> n \<le> m \<Longrightarrow> job_ok m j"
  by (cases j) (auto simp: jump_ok_def split: option.splits)

lemma save_step_ok:
  assumes "db_ok d" "job_ok (next_id d) j" "save_step enc ok now j d = (o1, d')"
  shows "db_ok d' \<and> next_id d \<le> next_id d' \<and> outcome_ok (next_id d') o1"
proof (cases j)
  case (Load_Current q i)
  then show ?thesis
    using assms by (auto simp: save_step_def pending_ok_def intro!: after_current_ok split: option.split)
next
  case (Load_Jump q i current k)
  then show ?thesis
    using assms
    by (auto simp: save_step_def db_ok_def jump_ok_def intro!: after_jump_ok split: if_splits option.splits)
next
  case (Load_Source q i current)
  then show ?thesis
    using assms by (auto simp: save_step_def resolved_ok)
next
  case (Write_Row update r)
  then show ?thesis
    using assms update_row_ok [of d r now] insert_row_ok [of d r now]
    by (auto simp: save_step_def split: if_splits prod.splits)
qed

lemma advance_ok:
  assumes "store_ok s" "outcome_ok (next_id (db s)) o1"
  shows "store_ok (advance n o1 s)"
  using assms by (cases o1) (auto simp: advance_def answer_def store_ok_def)

lemma store_ok_db:
  "store_ok s \<Longrightarrow> db_ok d \<Longrightarrow> next_id (db s) \<le> next_id d \<Longrightarrow> store_ok (s\<lparr>db := d\<rparr>)"
  by (auto simp: store_ok_def intro: job_ok_mono)

lemma answer_ok [simp]: "store_ok (answer n a s) = store_ok s"
  by (simp add: answer_def store_ok_def)

lemma store_step_ok:
  assumes "store_ok s"
  shows "store_ok (store_step s e)"
proof (cases e)
  case (Save n enc body target)
  then show ?thesis
    using assms start_save_ok by (auto simp: store_step_def intro: advance_ok)
next
  case (Query n enc ok now)
  then show ?thesis
    using assms save_step_ok [of "db s" _ enc ok now]
    by (fastforce simp: store_step_def store_ok_def [of s] intro!: advance_ok store_ok_db
        split: option.split prod.split)
next
  case (Remove n t ok)
  then show ?thesis
    using assms delete_row_ok
    by (auto simp: store_step_def DeleteServer_def store_ok_def [of s]
        intro!: store_ok_db split: option.splits)
qed (use assms in \<open>simp_all add: store_step_def\<close>)

interpretation servers: machine store_step store_ok
  by unfold_locales (rule store_step_ok)

lemma init_store_ok [simp]: "store_ok init_store"
  by (simp add: store_ok_def init_store_def db_ok_def empty_db_def)

text \<open>
  Claim C3. From an empty database, whatever requests are served, however their queries interleave,
  whichever of them fail, and whatever encryption gives: every stored row has its own id as key and
  is one a gateway can use. It has a name, a host, a user and a port between 1 and 65535; an SSH row has
  a credential of its authentication type, a well-formed pinned host key or none, and never jumps
  through itself; an RDP row holds no credential, no SSH setting, and a certificate fingerprint of 32 bytes or none.
\<close>

theorem stored_servers_stay_valid:
  assumes "rows (db (run store_step init_store es)) i = Some r"
  shows "rw_id r = i \<and> 0 < i \<and> row_ok r"
proof -
  have "db_ok (db (run store_step init_store es))"
    using servers.run_inv [OF init_store_ok] by (simp only: store_ok_def)
  then show ?thesis
    using assms unfolding db_ok_def by blast
qed

text \<open>A form that the server accepts, stored by two events.\<close>

definition sample_server_form :: server_form where
  "sample_server_form =
     \<lparr>sf_protocol = Some Ssh, sf_rdp_domain = None, sf_rdp_cert_fingerprint = None,
      sf_name = Some (js ''web''), sf_host_key = Some [], sf_host = Some (js ''10.0.0.8''),
      sf_port = Some 2222, sf_username = Some (js ''ops''), sf_auth_type = Some key_choice,
      sf_private_key = Some (js ''k''), sf_password = Some [], sf_copy_key_from = Some 0,
      sf_jump_server_id = None, sf_group = Some (js ''prod''), sf_description = None\<rparr>"

definition seal_text :: "bytes \<Rightarrow> js_string option" where
  "seal_text p = Some (js ''00'')"

definition sample_saves :: "store_event list" where
  "sample_saves = [Save 0 seal_text (server_form_json sample_server_form) None, Query 0 seal_text True (js ''t0'')]"

lemma bind_server_form:
  assumes "small (sf_port w)" "small (sf_copy_key_from w)" "small (sf_jump_server_id w)" "named (request_of w)"
  shows "bind_request (server_form_json w) = Some (request_of w)"
proof -
  obtain ms where ms: "server_form_json w = JObj ms"
    by (simp add: server_form_json_def)
  show ?thesis
    using bind_form [OF assms(1-3) ms] assms(4) by (simp add: bind_request_def ms named_def)
qed

lemma sample_request:
  "bind_request (server_form_json sample_server_form) = Some (request_of sample_server_form)"
  by (rule bind_server_form)
    (simp_all add: sample_server_form_def small_def int64_def named_def request_of_def js_def)

lemma sample_valid: "validate (request_of sample_server_form) = Inr (request_of sample_server_form)"
proof -
  let ?q = "request_of sample_server_form"
  have "validate ?q = Inr (?q\<lparr>cr_port := if cr_port ?q = 0 then 22 else cr_port ?q, cr_rdp_domain := [],
      cr_rdp_cert_fingerprint := []\<rparr>)"
    by (rule validate_ssh_form)
      (simp_all add: sample_server_form_def request_of_def protocol_names(5) positive_id_def)
  then show ?thesis
    by (simp add: sample_server_form_def request_of_def)
qed

definition sample_row :: row where
  "sample_row = (row_of (request_of sample_server_form) 1 (js ''00'') [])\<lparr>rw_created_at := js ''t0'', rw_updated_at := js ''t0''\<rparr>"

lemma sample_is_saved:
  "db (run store_step init_store sample_saves) = \<lparr>rows = [1 \<mapsto> sample_row], next_id = 2\<rparr>"
proof -
  let ?q = "request_of sample_server_form"
  have "after_current seal_text ?q 0 None = Inl (Write_Row False (row_of ?q 0 (js ''00'') []))"
    by (simp add: after_current_def after_jump_def needs_source_def resolved_def resolve_credentials_def
        request_of_def sample_server_form_def protocol_names seal_text_def Let_def js_def)
  then show ?thesis
    by (simp add: sample_saves_def store_step_def init_store_def start_save_def sample_request sample_valid
        advance_def answer_def save_step_def insert_row_def empty_db_def sample_row_def row_of_def Let_def)
qed

lemma sample_row_ok: "row_ok sample_row \<and> rw_id sample_row = 1"
proof -
  have "store_ok (run store_step init_store sample_saves)"
    using servers.run_inv [OF init_store_ok] .
  then show ?thesis
    by (simp add: store_ok_def sample_is_saved db_ok_def)
qed

theorem stored_servers_stay_valid_witness:
  "rows (db (run store_step init_store sample_saves)) 1 = Some sample_row
    \<and> rw_id sample_row = 1 \<and> 0 < (1 :: int) \<and> row_ok sample_row"
  using stored_servers_stay_valid [of sample_saves 1 sample_row] sample_is_saved by simp

section \<open>Encrypted credentials\<close>

lemma hex_val_char:
  assumes "n < 16"
  shows "hex_val (hex_char n) = Some n"
proof -
  have "list_all (\<lambda>n. hex_val (hex_char n) = Some n) [0..<16]"
    by code_simp
  then show ?thesis
    using assms by (simp add: list_all_iff del: upt_rec_numeral)
qed

lemma hex_round_trip [simp]: "hex_decode (hex_encode bs) = Some bs"
proof (induction bs)
  case Nil
  then show ?case by (simp add: hex_encode_def)
next
  case (Cons b bs)
  have "unat b < 256"
    using unsigned_less [of b] by simp
  moreover have "byte (unat b div 16 * 16 + unat b mod 16) = b"
    by (simp add: byte_def)
  ultimately show ?case
    using Cons by (simp add: hex_encode_def hex_val_char less_mult_imp_div_less)
qed

lemma encrypt_shape:
  assumes "encrypt seal rnd plaintext hex_key = Some c"
  obtains k n where "aes_key hex_key = Some k" "length n = nonce_size" "c = hex_encode (n @ seal k n plaintext)"
proof -
  obtain k f where "aes_key hex_key = Some k"
    and "c = hex_encode (map f [0..<nonce_size] @ seal k (map f [0..<nonce_size]) plaintext)"
    using assms by (auto simp: encrypt_def Let_def split: option.splits)
  then show ?thesis
    by (intro that [of k "map f [0..<nonce_size]"]) simp_all
qed

lemma encrypt_not_empty: "encrypt seal rnd plaintext hex_key = Some c \<Longrightarrow> c \<noteq> []"
  by (erule encrypt_shape) (auto simp: hex_encode_def nonce_size_def)

lemma decrypt_encrypt:
  assumes "\<And>k n p. length n = nonce_size \<Longrightarrow> unseal k n (seal k n p) = Some p"
    and "encrypt seal rnd plaintext hex_key = Some c"
  shows "decrypt unseal c hex_key = Some plaintext"
  using assms(2)
proof (rule encrypt_shape)
  fix k n
  assume k: "aes_key hex_key = Some k" and n: "length n = nonce_size" "c = hex_encode (n @ seal k n plaintext)"
  then have "hex_decode hex_key = Some k"
    by (auto simp: aes_key_def split: option.splits if_splits)
  then show ?thesis
    using k n assms(1) by (simp add: decrypt_def)
qed

definition sample_key :: js_string where
  "sample_key = replicate 64 0x30"

definition sample_seal :: cipher where
  "sample_seal k n p = map (\<lambda>b. b XOR hd k XOR hd n) p @ replicate 16 (hd n)"

definition sample_unseal :: decipher where
  "sample_unseal k n c =
     (if 16 \<le> length c \<and> drop (length c - 16) c = replicate 16 (hd n)
      then Some (map (\<lambda>b. b XOR hd k XOR hd n) (take (length c - 16) c)) else None)"

lemma xor_twice: "(b XOR x XOR y) XOR x XOR y = (b :: 8 word)"
  by (rule bit_word_eqI) (auto simp: bit_simps)

lemma sample_cipher: "sample_unseal k n (sample_seal k n p) = Some p"
  by (simp add: sample_unseal_def sample_seal_def o_def xor_twice)

section \<open>Secrets stay in the database\<close>

text \<open>
  Two rows are alike when they differ in their encrypted secrets only, and agree on which of them they have.
\<close>

definition shown :: "row \<Rightarrow> row" where
  "shown r = r\<lparr>rw_private_key := [], rw_password := []\<rparr>"

definition alike :: "row \<Rightarrow> row \<Rightarrow> bool" where
  "alike r r' \<longleftrightarrow>
     shown r = shown r' \<and> (rw_private_key r = []) = (rw_private_key r' = []) \<and>
     (rw_password r = []) = (rw_password r' = [])"

definition alike_db :: "database \<Rightarrow> database \<Rightarrow> bool" where
  "alike_db d d' \<longleftrightarrow> next_id d = next_id d' \<and> (\<forall>i. rel_option alike (rows d i) (rows d' i))"

fun alike_job :: "save_job \<Rightarrow> save_job \<Rightarrow> bool" where
  "alike_job (Load_Current q i) j = (j = Load_Current q i)"
| "alike_job (Load_Jump q i c k) j = (\<exists>c'. j = Load_Jump q i c' k \<and> rel_option alike c c')"
| "alike_job (Load_Source q i c) j = (\<exists>c'. j = Load_Source q i c' \<and> rel_option alike c c')"
| "alike_job (Write_Row u r) j = (\<exists>r'. j = Write_Row u r' \<and> alike r r')"

definition alike_store :: "store \<Rightarrow> store \<Rightarrow> bool" where
  "alike_store s s' \<longleftrightarrow>
     alike_db (db s) (db s') \<and> (\<forall>n. rel_option alike_job (jobs s n) (jobs s' n)) \<and> replies s = replies s'"

text \<open>Encryption under another key, with another nonce: it fails on the same texts.\<close>

definition alike_enc :: "(bytes \<Rightarrow> js_string option) \<Rightarrow> (bytes \<Rightarrow> js_string option) \<Rightarrow> bool" where
  "alike_enc enc enc' \<longleftrightarrow> (\<forall>p. rel_option (\<lambda>c c'. (c = []) = (c' = [])) (enc p) (enc' p))"

fun alike_event :: "store_event \<Rightarrow> store_event \<Rightarrow> bool" where
  "alike_event (Save n enc body t) e = (\<exists>enc'. e = Save n enc' body t \<and> alike_enc enc enc')"
| "alike_event (Query n enc ok now) e = (\<exists>enc'. e = Query n enc' ok now \<and> alike_enc enc enc')"
| "alike_event e e' = (e' = e)"

abbreviation alike_outcome :: "save_job + reply \<Rightarrow> save_job + reply \<Rightarrow> bool" where
  "alike_outcome \<equiv> rel_sum alike_job (=)"

lemma shown_fields:
  assumes "shown r = shown r'"
  shows "list_item r = list_item r'" "rw_id r = rw_id r'" "rw_protocol r = rw_protocol r'"
    "rw_group r = rw_group r'" "rw_name r = rw_name r'" "rw_created_at r = rw_created_at r'"
  using assms by (cases r; cases r'; simp add: shown_def list_item_def)+

abbreviation alike_text :: "js_string \<Rightarrow> js_string \<Rightarrow> bool" where
  "alike_text k k' \<equiv> (k = []) = (k' = [])"

definition stored :: "(row \<Rightarrow> js_string) \<Rightarrow> row option \<Rightarrow> js_string" where
  "stored f c = (case c of None \<Rightarrow> [] | Some r \<Rightarrow> f r)"

lemma alike_stored:
  "rel_option alike c c' \<Longrightarrow> alike_text (stored rw_private_key c) (stored rw_private_key c')"
  "rel_option alike c c' \<Longrightarrow> alike_text (stored rw_password c) (stored rw_password c')"
  by (cases c; cases c'; simp add: stored_def alike_def)+

lemma alike_credentials:
  assumes "alike_enc enc enc'" "rel_option alike c c'"
    and "rel_option (rel_option alike) source source'"
  shows "rel_sum (=) (rel_prod alike_text alike_text)
    (resolve_credentials enc source q c) (resolve_credentials enc' source' q c')"
proof -
  note r = resolve_credentials_def Let_def stored_def [symmetric]
  note st = alike_stored [OF assms(2)]
  have e: "rel_option alike_text (enc p) (enc' p)" for p
    using assms(1) by (simp add: alike_enc_def)
  consider "cr_protocol q = js ''rdp''"
    | "cr_protocol q \<noteq> js ''rdp''" "cr_auth_type q = js ''password''"
    | "cr_protocol q \<noteq> js ''rdp''" "cr_auth_type q \<noteq> js ''password''" "cr_private_key q \<noteq> []"
    | "cr_protocol q \<noteq> js ''rdp''" "cr_auth_type q \<noteq> js ''password''" "cr_private_key q = []"
    by blast
  then show ?thesis
  proof cases
    case 2
    then show ?thesis
      using st e [of "text_encode (cr_password q)"]
      by (cases "enc (text_encode (cr_password q))"; cases "enc' (text_encode (cr_password q))") (simp_all add: r)
  next
    case 3
    then show ?thesis
      using st e [of "text_encode (cr_private_key q)"]
      by (cases "enc (text_encode (cr_private_key q))"; cases "enc' (text_encode (cr_private_key q))") (simp_all add: r)
  next
    case 4
    then show ?thesis
      using st assms(3)
      by (cases source; cases source'; cases "the source"; cases "the source'") (simp_all add: r alike_def)
  qed (simp add: r)
qed

lemma alike_resolved:
  assumes "alike_enc enc enc'" "rel_option alike c c'" "rel_option (rel_option alike) source source'"
  shows "alike_outcome (resolved enc source q i c) (resolved enc' source' q i c')"
  using alike_credentials [OF assms, of q] assms(2)
  by (cases c; cases c')
    (auto simp: resolved_def row_of_def alike_def shown_def elim!: rel_sum.cases split: sum.splits)

lemma alike_after_jump:
  assumes "alike_enc enc enc'" "rel_option alike c c'"
  shows "alike_outcome (after_jump enc q i c) (after_jump enc' q i c')"
  using assms alike_resolved [OF assms, of None None] by (simp add: after_jump_def)

lemma alike_after_current:
  assumes "alike_enc enc enc'" "rel_option alike c c'"
  shows "alike_outcome (after_current enc q i c) (after_current enc' q i c')"
  using assms alike_after_jump [OF assms] by (simp add: after_current_def split: option.split)

lemma alike_start:
  assumes "alike_enc enc enc'"
  shows "alike_outcome (start_save enc body t) (start_save enc' body t)"
  using alike_after_current [OF assms, of None None] by (simp add: start_save_def split: option.split sum.split)

lemma alike_rows: "alike_db d d' \<Longrightarrow> rel_option alike (rows d i) (rows d' i)"
  by (simp add: alike_db_def)

lemma alike_put:
  assumes "alike_db d d'" "alike r r'"
  shows "alike_db (d\<lparr>rows := (rows d)(i \<mapsto> r)\<rparr>) (d'\<lparr>rows := (rows d')(i \<mapsto> r')\<rparr>)"
    "alike_db (d\<lparr>rows := (rows d)(i \<mapsto> r), next_id := n\<rparr>) (d'\<lparr>rows := (rows d')(i \<mapsto> r'), next_id := n\<rparr>)"
  using assms unfolding alike_db_def by simp_all

lemma alike_write:
  assumes "alike_db d d'" "alike r r'"
  shows "alike_db (update_row now r d) (update_row now r' d')"
    and "alike_db (snd (insert_row now r d)) (snd (insert_row now r' d'))"
    and "list_item (fst (insert_row now r d)) = list_item (fst (insert_row now r' d'))"
proof -
  have s: "shown r = shown r'" "rw_id r = rw_id r'" "next_id d = next_id d'"
    using assms shown_fields(2) [of r r'] by (auto simp: alike_def alike_db_def)
  then have u: "alike (r\<lparr>rw_id := i, rw_created_at := c, rw_updated_at := now\<rparr>) (r'\<lparr>rw_id := i, rw_created_at := c, rw_updated_at := now\<rparr>)"
    "alike (r\<lparr>rw_created_at := c, rw_updated_at := now\<rparr>) (r'\<lparr>rw_created_at := c, rw_updated_at := now\<rparr>)" for i c
    using assms(2) by (cases r; cases r'; simp add: alike_def shown_def)+
  show "list_item (fst (insert_row now r d)) = list_item (fst (insert_row now r' d'))"
    using s by (cases r; cases r') (simp add: insert_row_def shown_def list_item_def Let_def)
  show "alike_db (snd (insert_row now r d)) (snd (insert_row now r' d'))"
    using alike_put(2) [OF assms(1) u(1)] s(3) by (simp add: insert_row_def Let_def)
  show "alike_db (update_row now r d) (update_row now r' d')"
  proof (cases "rows d (rw_id r)")
    case None
    then show ?thesis
      using assms(1) alike_rows [OF assms(1), of "rw_id r"] s by (simp add: update_row_def)
  next
    case (Some old)
    then obtain old' where o: "rows d' (rw_id r) = Some old'" "alike old old'"
      using alike_rows [OF assms(1), of "rw_id r"] unfolding option_rel_Some1 Some by blast
    have c: "rw_created_at old' = rw_created_at old"
      using o(2) shown_fields(6) unfolding alike_def by metis
    have "rows d' (rw_id r') = Some old'"
      using o(1) s(2) by simp
    then show ?thesis
      using alike_put(1) [OF assms(1) u(2), of "rw_id r" "rw_created_at old"]
      unfolding update_row_def s(2) [symmetric] Some o(1) option.case c by simp
  qed
qed

lemma alike_fields:
  assumes "alike r r'"
  shows "list_item r' = list_item r" "rw_protocol r' = rw_protocol r"
    "rw_group r' = rw_group r" "rw_name r' = rw_name r"
  using assms shown_fields [of r' r] by (simp_all add: alike_def)

lemma alike_row_cases:
  assumes "alike_db d d'"
  obtains "rows d i = None" "rows d' i = None"
  | r r' where "rows d i = Some r" "rows d' i = Some r'" "alike r r'"
  using alike_rows [OF assms, of i] by (cases rule: option.rel_cases) blast+

lemma alike_save_step:
  assumes "alike_enc enc enc'" "alike_job j j'" "alike_db d d'"
  shows "rel_prod alike_outcome alike_db (save_step enc ok now j d) (save_step enc' ok now j' d')"
proof (cases j)
  case (Load_Current q i)
  then show ?thesis
    using assms(2,3) alike_after_current [OF assms(1)]
    by (cases rule: alike_row_cases [OF assms(3), of i]) (simp_all add: save_step_def)
next
  case (Load_Jump q i c k)
  then obtain c' where j': "j' = Load_Jump q i c' k" and c: "rel_option alike c c'"
    using assms(2) by auto
  show ?thesis
  proof (cases rule: alike_row_cases [OF assms(3), of k])
    case (2 r r')
    then show ?thesis
      using alike_fields(2) [OF 2(3)] assms(3) alike_after_jump [OF assms(1) c, of q i]
      by (simp add: save_step_def Load_Jump j')
  qed (use assms(3) in \<open>simp add: save_step_def Load_Jump j'\<close>)
next
  case (Load_Source q i c)
  then obtain c' where j': "j' = Load_Source q i c'" and c: "rel_option alike c c'"
    using assms(2) by auto
  then show ?thesis
    using assms(3) alike_rows [OF assms(3), of "cr_copy_key_from q"]
      alike_resolved [OF assms(1) c, of "if ok then Some (rows d (cr_copy_key_from q)) else None"
        "if ok then Some (rows d' (cr_copy_key_from q)) else None" q i]
    by (simp add: save_step_def Load_Source split: if_splits)
next
  case (Write_Row u r)
  then obtain r' where j': "j' = Write_Row u r'" and a: "alike r r'"
    using assms(2) by auto
  note w = alike_write [OF assms(3) a, of now]
  obtain x e x' e' where i: "insert_row now r d = (x, e)" "insert_row now r' d' = (x', e')"
    by fastforce
  show ?thesis
    using w assms(3) alike_fields(1) [OF a] i by (simp add: save_step_def Write_Row j')
qed

lemma alike_order: "alike r r' \<Longrightarrow> alike s s' \<Longrightarrow> row_before r s = row_before r' s'"
  using alike_fields(3,4) [of r r'] alike_fields(3,4) [of s s'] by (simp add: row_before_def)

lemma alike_put_row:
  assumes "alike r r'" "list_all2 alike xs ys"
  shows "list_all2 alike (put_row r xs) (put_row r' ys)"
  using assms(2) by (induction rule: list_all2_induct) (simp_all add: assms(1) alike_order [OF assms(1)])

lemma alike_sorted:
  "list_all2 alike xs ys \<Longrightarrow> list_all2 alike (foldr put_row xs []) (foldr put_row ys [])"
  by (induction rule: list_all2_induct) (simp_all add: alike_put_row)

lemma alike_listed:
  assumes "alike_db d d'"
  shows "map list_item (listed_rows d') = map list_item (listed_rows d)"
proof -
  let ?is = "filter (\<lambda>i. rows d i \<noteq> None) [1..next_id d - 1]"
  have n: "(rows d' i = None) = (rows d i = None)" for i
    by (cases rule: alike_row_cases [OF assms, of i]) simp_all
  have "alike (the (rows d i)) (the (rows d' i))" if "i \<in> set ?is" for i
    using that by (cases rule: alike_row_cases [OF assms, of i]) simp_all
  then have "list_all2 alike (map (\<lambda>i. the (rows d i)) ?is) (map (\<lambda>i. the (rows d' i)) ?is)"
    unfolding list_all2_map1 list_all2_map2 list_all2_same by blast
  then have "list_all2 alike (listed_rows d) (listed_rows d')"
    using assms n alike_sorted unfolding listed_rows_def all_rows_def alike_db_def by simp
  then show ?thesis
    by (simp add: list_all2_conv_all_nth list_eq_iff_nth_eq alike_fields)
qed

lemma alike_delete: "alike_db d d' \<Longrightarrow> alike_db (delete_row i d) (delete_row i d')"
  by (simp add: alike_db_def delete_row_def)

lemma alike_replies:
  assumes "alike_db d d'"
  shows "ListServers ok d' = ListServers ok d" and "GetServer t ok d' = GetServer t ok d"
    and "rel_prod (=) alike_db (DeleteServer t ok d) (DeleteServer t ok d')"
proof -
  show "ListServers ok d' = ListServers ok d"
    using alike_listed [OF assms] by (simp add: ListServers_def)
  show "GetServer t ok d' = GetServer t ok d"
  proof (cases "go_parse_int t")
    case (Some i)
    then show ?thesis
      by (cases rule: alike_row_cases [OF assms, of i]) (simp_all add: GetServer_def alike_fields)
  qed (simp add: GetServer_def)
  show "rel_prod (=) alike_db (DeleteServer t ok d) (DeleteServer t ok d')"
    using assms alike_delete by (simp add: DeleteServer_def split: option.split)
qed

lemma alike_advance:
  assumes "alike_store s s'" "alike_db d d'" "alike_outcome o1 o2"
  shows "alike_store (advance n o1 (s\<lparr>db := d\<rparr>)) (advance n o2 (s'\<lparr>db := d'\<rparr>))"
  using assms by (cases o1; cases o2) (auto simp: advance_def answer_def alike_store_def)

lemma alike_answer:
  "alike_store s s' \<Longrightarrow> alike_db d d' \<Longrightarrow> alike_store (answer n a (s\<lparr>db := d\<rparr>)) (answer n a (s'\<lparr>db := d'\<rparr>))"
  by (simp add: answer_def alike_store_def)

lemma alike_step:
  assumes "alike_store s s'" "alike_event e e'"
  shows "alike_store (store_step s e) (store_step s' e')"
proof -
  have d: "alike_db (db s) (db s')" and j: "\<And>n. rel_option alike_job (jobs s n) (jobs s' n)"
    using assms(1) by (simp_all add: alike_store_def)
  have self: "s\<lparr>db := db s\<rparr> = s" "s'\<lparr>db := db s'\<rparr> = s'"
    by simp_all
  show ?thesis
  proof (cases e)
    case (Save n enc body t)
    then obtain enc' where e': "e' = Save n enc' body t" and c: "alike_enc enc enc'"
      using assms(2) by auto
    then show ?thesis
      using Save assms(1) j [of n] alike_advance [OF assms(1) d alike_start [OF c, of body t], of n]
      by (auto simp: store_step_def elim!: option.rel_cases)
  next
    case (Query n enc ok now)
    then obtain enc' where e': "e' = Query n enc' ok now" and c: "alike_enc enc enc'"
      using assms(2) by auto
    show ?thesis
      using j [of n]
    proof (cases rule: option.rel_cases)
      case None
      then show ?thesis
        using Query e' assms(1) by (simp add: store_step_def)
    next
      case (Some k k')
      show ?thesis
        using alike_save_step [OF c Some(3) d, of ok now] Some(1,2)
        by (auto simp: store_step_def Query e' intro: alike_advance [OF assms(1)] split: prod.split)
    qed
  next
    case (Remove n t ok)
    then show ?thesis
      using assms alike_replies(3) [OF d, of t ok]
      by (auto simp: store_step_def intro: alike_answer split: prod.split)
  next
    case (Get n t ok)
    then show ?thesis
      using assms alike_replies(2) [OF d, of t ok] alike_answer [OF assms(1) d] by (simp add: store_step_def)
  next
    case (List_All n ok)
    then show ?thesis
      using assms alike_replies(1) [OF d, of ok] alike_answer [OF assms(1) d] by (simp add: store_step_def)
  qed
qed


definition other_row :: row where
  "other_row = sample_row\<lparr>rw_private_key := js ''ff''\<rparr>"

definition one_row :: "row \<Rightarrow> store" where
  "one_row r = \<lparr>db = \<lparr>rows = [1 \<mapsto> r], next_id = 2\<rparr>, jobs = Map.empty, replies = []\<rparr>"


end
