(* ===== verification/Server_Edit.thy ===== *)
theory Server_Edit
  imports Server_Properties
begin

text \<open>
  An edit from end to end: the dialog of the frontend opened for a stored server, submitted with the
  values it was filled with, sent, decoded, validated and stored.
\<close>

section \<open>The form of a stored server\<close>

definition is_rdp :: "row \<Rightarrow> bool" where
  "is_rdp r \<longleftrightarrow> rw_protocol r = js ''rdp''"

definition row_form :: "row \<Rightarrow> server_form" where
  "row_form r =
     \<lparr>sf_protocol = Some (if is_rdp r then Rdp else Ssh), sf_rdp_domain = Some (rw_rdp_domain r),
      sf_rdp_cert_fingerprint = Some (rw_rdp_cert_fingerprint r), sf_name = Some (rw_name r),
      sf_host_key = Some (rw_host_key r), sf_host = Some (rw_host r), sf_port = Some (rw_port r),
      sf_username = Some (rw_username r), sf_auth_type = Some (rw_auth_type r),
      sf_private_key = Some [], sf_password = Some [], sf_copy_key_from = Some 0,
      sf_jump_server_id = rw_jump_server_id r, sf_group = Some (rw_group r),
      sf_description = Some (rw_description r)\<rparr>"

lemma or_else_text: "or_else (Some t) [] = t"
  by (simp add: or_else_Some)

lemma host_key_trimmed:
  assumes "host_key_ok s" "go_trim s = s"
  shows "js_trim s = s"
proof (rule js_trim_id)
  have p: "sha256_prefix = js ''SHA256:''" "length sha256_prefix = 7"
    by (simp_all add: sha256_prefix_def js_def)
  have s: "s = js ''SHA256:'' @ drop 7 s"
    using assms(1) p by (metis append_take_drop_id host_key_ok_def starts_with_def)
  have b: "list_all base64_unit (filter (\<lambda>u. u \<noteq> 0x0D \<and> u \<noteq> 0x0A) (drop 7 s))"
    and n: "filter (\<lambda>u. u \<noteq> 0x0D \<and> u \<noteq> 0x0A) (drop 7 s) \<noteq> []"
    using assms(1) p by (auto simp: host_key_ok_def base64_bytes_def Let_def)
  then have d: "drop 7 s \<noteq> []"
    by auto
  have "\<not> go_space (last s)"
    using go_trim_last [of s] assms(2) d by (cases "s = []") simp_all
  moreover have "last s \<in> set (drop 7 s)"
    using d s by (metis last_appendR last_in_set)
  ultimately have "base64_unit (last s)"
    using b by (auto simp: list_all_iff go_space_def)
  then have "\<not> js_space (last s)"
    using base64_unit_plain by blast
  moreover have "hd s = 0x53"
    using arg_cong [OF s, of hd] by (simp add: js_def)
  ultimately show "s = [] \<or> \<not> js_space (hd s) \<and> \<not> js_space (last s)"
    by (simp add: js_space_def)
qed

lemma ssh_edit:
  assumes "ssh_row_ok r"
  shows "submitted_form (open_form (Some (list_item r)) f) (filled (open_form (Some (list_item r)) f))
    = Inr (row_form r)"
proof -
  have "sv_protocol (list_item r) = Some Ssh" "\<not> is_rdp r"
    using assms protocol_names(1) by (auto simp: ssh_row_ok_def list_item_def is_rdp_def)
  moreover have "js_trim (rw_host_key r) = rw_host_key r"
    using assms host_key_trimmed by (auto simp: ssh_row_ok_def js_trim_def trim_start_def)
  moreover have "rw_auth_type r \<noteq> []" "rw_jump_server_id r \<noteq> Some 0"
    using assms protocol_names by (auto simp: ssh_row_ok_def)
  ultimately show ?thesis
    using unchanged_edit_is_the_server [of "list_item r" f]
    by (simp add: list_item_def row_form_def or_else_text)
qed

lemma rdp_edit:
  assumes "rdp_row_ok r"
  shows "submitted_form (open_form (Some (list_item r)) f) (filled (open_form (Some (list_item r)) f))
    = Inr (row_form r)"
proof -
  have "sv_protocol (list_item r) = Some Rdp" "is_rdp r"
    using assms by (auto simp: rdp_row_ok_def list_item_def is_rdp_def)
  then show ?thesis
    using assms protocol_names
    by (simp add: rdp_row_ok_def open_form_def submitted_form_def credentials_of_def prefill_def
        protocol_or_ssh_def or_else_text list_item_def row_form_def Let_def)
qed

lemma unchanged_form:
  assumes "row_ok r"
  shows "submitted_form (open_form (Some (list_item r)) f) (filled (open_form (Some (list_item r)) f))
    = Inr (row_form r)"
  using assms ssh_edit rdp_edit by (auto simp: row_ok_def)

section \<open>The request of that form\<close>

lemma row_request:
  assumes "row_ok r" "positive_id (rw_jump_server_id r)"
  shows "bind_request (server_form_json (row_form r)) = Some (request_of (row_form r))"
  using assms small_positive
  by (intro bind_server_form) (auto simp: row_form_def request_of_def named_def row_ok_def small_def int64_def)

lemma hex_digits_kept:
  assumes "hex_bytes s n" "map lower_unit s = s"
  shows "map lower_unit (filter (\<lambda>u. u \<noteq> 0x3A) (go_trim s)) = s"
proof -
  have d: "\<forall>u \<in> set s. \<not> go_space u \<and> u \<noteq> 0x3A"
    using assms(1) hex_digit_plain by (auto simp: hex_bytes_def list_all_iff)
  have "go_trim s = s"
    using d by (intro go_trim_id) auto
  moreover have "filter (\<lambda>u. u \<noteq> 0x3A) s = s"
    using d by (intro filter_True) auto
  ultimately show ?thesis
    using assms(2) by simp
qed

lemma row_valid:
  assumes "row_ok r"
  shows "validate (request_of (row_form r)) = Inr (request_of (row_form r))"
proof (cases "is_rdp r")
  case True
  then have r: "rdp_row_ok r"
    using assms protocol_names(1) by (auto simp: row_ok_def ssh_row_ok_def is_rdp_def)
  let ?q = "request_of (row_form r)"
  have v: "validate ?q = validate_rdp ?q"
    using assms True protocol_names
    by (auto simp: validate_def request_of_def row_form_def row_ok_def Let_def)
  have "map lower_unit (filter (\<lambda>u. u \<noteq> 0x3A) (go_trim (rw_rdp_cert_fingerprint r))) = rw_rdp_cert_fingerprint r"
    using r hex_digits_kept by (auto simp: rdp_row_ok_def go_trim_def)
  then have "validate_rdp ?q = Inr ?q"
    using r True protocol_names
    by (simp add: validate_rdp_def request_of_def row_form_def rdp_row_ok_def Let_def)
  then show ?thesis
    by (simp only: v)
next
  case False
  then have r: "ssh_row_ok r"
    using assms by (auto simp: row_ok_def rdp_row_ok_def is_rdp_def)
  let ?q = "request_of (row_form r)"
  have v: "validate ?q = validate_ssh ?q"
    using assms False protocol_names
    by (auto simp: validate_def request_of_def row_form_def row_ok_def Let_def)
  have a: "rw_auth_type r = js ''key'' \<or> rw_auth_type r = js ''password''" "rw_auth_type r \<noteq> []"
    using r protocol_names by (auto simp: ssh_row_ok_def)
  have "validate_ssh ?q = Inr ?q"
    using r a by (simp add: validate_ssh_def request_of_def row_form_def ssh_row_ok_def Let_def split: option.splits)
  then show ?thesis
    by (simp only: v)
qed

lemma credentials_kept:
  assumes "row_ok r"
  shows "resolve_credentials enc source (request_of (row_form r)) (Some r) = Inr (rw_private_key r, rw_password r)"
proof (cases "is_rdp r")
  case True
  then show ?thesis
    using assms protocol_names(1,4)
    by (auto simp: row_ok_def ssh_row_ok_def rdp_row_ok_def is_rdp_def resolve_credentials_def request_of_def row_form_def)
next
  case False
  then have "ssh_row_ok r"
    using assms by (auto simp: row_ok_def rdp_row_ok_def is_rdp_def)
  moreover have "js ''key'' \<noteq> js ''password''"
    by (simp add: js_def)
  ultimately show ?thesis
    using False protocol_names(1,5)
    by (auto simp: ssh_row_ok_def resolve_credentials_def request_of_def row_form_def Let_def)
qed

definition untimed :: "row \<Rightarrow> row" where
  "untimed r = r\<lparr>rw_created_at := [], rw_updated_at := []\<rparr>"

lemma row_rebuilt:
  assumes "row_ok r"
  shows "row_of (request_of (row_form r)) (rw_id r) (rw_private_key r) (rw_password r) = untimed r"
proof -
  have "protocol_name (if is_rdp r then Rdp else Ssh) = rw_protocol r"
    using assms protocol_names by (auto simp: row_ok_def ssh_row_ok_def rdp_row_ok_def is_rdp_def)
  then show ?thesis
    by (cases r) (simp add: row_of_def request_of_def row_form_def untimed_def)
qed

section \<open>Saving it\<close>

definition jump_usable :: "database \<Rightarrow> row \<Rightarrow> bool" where
  "jump_usable d r \<longleftrightarrow>
     (case rw_jump_server_id r of
        None \<Rightarrow> True
      | Some j \<Rightarrow> (case rows d j of None \<Rightarrow> False | Some t \<Rightarrow> rw_protocol t \<noteq> js ''rdp''))"

lemma form_resolved:
  assumes "row_ok r"
  shows "resolved enc source (request_of (row_form r)) (rw_id r) (Some r) = Inl (Write_Row True (untimed r))"
    and "after_jump enc (request_of (row_form r)) (rw_id r) (Some r) = Inl (Write_Row True (untimed r))"
proof -
  show "resolved enc source (request_of (row_form r)) (rw_id r) (Some r) = Inl (Write_Row True (untimed r))"
    for source
    using assms by (simp add: resolved_def credentials_kept row_rebuilt)
  then show "after_jump enc (request_of (row_form r)) (rw_id r) (Some r) = Inl (Write_Row True (untimed r))"
    by (simp add: after_jump_def needs_source_def request_of_def row_form_def)
qed

text \<open>The write gives the row its time of creation back.\<close>

lemma untimed_update:
  assumes "rows d i = Some r" "rw_id r = i"
  shows "update_row now (untimed r) d = d\<lparr>rows := (rows d)(i \<mapsto> r\<lparr>rw_updated_at := now\<rparr>)\<rparr>"
  using assms by (simp add: update_row_def untimed_def)

definition edit_events ::
    "nat \<Rightarrow> (bytes \<Rightarrow> js_string option) \<Rightarrow> js_string \<Rightarrow> int \<Rightarrow> server_form \<Rightarrow> store_event list" where
  "edit_events n enc now i w =
     Save n enc (server_form_json w) (Some (int_digits i)) # replicate 3 (Query n enc True now)"

lemma edit_is_started:
  assumes "row_ok r" "positive_id (rw_jump_server_id r)" "0 < rw_id r" "int64 (rw_id r)"
  shows "start_save enc (server_form_json (row_form r)) (Some (int_digits (rw_id r)))
    = Inl (Load_Current (request_of (row_form r)) (rw_id r))"
proof -
  have "go_parse_int (int_digits (rw_id r)) = Some (rw_id r)"
    using assms(3,4) go_parse_int_digits [of "nat (rw_id r)"] by (simp add: int_digits_def)
  then show ?thesis
    using assms by (simp add: start_save_def row_request row_valid)
qed

lemma edit_is_loaded:
  assumes "row_ok r" "rows d (rw_id r) = Some r"
  shows "save_step enc True now (Load_Current (request_of (row_form r)) (rw_id r)) d =
    (case rw_jump_server_id r of
       None \<Rightarrow> Inl (Write_Row True (untimed r))
     | Some j \<Rightarrow> Inl (Load_Jump (request_of (row_form r)) (rw_id r) (Some r) j), d)"
proof -
  have "cr_jump_server_id (request_of (row_form r)) = rw_jump_server_id r"
    by (simp add: request_of_def row_form_def)
  moreover have "rw_jump_server_id r \<noteq> Some (rw_id r)"
    using assms(1) by (auto simp: row_ok_def ssh_row_ok_def rdp_row_ok_def)
  ultimately show ?thesis
    using assms form_resolved(2) [OF assms(1)]
    by (auto simp: save_step_def after_current_def split: option.split)
qed

lemma edit_is_written:
  assumes "rows d (rw_id r) = Some r"
  shows "save_step enc True now (Write_Row True (untimed r)) d =
    (Inr (Saved 200 (list_item (untimed r))), d\<lparr>rows := (rows d)(rw_id r \<mapsto> r\<lparr>rw_updated_at := now\<rparr>)\<rparr>)"
  using assms untimed_update by (simp add: save_step_def)

text \<open>
  Claim C18. An edit that changes nothing keeps the stored server, end to end. When the dialog is opened for a
  server of the list and submitted as it was filled, the request that is sent is accepted, and once its
  queries are served the row is exactly what it was, its encrypted key and password, its pinned host key
  or fingerprint and its jump server included: only the time of the last change is new.
\<close>

theorem an_unchanged_edit_keeps_the_row:
  assumes "store_ok s" and "rows (db s) i = Some r" and "int64 i" and "positive_id (rw_jump_server_id r)"
    and "jump_usable (db s) r" and "jobs s n = None"
  shows "\<exists>w. submitted_form (open_form (Some (list_item r)) f) (filled (open_form (Some (list_item r)) f)) = Inr w
    \<and> db (run store_step s (edit_events n enc now i w))
        = (db s)\<lparr>rows := (rows (db s))(i \<mapsto> r\<lparr>rw_updated_at := now\<rparr>)\<rparr>"
proof (intro exI conjI)
  have r: "row_ok r" "rw_id r = i" "0 < i"
    using assms(1,2) by (auto simp: store_ok_def db_ok_def)
  show "submitted_form (open_form (Some (list_item r)) f) (filled (open_form (Some (list_item r)) f))
      = Inr (row_form r)"
    using r(1) by (rule unchanged_form)
  have st: "start_save enc (server_form_json (row_form r)) (Some (int_digits i))
      = Inl (Load_Current (request_of (row_form r)) i)"
    using edit_is_started [OF r(1) assms(4)] r assms(3) by simp
  note ld = edit_is_loaded [OF r(1), unfolded r(2), OF assms(2)]
  note wr = edit_is_written [where r = r, unfolded r(2), OF assms(2)]
  have rep: "replicate 3 (Query n enc True now) = [Query n enc True now, Query n enc True now, Query n enc True now]"
    by (simp add: numeral_3_eq_3)
  show "db (run store_step s (edit_events n enc now i (row_form r)))
      = (db s)\<lparr>rows := (rows (db s))(i \<mapsto> r\<lparr>rw_updated_at := now\<rparr>)\<rparr>"
  proof (cases "rw_jump_server_id r")
    case None
    then show ?thesis
      using assms(6)
      by (simp add: edit_events_def rep store_step_def st advance_def ld wr answer_def)
  next
    case (Some j)
    then obtain t where t: "rows (db s) j = Some t" "rw_protocol t \<noteq> js ''rdp''"
      using assms(5) by (auto simp: jump_usable_def split: option.splits)
    have "save_step enc True now (Load_Jump (request_of (row_form r)) i (Some r) j) (db s)
        = (Inl (Write_Row True (untimed r)), db s)"
      using t form_resolved(2) [OF r(1), of enc] r(2) by (simp add: save_step_def)
    then show ?thesis
      using Some assms(6)
      by (simp add: edit_events_def rep store_step_def st advance_def ld wr answer_def)
  qed
qed

text \<open>The stored sample, edited without a change.\<close>

theorem an_unchanged_edit_keeps_the_row_witness:
  "\<exists>w. submitted_form (open_form (Some (list_item sample_row)) sample_form)
        (filled (open_form (Some (list_item sample_row)) sample_form)) = Inr w
    \<and> db (run store_step (one_row sample_row) (edit_events 7 seal_text (js ''t9'') 1 w))
        = (db (one_row sample_row))\<lparr>rows := [1 \<mapsto> sample_row\<lparr>rw_updated_at := js ''t9''\<rparr>]\<rparr>"
proof -
  have "store_ok (run store_step init_store sample_saves)"
    using servers.run_inv [OF init_store_ok] .
  then have ok: "store_ok (one_row sample_row)"
    using sample_is_saved by (simp add: store_ok_def one_row_def)
  have j: "rw_jump_server_id sample_row = None"
    by (simp add: sample_row_def row_of_def request_of_def sample_server_form_def)
  show ?thesis
    using an_unchanged_edit_keeps_the_row [OF ok, of 1 sample_row 7 sample_form seal_text "js ''t9''"] j
    by (simp add: one_row_def int64_def positive_id_def jump_usable_def)
qed

end
