(* ===== verification/Server_Types.thy ===== *)
theory Server_Types
  imports Server_Properties
begin

text \<open>
  The types the two ends of the API declare for a server: the JSON that the Go type \<open>ServerListItem\<close> is
  written as (\<open>internal/models/server.go\<close>), and the TypeScript interface that the frontend reads it with
  (\<open>types/index.ts\<close>). Nothing checks a reply at run time; that every reply has the declared type is proved here.
\<close>

section \<open>TypeScript types\<close>

text \<open>The types the interfaces are made of; a member of an object has a flag that says it is optional.\<close>

datatype ts_type =
    Ts_String
  | Ts_Number
  | Ts_Null
  | Ts_Literal js_string
  | Ts_Union "ts_type list"
  | Ts_Object "ts_member list"
and ts_member = Member js_string bool ts_type

text \<open>Membership of a JSON value; an object may have more members than the interface names.\<close>

function has_type :: "ts_type \<Rightarrow> json \<Rightarrow> bool" and has_member :: "ts_member \<Rightarrow> (js_string \<times> json) list \<Rightarrow> bool" where
  "has_type Ts_String v = (case v of JStr _ \<Rightarrow> True | _ \<Rightarrow> False)"
| "has_type Ts_Number v = (case v of JInt _ \<Rightarrow> True | JNum _ _ \<Rightarrow> True | _ \<Rightarrow> False)"
| "has_type Ts_Null v = (v = JNull)"
| "has_type (Ts_Literal t) v = (v = JStr t)"
| "has_type (Ts_Union ts) v = list_ex (\<lambda>t. has_type t v) ts"
| "has_type (Ts_Object fs) v = (case v of JObj ms \<Rightarrow> list_all (\<lambda>f. has_member f ms) fs | _ \<Rightarrow> False)"
| "has_member (Member n optional t) ms = (case map_of ms n of None \<Rightarrow> optional | Some w \<Rightarrow> has_type t w)"
  by pat_completeness auto
termination
  by (relation "measure (\<lambda>x. case x of Inl (t, v) \<Rightarrow> size t | Inr (f, ms) \<Rightarrow> size f)")
    (auto simp: size_list_estimation' less_Suc_eq_le)

definition protocol_type :: ts_type where
  "protocol_type = Ts_Union [Ts_Literal (js ''ssh''), Ts_Literal (js ''rdp'')]"

definition server_type :: ts_type where
  "server_type = Ts_Object
     [Member (js ''id'') False Ts_Number, Member (js ''protocol'') True protocol_type,
      Member (js ''rdp_domain'') True Ts_String, Member (js ''rdp_cert_fingerprint'') True Ts_String,
      Member (js ''name'') False Ts_String, Member (js ''host_key'') False Ts_String, Member (js ''host'') False Ts_String,
      Member (js ''port'') False Ts_Number, Member (js ''username'') False Ts_String, Member (js ''auth_type'') False Ts_String,
      Member (js ''description'') False Ts_String, Member (js ''group'') False Ts_String,
      Member (js ''jump_server_id'') False (Ts_Union [Ts_Number, Ts_Null]),
      Member (js ''created_at'') False Ts_String, Member (js ''updated_at'') False Ts_String]"

section \<open>The JSON of a row\<close>

definition item_members :: "row \<Rightarrow> (js_string \<times> json) list" where
  "item_members r =
     [(js ''protocol'', JStr (rw_protocol r)), (js ''rdp_domain'', JStr (rw_rdp_domain r)),
      (js ''rdp_cert_fingerprint'', JStr (rw_rdp_cert_fingerprint r)), (js ''id'', JInt (rw_id r)),
      (js ''name'', JStr (rw_name r)), (js ''host'', JStr (rw_host r)), (js ''port'', JInt (rw_port r)),
      (js ''username'', JStr (rw_username r)), (js ''auth_type'', JStr (rw_auth_type r)),
      (js ''host_key'', JStr (rw_host_key r)), (js ''description'', JStr (rw_description r)),
      (js ''group'', JStr (rw_group r)),
      (js ''jump_server_id'', (case rw_jump_server_id r of None \<Rightarrow> JNull | Some i \<Rightarrow> JInt i)),
      (js ''created_at'', JStr (rw_created_at r)), (js ''updated_at'', JStr (rw_updated_at r))]"

definition item_json :: "row \<Rightarrow> json" where
  "item_json r = JObj (item_members r)"

text \<open>What the frontend reads from a value of that type.\<close>

definition text_of :: "json option \<Rightarrow> js_string option" where
  "text_of v = (case v of Some (JStr t) \<Rightarrow> Some t | _ \<Rightarrow> None)"

definition int_of :: "json option \<Rightarrow> int option" where
  "int_of v = (case v of Some (JInt i) \<Rightarrow> Some i | _ \<Rightarrow> None)"

definition protocol_of :: "js_string option \<Rightarrow> protocol option" where
  "protocol_of t = (if t = Some (js ''rdp'') then Some Rdp else if t = Some (js ''ssh'') then Some Ssh else None)"

definition read_server :: "json \<Rightarrow> server option" where
  "read_server v =
     (case v of
        JObj ms \<Rightarrow>
          (let s = (\<lambda>k. given [] (text_of (map_of ms k)))
           in Some \<lparr>sv_id = given 0 (int_of (map_of ms (js ''id''))),
                sv_protocol = protocol_of (text_of (map_of ms (js ''protocol''))),
                sv_rdp_domain = text_of (map_of ms (js ''rdp_domain'')),
                sv_rdp_cert_fingerprint = text_of (map_of ms (js ''rdp_cert_fingerprint'')),
                sv_name = s (js ''name''), sv_host_key = s (js ''host_key''), sv_host = s (js ''host''),
                sv_port = given 0 (int_of (map_of ms (js ''port''))), sv_username = s (js ''username''),
                sv_auth_type = s (js ''auth_type''), sv_description = s (js ''description''),
                sv_group = s (js ''group''),
                sv_jump_server_id = int_of (map_of ms (js ''jump_server_id'')),
                sv_created_at = s (js ''created_at''), sv_updated_at = s (js ''updated_at'')\<rparr>)
      | _ \<Rightarrow> None)"

lemma member_of:
  "map_of (item_members r) (js ''protocol'') = Some (JStr (rw_protocol r))"
  "map_of (item_members r) (js ''rdp_domain'') = Some (JStr (rw_rdp_domain r))"
  "map_of (item_members r) (js ''rdp_cert_fingerprint'') = Some (JStr (rw_rdp_cert_fingerprint r))"
  "map_of (item_members r) (js ''id'') = Some (JInt (rw_id r))"
  "map_of (item_members r) (js ''name'') = Some (JStr (rw_name r))"
  "map_of (item_members r) (js ''host'') = Some (JStr (rw_host r))"
  "map_of (item_members r) (js ''port'') = Some (JInt (rw_port r))"
  "map_of (item_members r) (js ''username'') = Some (JStr (rw_username r))"
  "map_of (item_members r) (js ''auth_type'') = Some (JStr (rw_auth_type r))"
  "map_of (item_members r) (js ''host_key'') = Some (JStr (rw_host_key r))"
  "map_of (item_members r) (js ''description'') = Some (JStr (rw_description r))"
  "map_of (item_members r) (js ''group'') = Some (JStr (rw_group r))"
  "map_of (item_members r) (js ''jump_server_id'')
     = Some (case rw_jump_server_id r of None \<Rightarrow> JNull | Some i \<Rightarrow> JInt i)"
  "map_of (item_members r) (js ''created_at'') = Some (JStr (rw_created_at r))"
  "map_of (item_members r) (js ''updated_at'') = Some (JStr (rw_updated_at r))"
  by (simp_all add: item_members_def js_def of_char_def)

lemma item_has_type:
  assumes "row_ok r"
  shows "has_type server_type (item_json r)"
proof -
  have "rw_protocol r = js ''ssh'' \<or> rw_protocol r = js ''rdp''"
    using assms by (auto simp: row_ok_def ssh_row_ok_def rdp_row_ok_def)
  then show ?thesis
    by (auto simp: server_type_def item_json_def member_of protocol_type_def split: option.split)
qed

lemma item_is_read: "read_server (item_json r) = Some (list_item r)"
  by (simp add: read_server_def item_json_def member_of text_of_def int_of_def protocol_of_def list_item_def
      split: option.split)

section \<open>Every reply is typed\<close>

text \<open>A server of a reply: what the frontend reads from the JSON of a valid row.\<close>

definition typed_server :: "server \<Rightarrow> bool" where
  "typed_server s \<longleftrightarrow> (\<exists>r. row_ok r \<and> has_type server_type (item_json r) \<and> read_server (item_json r) = Some s)"

fun reply_typed :: "reply \<Rightarrow> bool" where
  "reply_typed (Saved n s) = typed_server s"
| "reply_typed (Listed ss) = list_all typed_server ss"
| "reply_typed (Refused n e) = True"
| "reply_typed Deleted = True"

definition replies_typed :: "store \<Rightarrow> bool" where
  "replies_typed s \<longleftrightarrow> store_ok s \<and> (\<forall>(n, a) \<in> set (replies s). reply_typed a)"

lemma row_typed: "row_ok r \<Longrightarrow> typed_server (list_item r)"
  using item_has_type item_is_read by (auto simp: typed_server_def)

lemma list_typed: "db_ok d \<Longrightarrow> reply_typed (ListServers ok d)"
proof -
  assume d: "db_ok d"
  have p: "set (put_row r rs) = insert r (set rs)" for r rs
    by (induction rs) auto
  have f: "set (foldr put_row rs []) = set rs" for rs
    by (induction rs) (simp_all add: p)
  have "row_ok r" if "r \<in> set (listed_rows d)" for r
    using that d by (auto simp: listed_rows_def all_rows_def f db_ok_def)
  then show ?thesis
    using row_typed by (auto simp: ListServers_def list_all_iff)
qed

lemma get_typed: "db_ok d \<Longrightarrow> reply_typed (GetServer t ok d)"
  using row_typed by (auto simp: GetServer_def db_ok_def split: option.split)

lemma delete_typed: "reply_typed (fst (DeleteServer t ok d))"
  by (simp add: DeleteServer_def split: option.split)

fun outcome_typed :: "save_job + reply \<Rightarrow> bool" where
  "outcome_typed (Inl j) = True"
| "outcome_typed (Inr a) = reply_typed a"

lemma resolved_typed: "outcome_typed (resolved enc source q i c)"
  by (simp add: resolved_def split: sum.split)

lemma after_typed: "outcome_typed (after_jump enc q i c)" "outcome_typed (after_current enc q i c)"
  by (simp_all add: after_current_def after_jump_def resolved_typed split: option.split)

lemma start_typed: "outcome_typed (start_save enc body t)"
  by (simp add: start_save_def after_typed split: option.split sum.split)

lemma step_typed:
  assumes "db_ok d" "job_ok (next_id d) j"
  shows "outcome_typed (fst (save_step enc ok now j d))"
proof (cases j)
  case (Write_Row update r)
  then have r: "row_ok r" "case rw_jump_server_id r of None \<Rightarrow> True | Some j \<Rightarrow> j \<noteq> next_id d"
    using assms(2) by (auto split: option.splits)
  then have "typed_server (list_item r)" "typed_server (list_item (r\<lparr>rw_id := next_id d\<rparr>))"
    using row_typed row_ok_id [OF r] by auto
  then show ?thesis
    by (simp add: save_step_def Write_Row insert_row_def Let_def)
qed (simp_all add: save_step_def after_typed resolved_typed split: option.split)

lemma advance_typed:
  "store_ok (advance n o1 s) \<Longrightarrow> replies_typed s \<Longrightarrow> outcome_typed o1 \<Longrightarrow> replies_typed (advance n o1 s)"
  by (cases o1) (auto simp: replies_typed_def advance_def answer_def)

lemma store_step_typed:
  assumes "replies_typed s"
  shows "replies_typed (store_step s e)"
proof -
  have s: "store_ok s" "db_ok (db s)" and ok: "store_ok (store_step s e)"
    using assms store_step_ok by (auto simp: replies_typed_def store_ok_def)
  show ?thesis
  proof (cases e)
    case (Save n enc body t)
    then show ?thesis
      using ok assms start_typed by (auto simp: store_step_def intro: advance_typed)
  next
    case (Query n enc ok1 now)
    show ?thesis
    proof (cases "jobs s n")
      case None
      then show ?thesis
        using assms by (simp add: store_step_def Query)
    next
      case (Some j)
      then have j: "job_ok (next_id (db s)) j"
        using s(1) by (simp add: store_ok_def)
      obtain o1 d where sv: "save_step enc ok1 now j (db s) = (o1, d)"
        by fastforce
      have "outcome_typed o1"
        using step_typed [OF s(2) j, of enc ok1 now] sv by simp
      moreover have "db_ok d" "next_id (db s) \<le> next_id d"
        using save_step_ok [OF s(2) j sv] by auto
      then have "replies_typed (s\<lparr>db := d\<rparr>)"
        using assms store_ok_db [OF s(1)] by (simp add: replies_typed_def)
      ultimately show ?thesis
        using ok by (auto simp: store_step_def Query Some sv intro: advance_typed)
    qed
  next
    case (Remove n t ok1)
    then show ?thesis
      using ok assms delete_typed [of t ok1 "db s"]
      by (auto simp: store_step_def replies_typed_def answer_def split: prod.splits)
  next
    case (Get n t ok1)
    then show ?thesis
      using ok assms get_typed [OF s(2)] by (auto simp: store_step_def replies_typed_def answer_def)
  next
    case (List_All n ok1)
    then show ?thesis
      using ok assms list_typed [OF s(2)] by (auto simp: store_step_def replies_typed_def answer_def)
  qed
qed

interpretation typed: machine store_step replies_typed
  by unfold_locales (rule store_step_typed)


lemma sample_reply:
  "(7, Listed [list_item sample_row]) \<in> set (replies (run store_step init_store (sample_saves @ [List_All 7 True])))"
proof -
  have "[1..(2 :: int) - 1] = [1]"
    by simp
  then show ?thesis
    by (simp add: run_append store_step_def sample_is_saved ListServers_def listed_rows_def all_rows_def answer_def)
qed


end
