(* ===== verification/Gateway.thy ===== *)
theory Gateway
  imports Server_Properties
begin

text \<open>
  How the server reaches the machines (\<open>internal/api/connection.go\<close>, \<open>internal/sshclient/client.go\<close>):
  the connection data of a stored server, the pin of its host key, and dialing it directly or through
  one jump host. What dialing does to the outside is a list of acts, so that it can be stated which
  credential goes where and that nothing stays open.

  Parameters: \<open>dec\<close> is \<open>Decrypt\<close> with the server's key, \<open>load\<close> the query of a row (nothing when it fails), \<open>signer\<close>
  whether a private key can be parsed, and \<open>hs\<close> the handshake of the SSH library, \<open>ssh.NewClientConn\<close>: whether
  it succeeds, and the credentials it sends with the fingerprint of the host it sends them to.
\<close>

section \<open>Configurations\<close>

record config =
  cfg_host :: js_string
  cfg_port :: int
  cfg_user :: js_string
  cfg_auth_type :: js_string
  cfg_private_key :: bytes
  cfg_password :: bytes
  cfg_host_key :: js_string

datatype dial_error =
    Cancelled
  | No_Server
  | Rdp_Server
  | Key_Unreadable int
  | Password_Unreadable int
  | No_Password
  | Bad_Key
  | Unsupported_Auth js_string
  | Self_Jump
  | Load_Failed
  | No_Jump_Server
  | Second_Jump
  | Jump_Error dial_error
  | Socket_Failed js_string
  | Handshake_Failed js_string
  | Channel_Failed js_string

definition connection_config :: "(js_string \<Rightarrow> bytes option) \<Rightarrow> row \<Rightarrow> dial_error + config" where
  "connection_config dec r =
     (if rw_protocol r = js ''rdp'' then Inl Rdp_Server
      else
        (let cfg = \<lparr>cfg_host = rw_host r, cfg_port = rw_port r, cfg_user = rw_username r,
                    cfg_auth_type = rw_auth_type r, cfg_private_key = [], cfg_password = [],
                    cfg_host_key = rw_host_key r\<rparr>
         in case (if rw_private_key r \<noteq> [] then dec (rw_private_key r) else Some []) of
              None \<Rightarrow> Inl (Key_Unreadable (rw_id r))
            | Some k \<Rightarrow>
                (case (if rw_password r \<noteq> [] then dec (rw_password r) else Some []) of
                   None \<Rightarrow> Inl (Password_Unreadable (rw_id r))
                 | Some p \<Rightarrow> Inr (cfg\<lparr>cfg_private_key := k, cfg_password := p\<rparr>))))"

text \<open>The callback the library asks about the host's key; nothing is no objection.\<close>

datatype key_objection = Not_Pinned js_string | Mismatch js_string js_string

definition host_key_callback :: "js_string \<Rightarrow> js_string \<Rightarrow> key_objection option" where
  "host_key_callback pin observed =
     (if pin = [] then Some (Not_Pinned observed)
      else if pin \<noteq> observed then Some (Mismatch pin observed) else None)"

datatype auth_method = By_Password bytes | By_Key bytes

record client_config =
  cc_user :: js_string
  cc_auth :: auth_method
  cc_callback :: "js_string \<Rightarrow> key_objection option"

definition make_config :: "(bytes \<Rightarrow> bool) \<Rightarrow> config \<Rightarrow> dial_error + client_config" where
  "make_config signer cfg =
     (case (if cfg_auth_type cfg = js ''password'' then
              (if cfg_password cfg = [] then Inl No_Password else Inr (By_Password (cfg_password cfg)))
            else if cfg_auth_type cfg = js ''key'' then
              (if signer (cfg_private_key cfg) then Inr (By_Key (cfg_private_key cfg)) else Inl Bad_Key)
            else Inl (Unsupported_Auth (cfg_auth_type cfg))) of
        Inl e \<Rightarrow> Inl e
      | Inr m \<Rightarrow>
          Inr \<lparr>cc_user = cfg_user cfg, cc_auth = m, cc_callback = host_key_callback (cfg_host_key cfg)\<rparr>)"

text \<open>\<open>net.JoinHostPort\<close>.\<close>

definition join_host_port :: "js_string \<Rightarrow> int \<Rightarrow> js_string" where
  "join_host_port host port =
     (if 0x3A \<in> set host then js ''['' @ host @ js '']:'' else host @ js '':'') @ int_digits port"

definition address :: "config \<Rightarrow> js_string" where
  "address cfg = join_host_port (cfg_host cfg) (cfg_port cfg)"

section \<open>Dialing\<close>

text \<open>The acts, and what a client owns: its socket, or the socket of the jump host and a channel in it.\<close>

datatype conn = Socket js_string | Channel js_string

datatype act = Opened conn | Disclosed js_string js_string auth_method | Shut conn

datatype client = Direct js_string | Jumped js_string js_string

fun owned :: "client \<Rightarrow> conn list" where
  "owned (Direct a) = [Socket a]"
| "owned (Jumped j a) = [Socket j, Channel a]"

definition close_client :: "client \<Rightarrow> act list" where
  "close_client c = map Shut (owned c)"

text \<open>
  What the network and the clock do in one attempt: which sockets and channels open, and with which
  host the 15 seconds of the setup, or the request, were over before the client was returned.
\<close>

record network =
  tcp_opens :: "js_string \<Rightarrow> bool"
  channel_opens :: "js_string \<Rightarrow> bool"
  setup_over :: "js_string \<Rightarrow> bool"
  request_over :: "nat \<Rightarrow> bool"

type_synonym handshake = "js_string \<Rightarrow> client_config \<Rightarrow> bool \<times> (js_string \<times> auth_method) list"

definition disclosures :: "js_string \<Rightarrow> (js_string \<times> auth_method) list \<Rightarrow> act list" where
  "disclosures a ds = map (\<lambda>(fp, m). Disclosed a fp m) ds"

definition dial ::
    "(bytes \<Rightarrow> bool) \<Rightarrow> handshake \<Rightarrow> network \<Rightarrow> config \<Rightarrow> (dial_error + client) \<times> act list" where
  "dial signer hs net cfg =
     (case make_config signer cfg of
        Inl e \<Rightarrow> (Inl e, [])
      | Inr cc \<Rightarrow>
          (let a = address cfg
           in if \<not> tcp_opens net a then (Inl (Socket_Failed a), [])
              else (case hs a cc of
                  (ok, ds) \<Rightarrow>
                    (let acts = Opened (Socket a) # disclosures a ds
                     in if \<not> ok then (Inl (Handshake_Failed a), acts @ close_client (Direct a))
                        else if setup_over net a then (Inl Cancelled, acts @ close_client (Direct a))
                        else (Inr (Direct a), acts)))))"

definition dial_via_jump ::
    "(bytes \<Rightarrow> bool) \<Rightarrow> handshake \<Rightarrow> network \<Rightarrow> config \<Rightarrow> config \<Rightarrow> (dial_error + client) \<times> act list" where
  "dial_via_jump signer hs net jump target =
     (case make_config signer target of
        Inl e \<Rightarrow> (Inl e, [])
      | Inr cc \<Rightarrow>
          (case dial signer hs net jump of
             (Inl e, acts) \<Rightarrow> (Inl (Jump_Error e), acts)
           | (Inr jc, acts) \<Rightarrow>
               (let j = address jump; a = address target
                in if \<not> channel_opens net a then (Inl (Channel_Failed a), acts @ close_client jc)
                   else (case hs a cc of
                       (ok, ds) \<Rightarrow>
                         (let all = acts @ Opened (Channel a) # disclosures a ds; c = Jumped j a
                          in if \<not> ok then
                               (Inl (Handshake_Failed a), all @ close_client jc @ [Shut (Channel a)])
                             else if setup_over net a then (Inl Cancelled, all @ close_client c)
                             else (Inr c, all))))))"

definition dial_server ::
    "(js_string \<Rightarrow> bytes option) \<Rightarrow> (bytes \<Rightarrow> bool) \<Rightarrow> (int \<Rightarrow> row option option) \<Rightarrow> handshake \<Rightarrow>
      network \<Rightarrow> row option \<Rightarrow> (dial_error + client) \<times> act list" where
  "dial_server dec signer load hs net server =
     (if request_over net 0 then (Inl Cancelled, [])
      else (case server of
          None \<Rightarrow> (Inl No_Server, [])
        | Some r \<Rightarrow>
            (case connection_config dec r of
               Inl e \<Rightarrow> (Inl e, [])
             | Inr target \<Rightarrow>
                 if rw_jump_server_id r = None \<or> rw_jump_server_id r = Some 0
                 then dial signer hs net target
                 else if rw_jump_server_id r = Some (rw_id r) then (Inl Self_Jump, [])
                 else (case load (the (rw_jump_server_id r)) of
                     None \<Rightarrow> (Inl Load_Failed, [])
                   | Some None \<Rightarrow> (Inl No_Jump_Server, [])
                   | Some (Some jump) \<Rightarrow>
                       if rw_jump_server_id jump \<noteq> None \<and> rw_jump_server_id jump \<noteq> Some 0
                       then (Inl Second_Jump, [])
                       else (case connection_config dec jump of
                           Inl e \<Rightarrow> (Inl (Jump_Error e), [])
                         | Inr jc \<Rightarrow>
                             if request_over net 1 then (Inl Cancelled, [])
                             else dial_via_jump signer hs net jc target)))))"

section \<open>The contract of the handshake\<close>

text \<open>
  What the SSH library documents: the callback is asked about the key of the host before any credential
  is sent, and an objection ends the handshake; the credential is the configured one.
\<close>

definition ssh_contract :: "handshake \<Rightarrow> bool" where
  "ssh_contract hs \<longleftrightarrow>
     (\<forall>a cc fp m. (fp, m) \<in> set (snd (hs a cc)) \<longrightarrow> cc_callback cc fp = None \<and> m = cc_auth cc)"

lemma callback_accepts: "host_key_callback pin fp = None \<longleftrightarrow> pin \<noteq> [] \<and> fp = pin"
  by (auto simp: host_key_callback_def)

text \<open>A disclosure of a configuration: to its address, behind its pinned key, of its credential.\<close>

definition credential :: "config \<Rightarrow> auth_method" where
  "credential cfg =
     (if cfg_auth_type cfg = js ''password'' then By_Password (cfg_password cfg)
      else By_Key (cfg_private_key cfg))"

definition disclosed_for :: "config \<Rightarrow> act \<Rightarrow> bool" where
  "disclosed_for cfg x \<longleftrightarrow>
     cfg_host_key cfg \<noteq> [] \<and> x = Disclosed (address cfg) (cfg_host_key cfg) (credential cfg)"

fun is_disclosure :: "act \<Rightarrow> bool" where
  "is_disclosure (Disclosed a fp m) = True"
| "is_disclosure x = False"

lemma auth_names: "js ''key'' \<noteq> js ''password''"
  by (simp add: js_def)

lemma made_config:
  assumes "make_config signer cfg = Inr cc"
  shows "cc_auth cc = credential cfg" "cc_callback cc = host_key_callback (cfg_host_key cfg)"
  using assms auth_names by (auto simp: make_config_def credential_def split: if_splits sum.splits)

lemma handshake_discloses:
  assumes "ssh_contract hs" "make_config signer cfg = Inr cc" "hs (address cfg) cc = (ok, ds)"
    and "x \<in> set (disclosures (address cfg) ds)"
  shows "disclosed_for cfg x"
proof -
  obtain fp m where x: "x = Disclosed (address cfg) fp m" and "(fp, m) \<in> set ds"
    using assms(4) by (auto simp: disclosures_def)
  then have "cc_callback cc fp = None" "m = cc_auth cc"
    using assms(1,3) unfolding ssh_contract_def by (metis snd_conv)+
  then show ?thesis
    using made_config [OF assms(2)] x by (simp add: disclosed_for_def callback_accepts)
qed

lemma close_discloses [simp]: "x \<in> set (close_client c) \<Longrightarrow> \<not> is_disclosure x"
  by (auto simp: close_client_def)

lemma dial_discloses:
  assumes "ssh_contract hs" "dial signer hs net cfg = (res, acts)" "x \<in> set acts" "is_disclosure x"
  shows "disclosed_for cfg x"
  using assms handshake_discloses [OF assms(1)]
  by (fastforce simp: dial_def Let_def dest: close_discloses split: sum.splits prod.splits if_splits)

lemma dial_via_jump_discloses:
  assumes "ssh_contract hs" "dial_via_jump signer hs net jump target = (res, acts)" "x \<in> set acts" "is_disclosure x"
  shows "disclosed_for jump x \<or> disclosed_for target x"
proof (cases "make_config signer target")
  case (Inr cc)
  obtain r1 acts1 where d: "dial signer hs net jump = (r1, acts1)"
    by fastforce
  obtain ok ds where h: "hs (address target) cc = (ok, ds)"
    by fastforce
  have "set acts \<subseteq> set acts1 \<union> {Opened (Channel (address target)), Shut (Channel (address target))}
      \<union> set (disclosures (address target) ds) \<union> (\<Union>c. set (close_client c))"
    using assms(2) by (auto simp: dial_via_jump_def Inr d h Let_def split: sum.splits if_splits)
  then show ?thesis
    using assms(3,4) dial_discloses [OF assms(1) d, of x] handshake_discloses [OF assms(1) Inr h, of x]
      close_discloses [of x] by fastforce
qed (use assms in \<open>simp add: dial_via_jump_def\<close>)

section \<open>Who gets a credential\<close>

definition dialed :: "(int \<Rightarrow> row option option) \<Rightarrow> row \<Rightarrow> row \<Rightarrow> bool" where
  "dialed load r q \<longleftrightarrow>
     q = r \<or>
     (\<exists>j. rw_jump_server_id r = Some j \<and> j \<noteq> rw_id r \<and> load j = Some (Some q) \<and>
        (rw_jump_server_id q = None \<or> rw_jump_server_id q = Some 0))"

lemma configured:
  assumes "connection_config dec q = Inr cfg"
  shows "rw_protocol q \<noteq> js ''rdp''" "cfg_host_key cfg = rw_host_key q"
    "address cfg = join_host_port (rw_host q) (rw_port q)"
  using assms by (auto simp: connection_config_def address_def Let_def split: if_splits option.splits)

text \<open>What \<open>dialServer\<close> can come to: nothing was opened, or one of the two ways to dial was taken.\<close>

lemma dial_server_ways:
  assumes "dial_server dec signer load hs net (Some r) = (res, acts)"
  obtains (refused) e where "res = Inl e" "acts = []"
  | (direct) target where "connection_config dec r = Inr target" "dial signer hs net target = (res, acts)"
  | (jump) target q jc where "connection_config dec r = Inr target" "dialed load r q"
      "connection_config dec q = Inr jc" "dial_via_jump signer hs net jc target = (res, acts)"
proof (cases "connection_config dec r")
  case (Inl e)
  then show ?thesis
    using assms refused by (auto simp: dial_server_def split: if_splits)
next
  case (Inr target)
  consider "request_over net 0" | "\<not> request_over net 0" "rw_jump_server_id r = None \<or> rw_jump_server_id r = Some 0"
    | j where "\<not> request_over net 0" "rw_jump_server_id r = Some j" "j \<noteq> 0"
    by (cases "rw_jump_server_id r") auto
  then show ?thesis
  proof cases
    case 3
    then show ?thesis
      using assms Inr refused jump
      by (auto simp: dial_server_def dialed_def split: if_splits option.splits sum.splits)
  qed (use assms Inr refused direct in \<open>auto simp: dial_server_def\<close>)
qed

text \<open>
  Claim C2. A credential goes to pinned hosts only. Whatever host answers at an address, a password or
  key is disclosed only behind the host key that was pinned for the very server whose credential it is,
  at that server's address; without a pin it is never sent. The servers are the one asked for and its
  jump host, which does not itself jump, and neither is an RDP server.
\<close>

theorem credentials_go_to_pinned_hosts_only:
  assumes "ssh_contract hs" and "dial_server dec signer load hs net (Some r) = (res, acts)"
    and "Disclosed a fp m \<in> set acts"
  shows "\<exists>q cfg. dialed load r q \<and> rw_protocol q \<noteq> js ''rdp'' \<and> connection_config dec q = Inr cfg
    \<and> fp = rw_host_key q \<and> fp \<noteq> [] \<and> a = join_host_port (rw_host q) (rw_port q) \<and> m = credential cfg"
proof -
  have "\<exists>q cfg. dialed load r q \<and> connection_config dec q = Inr cfg \<and> disclosed_for cfg (Disclosed a fp m)"
    using assms(2)
  proof (cases rule: dial_server_ways)
    case refused
    then show ?thesis
      using assms(3) by simp
  next
    case (direct target)
    then show ?thesis
      using dial_discloses [OF assms(1) direct(2) assms(3)] by (auto simp: dialed_def)
  next
    case (jump target q jc)
    then show ?thesis
      using dial_via_jump_discloses [OF assms(1) jump(4) assms(3)] by (auto simp: dialed_def)
  qed
  then show ?thesis
    using configured by (fastforce simp: disclosed_for_def)
qed

section \<open>What stays open\<close>

fun open_after :: "act list \<Rightarrow> conn set \<Rightarrow> conn set" where
  "open_after [] os = os"
| "open_after (Opened c # xs) os = open_after xs (insert c os)"
| "open_after (Shut c # xs) os = open_after xs (os - {c})"
| "open_after (Disclosed a fp m # xs) os = open_after xs os"

lemma open_after_append [simp]: "open_after (xs @ ys) os = open_after ys (open_after xs os)"
  by (induction xs os rule: open_after.induct) simp_all

lemma open_after_disclosures [simp]: "open_after (disclosures a ds) os = os"
proof (induction ds)
  case (Cons d ds)
  then show ?case
    by (cases d) (simp add: disclosures_def)
qed (simp add: disclosures_def)

definition left_open :: "dial_error + client \<Rightarrow> conn set" where
  "left_open res = (case res of Inl e \<Rightarrow> {} | Inr c \<Rightarrow> set (owned c))"

lemma dial_opens:
  assumes "dial signer hs net cfg = (res, acts)"
  shows "open_after acts {} = left_open res"
proof (cases "make_config signer cfg")
  case (Inr cc)
  obtain ok ds where h: "hs (address cfg) cc = (ok, ds)"
    by fastforce
  show ?thesis
    using assms by (cases "tcp_opens net (address cfg)"; cases ok; cases "setup_over net (address cfg)")
      (auto simp: dial_def Inr h left_open_def close_client_def Let_def)
qed (use assms in \<open>auto simp: dial_def left_open_def\<close>)

lemma dial_client:
  assumes "dial signer hs net cfg = (Inr c, acts)"
  shows "c = Direct (address cfg)"
proof (cases "make_config signer cfg")
  case (Inr cc)
  obtain ok ds where h: "hs (address cfg) cc = (ok, ds)"
    by fastforce
  show ?thesis
    using assms by (simp add: dial_def Inr h Let_def split: if_splits)
qed (use assms in \<open>simp add: dial_def\<close>)

lemma dial_via_jump_opens:
  assumes "dial_via_jump signer hs net jump target = (res, acts)"
  shows "open_after acts {} = left_open res"
proof (cases "make_config signer target")
  case (Inr cc)
  obtain r1 acts1 where d: "dial signer hs net jump = (r1, acts1)"
    by fastforce
  obtain ok ds where h: "hs (address target) cc = (ok, ds)"
    by fastforce
  show ?thesis
  proof (cases r1)
    case (Inl e)
    then show ?thesis
      using assms dial_opens [OF d] by (auto simp: dial_via_jump_def Inr d left_open_def)
  next
    case (Inr jc)
    then have jc: "jc = Direct (address jump)"
      using d dial_client by blast
    have o: "open_after acts1 {} = {Socket (address jump)}"
      using dial_opens [OF d] by (simp add: Inr jc left_open_def)
    show ?thesis
      using assms
      by (cases "channel_opens net (address target)"; cases ok; cases "setup_over net (address target)")
        (auto simp: dial_via_jump_def \<open>make_config signer target = Inr cc\<close> d Inr jc h o left_open_def
          close_client_def Let_def)
  qed
qed (use assms in \<open>auto simp: dial_via_jump_def left_open_def\<close>)

text \<open>
  Claim C33. Dialing leaves nothing open behind it: whichever step fails, is cancelled or times out, every
  socket and channel that was opened is closed again, and a client that is returned owns exactly what
  is open, its own connection and that of its jump host.
\<close>

theorem dialing_leaves_nothing_open:
  "open_after (snd (dial_server dec signer load hs net server)) {}
    = left_open (fst (dial_server dec signer load hs net server))"
proof (cases server)
  case None
  then show ?thesis
    by (simp add: dial_server_def left_open_def)
next
  case (Some r)
  obtain res acts where d: "dial_server dec signer load hs net (Some r) = (res, acts)"
    by fastforce
  then have "open_after acts {} = left_open res"
  proof (cases rule: dial_server_ways)
    case refused
    then show ?thesis
      by (simp add: left_open_def)
  next
    case (direct target)
    then show ?thesis
      using dial_opens by blast
  next
    case (jump target q jc)
    then show ?thesis
      using dial_via_jump_opens by blast
  qed
  then show ?thesis
    by (simp add: Some d)
qed

text \<open>A host that shows one key everywhere, and a server that is pinned to it behind a pinned jump host.\<close>

definition sample_handshake :: handshake where
  "sample_handshake a cc =
     (case cc_callback cc (js ''SHA256:x'') of
        None \<Rightarrow> (True, [(js ''SHA256:x'', cc_auth cc)])
      | Some e \<Rightarrow> (False, []))"

definition open_network :: network where
  "open_network = \<lparr>tcp_opens = \<lambda>a. True, channel_opens = \<lambda>a. True, setup_over = \<lambda>a. False, request_over = \<lambda>k. False\<rparr>"

definition pinned_row :: row where
  "pinned_row = sample_row\<lparr>rw_host_key := js ''SHA256:x''\<rparr>"

lemma sample_contract: "ssh_contract sample_handshake"
  by (simp add: ssh_contract_def sample_handshake_def split: option.split)

lemma pinned_dial:
  "dial_server hex_decode (\<lambda>k. True) (\<lambda>j. None) sample_handshake open_network (Some pinned_row)
    = (Inr (Direct (js ''10.0.0.8:2222'')), [Opened (Socket (js ''10.0.0.8:2222'')),
        Disclosed (js ''10.0.0.8:2222'') (js ''SHA256:x'') (By_Key [0])])"
  by code_simp

theorem credentials_go_to_pinned_hosts_only_witness:
  "\<exists>q cfg. dialed (\<lambda>j. None) pinned_row q \<and> connection_config hex_decode q = Inr cfg
    \<and> js ''SHA256:x'' = rw_host_key q \<and> By_Key [0] = credential cfg"
  using credentials_go_to_pinned_hosts_only [OF sample_contract pinned_dial] by auto

section \<open>From the form to the handshake\<close>

text \<open>The secret typed into a form: the password, or the key.\<close>

definition typed_credential :: "form_state \<Rightarrow> server_form \<Rightarrow> auth_method" where
  "typed_credential f v =
     (if auth_choice f = password_choice then By_Password (text_encode (given [] (sf_password v)))
      else By_Key (text_encode (or_else (private_key_field f) [])))"

lemma submitted_secret:
  assumes "submitted_form f v = Inr w" "form_protocol f \<noteq> Rdp" "\<not> is_edit f" "reuse_server_id f = None"
  shows "sf_copy_key_from w = Some 0"
    "auth_choice f = password_choice \<Longrightarrow> sf_password w = sf_password v \<and> given [] (sf_password v) \<noteq> []"
    "auth_choice f \<noteq> password_choice \<Longrightarrow>
       sf_private_key w = Some (or_else (private_key_field f) []) \<and> or_else (private_key_field f) [] \<noteq> []"
proof -
  show "sf_copy_key_from w = Some 0"
    using submitted_fields(11) [OF assms(1)] assms(4) by simp
  show "auth_choice f = password_choice \<Longrightarrow> sf_password w = sf_password v \<and> given [] (sf_password v) \<noteq> []"
    using assms
    by (cases "sf_password v")
      (auto simp: submitted_form_def credentials_of_def truthy_def or_else_def Let_def split: if_splits)
  show "auth_choice f \<noteq> password_choice \<Longrightarrow>
       sf_private_key w = Some (or_else (private_key_field f) []) \<and> or_else (private_key_field f) [] \<noteq> []"
    using assms
    by (auto simp: submitted_form_def credentials_of_def truthy_def id_or_null_def Let_def
        split: if_splits key_source.splits sum.splits)
qed

lemma saved_credential:
  assumes "\<And>p c. enc p = Some c \<Longrightarrow> c \<noteq> [] \<and> dec c = Some p" and "\<And>p. enc p \<noteq> None"
    and "cr_protocol q = js ''ssh''" and "cr_copy_key_from q = 0"
    and "cr_auth_type q = js ''password'' \<and> cr_password q \<noteq> [] \<and> t = By_Password (text_encode (cr_password q))
       \<or> cr_auth_type q = js ''key'' \<and> cr_private_key q \<noteq> [] \<and> t = By_Key (text_encode (cr_private_key q))"
  shows "\<exists>r cfg. after_jump enc q 0 None = Inl (Write_Row False r) \<and> connection_config dec r = Inr cfg
    \<and> credential cfg = t \<and> cfg_host_key cfg = cr_host_key q
    \<and> address cfg = join_host_port (cr_host q) (cr_port q) \<and> cfg_user cfg = cr_username q"
proof -
  have n: "cr_protocol q \<noteq> js ''rdp''"
    using assms(3) protocol_names(1) by simp
  show ?thesis
    using assms(5)
  proof (elim disjE conjE)
    assume a: "cr_auth_type q = js ''password''" "cr_password q \<noteq> []" "t = By_Password (text_encode (cr_password q))"
    obtain c where c: "enc (text_encode (cr_password q)) = Some c"
      using assms(2) by blast
    have "after_jump enc q 0 None = Inl (Write_Row False (row_of q 0 [] c))"
      using n a c assms(1) [OF c] by (simp add: after_jump_def needs_source_def resolved_def resolve_credentials_def)
    then show ?thesis
      using n a assms(1) [OF c]
      by (simp add: connection_config_def row_of_def credential_def address_def)
  next
    assume a: "cr_auth_type q = js ''key''" "cr_private_key q \<noteq> []" "t = By_Key (text_encode (cr_private_key q))"
    obtain c where c: "enc (text_encode (cr_private_key q)) = Some c"
      using assms(2) by blast
    have "after_jump enc q 0 None = Inl (Write_Row False (row_of q 0 c []))"
      using n a c assms(1) [OF c] auth_names
      by (simp add: after_jump_def needs_source_def resolved_def resolve_credentials_def)
    then show ?thesis
      using n a assms(1) [OF c] auth_names
      by (simp add: connection_config_def row_of_def credential_def address_def)
  qed
qed

text \<open>\<open>Encrypt\<close> and \<open>Decrypt\<close> with the key of the configuration.\<close>

definition with_key :: "cipher \<Rightarrow> (nat \<Rightarrow> 8 word) \<Rightarrow> js_string \<Rightarrow> bytes \<Rightarrow> js_string option" where
  "with_key seal rnd hex_key p = encrypt seal (Some rnd) p hex_key"

text \<open>How a new SSH server of the dialog is saved, whatever jump server was chosen.\<close>

lemma typed_form_saved:
  assumes "\<And>k n p. length n = nonce_size \<Longrightarrow> unseal k n (seal k n p) = Some p"
    and "aes_key hex_key \<noteq> None"
    and "f = run offered_step init_form es" and "allowed f (Form_Submitted v)"
    and "submitted_form f v = Inr w" and "form_protocol f \<noteq> Rdp" and "\<not> is_edit f"
    and "reuse_server_id f = None"
  obtains r cfg where
    "start_save (with_key seal rnd hex_key) (server_form_json w) None
       = after_current (with_key seal rnd hex_key) (usable (request_of w)) 0 None"
    "after_jump (with_key seal rnd hex_key) (usable (request_of w)) 0 None = Inl (Write_Row False r)"
    "cr_jump_server_id (usable (request_of w)) = jump_server f" "rw_jump_server_id r = jump_server f"
    "connection_config (\<lambda>c. decrypt unseal c hex_key) r = Inr cfg" "credential cfg = typed_credential f v"
    "cfg_host_key cfg = given [] (sf_host_key v)" "cfg_user cfg = given [] (sf_username v)"
    "address cfg = join_host_port (given [] (sf_host v)) (if given 0 (sf_port v) = 0 then 22 else given 0 (sf_port v))"
proof -
  let ?enc = "with_key seal rnd hex_key"
  let ?q = "usable (request_of w)"
  note rules = submission_rules [OF assms(4)] and ctl = dialog_controls [OF assms(3)]
  note w = submitted_fields [OF assms(5)]
    and sec = submitted_secret [OF assms(5-8)]
    and h = host_key_kept(1) [OF rules assms(5,6)]
  have e: "c \<noteq> [] \<and> decrypt unseal c hex_key = Some p" if "?enc p = Some c" for p c
    using that decrypt_encrypt [of unseal seal, OF assms(1)] encrypt_not_empty by (simp add: with_key_def)
  have n: "?enc p \<noteq> None" for p
    using assms(2) by (auto simp: with_key_def encrypt_def Let_def split: option.split)
  have ssh: "form_protocol f = Ssh"
    using assms(6) by (cases "form_protocol f") auto
  then have q: "cr_protocol ?q = js ''ssh''" "cr_copy_key_from ?q = 0" "cr_jump_server_id ?q = jump_server f"
    using w(9,10) sec(1) protocol_names(5) by (simp_all add: usable_def request_of_def)
  have c: "cr_auth_type ?q = js ''password'' \<and> cr_password ?q \<noteq> [] \<and> typed_credential f v = By_Password (text_encode (cr_password ?q))
     \<or> cr_auth_type ?q = js ''key'' \<and> cr_private_key ?q \<noteq> [] \<and> typed_credential f v = By_Key (text_encode (cr_private_key ?q))"
  proof (cases "auth_choice f = password_choice")
    case True
    then show ?thesis
      using sec(2) w(13) assms(6) protocol_names(7)
      by (simp add: usable_def request_of_def typed_credential_def)
  next
    case False
    then have "auth_choice f = key_choice"
      using ctl by (simp add: controls_ok_def auth_known_def)
    then show ?thesis
      using False sec(3) w(13) assms(6) protocol_names(6)
      by (simp add: usable_def request_of_def typed_credential_def)
  qed
  obtain r cfg where r: "after_jump ?enc ?q 0 None = Inl (Write_Row False r)"
    "connection_config (\<lambda>c. decrypt unseal c hex_key) r = Inr cfg" "credential cfg = typed_credential f v"
    "cfg_host_key cfg = cr_host_key ?q" "cfg_user cfg = cr_username ?q"
    "address cfg = join_host_port (cr_host ?q) (cr_port ?q)"
    using saved_credential [of ?enc "\<lambda>c. decrypt unseal c hex_key", OF e n q(1,2) c] by blast
  show ?thesis
  proof (rule that [OF _ r(1) q(3) _ r(2,3)])
    show "start_save ?enc (server_form_json w) None = after_current ?enc ?q 0 None"
      using form_decoded(1) [OF rules ctl assms(5)] ssh_form_valid [OF rules ctl assms(5,6)]
      by (simp add: start_save_def)
    show "rw_jump_server_id r = jump_server f"
      using r(1) q(3) by (auto simp: after_jump_def resolved_def row_of_def split: if_splits sum.splits)
  qed (use r(4-6) w(2,3,4) h in \<open>simp_all add: usable_def request_of_def\<close>)
qed



end
