(* ===== verification/Credential_Upgrade.thy ===== *)
theory Credential_Upgrade
  imports Gateway
begin

text \<open>
  The upgrade of the stored credentials at every start (\<open>internal/database/credentials.go\<close>): what the
  active key cannot open is opened with the old default key and encrypted again, in one transaction.
  \<open>dec\<close> and \<open>old\<close> are \<open>Decrypt\<close> with the two keys, \<open>enc\<close> is \<open>Encrypt\<close> with the active one, for the key or
  the password of a row, as every call draws a nonce of its own.
\<close>

section \<open>The upgrade\<close>

datatype upgrade_error = Unreadable int | Encryption_Failed | Database_Error

definition upgrade_value ::
    "(js_string \<Rightarrow> bytes option) \<Rightarrow> (js_string \<Rightarrow> bytes option) \<Rightarrow> (bytes \<Rightarrow> js_string option) \<Rightarrow>
      int \<Rightarrow> js_string \<Rightarrow> upgrade_error + js_string \<times> bool" where
  "upgrade_value dec old enc i v =
     (if v = [] \<or> dec v \<noteq> None then Inr (v, False)
      else (case old v of
          None \<Rightarrow> Inl (Unreadable i)
        | Some p \<Rightarrow> (case enc p of None \<Rightarrow> Inl Encryption_Failed | Some c \<Rightarrow> Inr (c, True))))"

text \<open>The new credentials of a row, with whether one of them changed.\<close>

definition upgrade_row ::
    "(js_string \<Rightarrow> bytes option) \<Rightarrow> (js_string \<Rightarrow> bytes option) \<Rightarrow> (int \<Rightarrow> bool \<Rightarrow> bytes \<Rightarrow> js_string option) \<Rightarrow>
      row \<Rightarrow> upgrade_error + row \<times> bool" where
  "upgrade_row dec old enc r =
     (case upgrade_value dec old (enc (rw_id r) True) (rw_id r) (rw_private_key r) of
        Inl e \<Rightarrow> Inl e
      | Inr (k, c1) \<Rightarrow>
          (case upgrade_value dec old (enc (rw_id r) False) (rw_id r) (rw_password r) of
             Inl e \<Rightarrow> Inl e
           | Inr (p, c2) \<Rightarrow> Inr (r\<lparr>rw_private_key := k, rw_password := p\<rparr>, c1 \<or> c2)))"

fun upgrade_rows ::
    "(js_string \<Rightarrow> bytes option) \<Rightarrow> (js_string \<Rightarrow> bytes option) \<Rightarrow> (int \<Rightarrow> bool \<Rightarrow> bytes \<Rightarrow> js_string option) \<Rightarrow>
      row list \<Rightarrow> upgrade_error + row list" where
  "upgrade_rows dec old enc [] = Inr []"
| "upgrade_rows dec old enc (r # rs) =
     (case upgrade_row dec old enc r of
        Inl e \<Rightarrow> Inl e
      | Inr (r', changed) \<Rightarrow>
          (case upgrade_rows dec old enc rs of
             Inl e \<Rightarrow> Inl e
           | Inr us \<Rightarrow> Inr (if changed then r' # us else us)))"

definition set_secrets :: "row \<Rightarrow> database \<Rightarrow> database" where
  "set_secrets u d =
     (case rows d (rw_id u) of
        None \<Rightarrow> d
      | Some r \<Rightarrow>
          d\<lparr>rows := (rows d)(rw_id u \<mapsto> r\<lparr>rw_private_key := rw_private_key u, rw_password := rw_password u\<rparr>)\<rparr>)"

text \<open>\<open>ok\<close> tells whether the queries of the transaction and its commit succeed; else it is rolled back.\<close>

definition upgrade_credentials ::
    "(js_string \<Rightarrow> bytes option) \<Rightarrow> (js_string \<Rightarrow> bytes option) \<Rightarrow> (int \<Rightarrow> bool \<Rightarrow> bytes \<Rightarrow> js_string option) \<Rightarrow>
      bool \<Rightarrow> database \<Rightarrow> (upgrade_error + nat) \<times> database" where
  "upgrade_credentials dec old enc ok d =
     (case upgrade_rows dec old enc (all_rows d) of
        Inl e \<Rightarrow> (Inl e, d)
      | Inr us \<Rightarrow> if ok then (Inr (length us), fold set_secrets us d) else (Inl Database_Error, d))"

section \<open>Nothing is lost\<close>

text \<open>What a stored value holds, for the active key alone, and for either key.\<close>

definition plaintext :: "(js_string \<Rightarrow> bytes option) \<Rightarrow> js_string \<Rightarrow> bytes option" where
  "plaintext dec v = (if v = [] then Some [] else dec v)"

definition plaintext_either :: "(js_string \<Rightarrow> bytes option) \<Rightarrow> (js_string \<Rightarrow> bytes option) \<Rightarrow> js_string \<Rightarrow> bytes option" where
  "plaintext_either dec old v = plaintext (\<lambda>c. case dec c of None \<Rightarrow> old c | Some p \<Rightarrow> Some p) v"

definition upgraded :: "(js_string \<Rightarrow> bytes option) \<Rightarrow> (js_string \<Rightarrow> bytes option) \<Rightarrow> row \<Rightarrow> row \<Rightarrow> bool" where
  "upgraded dec old r r' \<longleftrightarrow>
     shown r' = shown r \<and>
     plaintext dec (rw_private_key r') = plaintext_either dec old (rw_private_key r) \<and>
     plaintext dec (rw_password r') = plaintext_either dec old (rw_password r) \<and>
     plaintext dec (rw_private_key r') \<noteq> None \<and> plaintext dec (rw_password r') \<noteq> None"

text \<open>The law of the cipher: what the active key encrypts it opens again.\<close>

definition recrypts :: "(int \<Rightarrow> bool \<Rightarrow> bytes \<Rightarrow> js_string option) \<Rightarrow> (js_string \<Rightarrow> bytes option) \<Rightarrow> bool" where
  "recrypts enc dec \<longleftrightarrow> (\<forall>i k p c. enc i k p = Some c \<longrightarrow> c \<noteq> [] \<and> dec c = Some p)"

lemma upgrade_value_opens:
  assumes "\<And>p c. enc p = Some c \<Longrightarrow> c \<noteq> [] \<and> dec c = Some p"
    and "upgrade_value dec old enc i v = Inr (w, changed)"
  shows "plaintext dec w = plaintext_either dec old v" "plaintext dec w \<noteq> None" "\<not> changed \<Longrightarrow> w = v"
  using assms(2) assms(1)
  by (auto simp: upgrade_value_def plaintext_def plaintext_either_def split: if_splits option.splits)

lemma upgrade_row_opens:
  assumes "recrypts enc dec"
    and "upgrade_row dec old enc r = Inr (r', changed)"
  shows "upgraded dec old r r'" "\<not> changed \<Longrightarrow> r' = r" "rw_id r' = rw_id r"
proof -
  obtain k c1 p c2 where k: "upgrade_value dec old (enc (rw_id r) True) (rw_id r) (rw_private_key r) = Inr (k, c1)"
    and p: "upgrade_value dec old (enc (rw_id r) False) (rw_id r) (rw_password r) = Inr (p, c2)"
    and r': "r' = r\<lparr>rw_private_key := k, rw_password := p\<rparr>" "changed = (c1 \<or> c2)"
    using assms(2) unfolding upgrade_row_def by (auto split: sum.splits prod.splits)
  have law: "enc i k p = Some c \<Longrightarrow> c \<noteq> [] \<and> dec c = Some p" for i k p c
    using assms(1) unfolding recrypts_def by blast
  note ko = upgrade_value_opens [OF law k] and po = upgrade_value_opens [OF law p]
  show "upgraded dec old r r'"
    using ko(1,2) po(1,2) by (simp add: upgraded_def r' shown_def)
  show "\<not> changed \<Longrightarrow> r' = r"
    using ko(3) po(3) by (simp add: r')
  show "rw_id r' = rw_id r"
    by (simp add: r')
qed

text \<open>Every row has an update of its own or needs none.\<close>

definition covers ::
    "(js_string \<Rightarrow> bytes option) \<Rightarrow> (js_string \<Rightarrow> bytes option) \<Rightarrow> row list \<Rightarrow> row list \<Rightarrow> bool" where
  "covers dec old us rs \<longleftrightarrow>
     rw_id ` set us \<subseteq> rw_id ` set rs \<and> distinct (map rw_id us) \<and>
     (\<forall>r \<in> set rs. if rw_id r \<in> rw_id ` set us
        then \<exists>u \<in> set us. rw_id u = rw_id r \<and> upgraded dec old r u else upgraded dec old r r)"

lemma covers_unchanged:
  assumes "covers dec old us rs" "upgraded dec old r r" "rw_id r \<notin> rw_id ` set rs"
  shows "covers dec old us (r # rs)"
proof -
  have "rw_id r \<notin> rw_id ` set us"
    using assms(1,3) unfolding covers_def by blast
  then show ?thesis
    using assms(1,2) by (auto simp: covers_def)
qed

lemma covers_changed:
  assumes "covers dec old us rs" "upgraded dec old r u" "rw_id r \<notin> rw_id ` set rs" "rw_id u = rw_id r"
  shows "covers dec old (u # us) (r # rs)"
proof -
  have n: "rw_id r \<notin> rw_id ` set us"
    using assms(1,3) unfolding covers_def by blast
  have "if rw_id q \<in> rw_id ` set (u # us) then \<exists>v \<in> set (u # us). rw_id v = rw_id q \<and> upgraded dec old q v
      else upgraded dec old q q" if "q \<in> set (r # rs)" for q
  proof (cases "q = r")
    case False
    then have q: "q \<in> set rs"
      using that by simp
    then have "rw_id q \<noteq> rw_id u"
      using assms(3,4) imageI [of q _ rw_id] by metis
    then show ?thesis
      using assms(1) q unfolding covers_def by auto
  qed (use assms(2,4) in auto)
  moreover have "rw_id ` set (u # us) \<subseteq> rw_id ` set (r # rs)" "distinct (map rw_id (u # us))"
    using assms(1,4) n unfolding covers_def by auto
  ultimately show ?thesis
    unfolding covers_def by blast
qed

lemma upgrade_rows_cover:
  assumes "recrypts enc dec"
  shows "upgrade_rows dec old enc rs = Inr us \<Longrightarrow> distinct (map rw_id rs) \<Longrightarrow> covers dec old us rs"
proof (induction rs arbitrary: us)
  case (Cons r rs)
  obtain r' changed us' where r': "upgrade_row dec old enc r = Inr (r', changed)"
    and us': "upgrade_rows dec old enc rs = Inr us'" and us: "us = (if changed then r' # us' else us')"
    using Cons.prems(1) by (auto split: sum.splits prod.splits)
  note o = upgrade_row_opens [OF assms r']
  have n: "rw_id r \<notin> rw_id ` set rs" and ih: "covers dec old us' rs"
    using Cons.prems(2) Cons.IH [OF us'] by auto
  show ?case
    using covers_unchanged [OF ih _ n] covers_changed [OF ih o(1) n o(3)] o(1,2) us
    by (cases changed) auto
qed (simp add: covers_def)

section \<open>The writes\<close>

lemma set_secrets_other: "rw_id u \<noteq> i \<Longrightarrow> rows (set_secrets u d) i = rows d i"
  by (simp add: set_secrets_def split: option.split)

lemma fold_secrets_other: "i \<notin> rw_id ` set us \<Longrightarrow> rows (fold set_secrets us d) i = rows d i"
  by (induction us arbitrary: d) (simp_all add: set_secrets_other)

lemma set_secrets_same:
  assumes "rows d i = Some r" "rw_id u = i" "shown u = shown r"
  shows "rows (set_secrets u d) i = Some u"
  using assms by (cases r; cases u) (simp add: set_secrets_def shown_def)

lemma fold_secrets_at:
  assumes "distinct (map rw_id us)" "u \<in> set us" "rw_id u = i" "rows d i = Some r" "shown u = shown r"
  shows "rows (fold set_secrets us d) i = Some u"
  using assms
proof (induction us arbitrary: d)
  case (Cons v us)
  show ?case
  proof (cases "u = v")
    case True
    then have "i \<notin> rw_id ` set us"
      using Cons.prems(1,3) by auto
    then show ?thesis
      using True set_secrets_same [OF Cons.prems(4,3,5)] by (simp add: fold_secrets_other)
  next
    case False
    then have "u \<in> set us" "rw_id v \<noteq> i"
      using Cons.prems(1,2,3) by (auto simp: image_iff)
    then show ?thesis
      using Cons.IH [of "set_secrets v d"] Cons.prems(1,3-5) by (simp add: set_secrets_other)
  qed
qed simp

lemma next_id_kept: "next_id (fold set_secrets us d) = next_id d"
  by (induction us arbitrary: d) (simp_all add: set_secrets_def split: option.split)

lemma all_rows_ids:
  assumes "db_ok d"
  shows "distinct (map rw_id (all_rows d))" "set (all_rows d) = {r. \<exists>i. rows d i = Some r}"
proof -
  let ?is = "filter (\<lambda>i. rows d i \<noteq> None) [1..next_id d - 1]"
  have "map rw_id (all_rows d) = ?is"
    using assms by (auto simp: all_rows_def db_ok_def intro!: map_idI)
  then show "distinct (map rw_id (all_rows d))"
    by simp
  show "set (all_rows d) = {r. \<exists>i. rows d i = Some r}"
  proof (intro equalityI subsetI)
    fix r
    assume "r \<in> {r. \<exists>i. rows d i = Some r}"
    then obtain i where i: "rows d i = Some r"
      by blast
    then have "0 < i" "i < next_id d"
      using assms unfolding db_ok_def by blast+
    then have "i \<in> set ?is"
      using i by auto
    moreover have "r = the (rows d i)"
      using i by simp
    ultimately show "r \<in> set (all_rows d)"
      unfolding all_rows_def set_map by blast
  qed (auto simp: all_rows_def)
qed

lemma written_rows:
  assumes "db_ok d" "covers dec old us (all_rows d)" "rows d i = Some r"
  shows "\<exists>r'. rows (fold set_secrets us d) i = Some r' \<and> upgraded dec old r r'"
proof -
  have i: "rw_id r = i" and r: "r \<in> set (all_rows d)"
    using assms(1,3) all_rows_ids(2) [OF assms(1)] by (auto simp: db_ok_def)
  have dist: "distinct (map rw_id us)"
    using assms(2) by (simp add: covers_def)
  show ?thesis
  proof (cases "rw_id r \<in> rw_id ` set us")
    case True
    then obtain u where u: "u \<in> set us" "rw_id u = i" "upgraded dec old r u"
      using assms(2) r i unfolding covers_def by metis
    then have "rows (fold set_secrets us d) i = Some u"
      using fold_secrets_at [OF dist u(1,2) assms(3)] unfolding upgraded_def by blast
    then show ?thesis
      using u(3) by blast
  next
    case False
    then have "upgraded dec old r r"
      using assms(2) r unfolding covers_def by metis
    moreover have "rows (fold set_secrets us d) i = Some r"
      using False i assms(3) fold_secrets_other [of i us d] by simp
    ultimately show ?thesis
      by blast
  qed
qed

lemma no_upgrade:
  assumes "\<forall>r \<in> set rs. plaintext dec (rw_private_key r) \<noteq> None \<and> plaintext dec (rw_password r) \<noteq> None"
  shows "upgrade_rows dec old enc rs = Inr []"
  using assms
proof (induction rs)
  case (Cons r rs)
  then have "upgrade_row dec old enc r = Inr (r, False)"
    by (auto simp: upgrade_row_def upgrade_value_def plaintext_def split: if_splits)
  then show ?case
    using Cons by simp
qed simp

lemma rows_upgraded:
  assumes "db_ok d" "covers dec old us (all_rows d)"
  shows "rel_option (upgraded dec old) (rows d i) (rows (fold set_secrets us d) i)"
proof (cases "rows d i")
  case None
  have "i \<notin> rw_id ` set us"
  proof
    assume "i \<in> rw_id ` set us"
    moreover have "rw_id ` set us \<subseteq> rw_id ` set (all_rows d)"
      using assms(2) unfolding covers_def by (elim conjE)
    ultimately obtain q where "q \<in> set (all_rows d)" "rw_id q = i"
      by (auto simp: image_iff)
    moreover from this obtain k where "rows d k = Some q"
      using all_rows_ids(2) [OF assms(1)] by blast
    ultimately have "rows d i = Some q"
      using assms(1) unfolding db_ok_def by blast
    then show False
      using None by simp
  qed
  then show ?thesis
    using None by (simp add: fold_secrets_other)
next
  case (Some r)
  then show ?thesis
    using written_rows [OF assms Some] by auto
qed

text \<open>
  Claim C13. The upgrade at start loses no credential. If it fails at any row the database is as it was. If
  it succeeds, every server has the credentials it had, opened by the active key alone, whichever of the
  two keys they were encrypted with before, and nothing else of a row changes; and the next start finds
  nothing to upgrade.
\<close>

theorem the_upgrade_loses_no_credential:
  assumes "db_ok d" and "recrypts enc dec"
    and "upgrade_credentials dec old enc ok d = (res, d')"
  shows "case res of
      Inl e \<Rightarrow> d' = d
    | Inr n \<Rightarrow>
        (\<forall>i. rel_option (upgraded dec old) (rows d i) (rows d' i)) \<and> next_id d' = next_id d \<and>
        upgrade_credentials dec old enc ok' d' = (if ok' then Inr 0 else Inl Database_Error, d')"
proof (cases "upgrade_rows dec old enc (all_rows d)")
  case (Inl e)
  then have "res = Inl e" "d' = d"
    using assms(3) by (simp_all add: upgrade_credentials_def)
  then show ?thesis
    by simp
next
  case (Inr us)
  show ?thesis
  proof (cases ok)
    case True
    then have d': "d' = fold set_secrets us d" and res: "res = Inr (length us)"
      using assms(3) Inr by (auto simp: upgrade_credentials_def)
    have c: "covers dec old us (all_rows d)"
      using upgrade_rows_cover [OF assms(2) Inr] all_rows_ids(1) [OF assms(1)] .
    have rel: "rel_option (upgraded dec old) (rows d i) (rows d' i)" for i
      using rows_upgraded [OF assms(1) c] d' by simp
    have "upgrade_rows dec old enc (all_rows d') = Inr []"
    proof (rule no_upgrade, intro ballI)
      fix r
      assume "r \<in> set (all_rows d')"
      then obtain i where "rows d' i = Some r"
        by (auto simp: all_rows_def)
      then show "plaintext dec (rw_private_key r) \<noteq> None \<and> plaintext dec (rw_password r) \<noteq> None"
        using rel [of i] by (auto simp: upgraded_def option_rel_Some2)
    qed
    then show ?thesis
      using rel d' res next_id_kept by (simp add: upgrade_credentials_def)
  qed (use assms(3) Inr in \<open>auto simp: upgrade_credentials_def\<close>)
qed

text \<open>The stored sample under the old key, and two keys that mark what they encrypt.\<close>

definition marked :: "16 word \<Rightarrow> bytes \<Rightarrow> js_string option" where
  "marked k p = Some (k # hex_encode p)"

definition unmarked :: "16 word \<Rightarrow> js_string \<Rightarrow> bytes option" where
  "unmarked k c = (if c \<noteq> [] \<and> hd c = k then hex_decode (tl c) else None)"

definition old_row :: row where
  "old_row = sample_row\<lparr>rw_private_key := [0x61, 0x30, 0x37]\<rparr>"

theorem the_upgrade_loses_no_credential_witness:
  "\<exists>d'. upgrade_credentials (unmarked 0x62) (unmarked 0x61) (\<lambda>i k. marked 0x62) True
      (db (one_row old_row)) = (Inr 1, d')
    \<and> rel_option (upgraded (unmarked 0x62) (unmarked 0x61)) (Some old_row) (rows d' 1)"
proof -
  obtain d' where d': "upgrade_credentials (unmarked 0x62) (unmarked 0x61) (\<lambda>i k. marked 0x62) True
      (db (one_row old_row)) = (Inr 1, d')"
    by (simp add: upgrade_credentials_def one_row_def all_rows_def upgrade_row_def upgrade_value_def
        unmarked_def marked_def old_row_def sample_row_def row_of_def request_of_def sample_server_form_def hex_val_def)
  have "rw_auth_type sample_row = js ''key''" "rw_jump_server_id sample_row = None"
    by (simp_all add: sample_row_def row_of_def request_of_def sample_server_form_def protocol_names)
  then have "row_ok old_row"
    using sample_row_ok by (simp add: row_ok_def ssh_row_ok_def rdp_row_ok_def old_row_def)
  then have "db_ok (db (one_row old_row))"
    using sample_row_ok by (simp add: db_ok_def one_row_def old_row_def)
  then show ?thesis
    using the_upgrade_loses_no_credential [OF _ _ d', of True] d'
    by (auto simp: marked_def unmarked_def one_row_def recrypts_def dest: spec [of _ 1])
qed

end
