(* ===== verification/Directory.thy ===== *)
theory Directory
  imports Api
begin

text \<open>
  The directory listing hook (\<open>hooks/useDirectory.ts\<close>): one listing request at a time matters, older
  ones are aborted, and an action remembers the directory it was started in.

  The React states and the refs of the hook are the fields of one record; an event is handled after the
  states of the event before it have been rendered. Requests are numbered by the generation they
  remember; \<open>listing\<close> holds the server and path of each request still without an answer, and
  \<open>aborted\<close> the requests whose controller was told to abort.
\<close>

section \<open>State\<close>

record directory =
  files :: "file_entry list"
  current_path :: js_string
  loading :: bool
  ready :: bool
  rendered_generation :: nat
  dir_generation :: nat
  controller :: "nat option"
  aborted :: "nat list"
  visible_open :: bool
  visible_server :: int
  visible_path :: js_string
  listing :: "nat \<rightharpoonup> int \<times> js_string"
  list_calls :: "request list"
  dir_errors :: "json list"

definition root_path :: js_string where
  "root_path = js ''/''"

definition msg_list_failed :: js_string where
  "msg_list_failed = [0x52A0, 0x8F7D, 0x6587, 0x4EF6, 0x5217, 0x8868, 0x5931, 0x8D25]"

section \<open>Operations\<close>

definition abort_current :: "directory \<Rightarrow> directory" where
  "abort_current d =
     (case controller d of None \<Rightarrow> d | Some i \<Rightarrow> d\<lparr>aborted := i # aborted d\<rparr>)"

text \<open>\<open>loadFiles(path)\<close> of a render for server \<open>sid\<close>, up to its first \<open>await\<close>.\<close>

definition load_files :: "int \<Rightarrow> js_string \<Rightarrow> directory \<Rightarrow> directory" where
  "load_files sid path d0 =
     (let d = abort_current d0; i = Suc (dir_generation d)
      in d\<lparr>controller := Some i, dir_generation := i, rendered_generation := i,
           visible_path := path, current_path := path, files := [], ready := False, loading := True,
           listing := (listing d)(i \<mapsto> (sid, path)),
           list_calls := list_calls d @ [list_files sid path]\<rparr>)"

text \<open>The closure \<open>current()\<close> of request \<open>i\<close> for server \<open>sid\<close>.\<close>

definition request_current :: "nat \<Rightarrow> int \<Rightarrow> directory \<Rightarrow> bool" where
  "request_current i sid d \<longleftrightarrow>
     i \<notin> set (aborted d) \<and> dir_generation d = i \<and> visible_open d \<and> visible_server d = sid"

text \<open>The rest of \<open>loadFiles\<close>, when the request settles. The data may be \<open>null\<close>.\<close>

definition on_listing ::
    "nat \<Rightarrow> http_error + file_entry list option \<Rightarrow> directory \<Rightarrow> directory" where
  "on_listing i reply d =
     (case listing d i of
        None \<Rightarrow> d
      | Some (sid, path) \<Rightarrow>
          (let d1 = d\<lparr>listing := (listing d)(i := None)\<rparr>
           in if \<not> request_current i sid d1 then d1
              else (case reply of
                  Inr data \<Rightarrow>
                    d1\<lparr>files := (case data of None \<Rightarrow> [] | Some fs \<Rightarrow> fs), ready := True, loading := False\<rparr>
                | Inl err \<Rightarrow>
                    d1\<lparr>dir_errors := dir_errors d1 @ [error_detail err msg_list_failed],
                       loading := False\<rparr>)))"

text \<open>The cleanup of the effect on \<open>open\<close> and \<open>serverId\<close>, and a render with new values of them.\<close>

definition leave :: "directory \<Rightarrow> directory" where
  "leave d = abort_current (d\<lparr>dir_generation := Suc (dir_generation d)\<rparr>)"

definition set_visible :: "bool \<Rightarrow> int \<Rightarrow> directory \<Rightarrow> directory" where
  "set_visible op sid d =
     (if visible_open d = op \<and> visible_server d = sid then d
      else
        (let d1 = leave (d\<lparr>visible_open := op, visible_server := sid\<rparr>)
         in if op then load_files sid root_path d1 else d1))"

definition init_directory :: "bool \<Rightarrow> int \<Rightarrow> directory" where
  "init_directory op sid =
     (let d = \<lparr>files = [], current_path = root_path, loading = False, ready = False,
               rendered_generation = 0, dir_generation = 0, controller = None, aborted = [],
               visible_open = op, visible_server = sid, visible_path = root_path,
               listing = Map.empty, list_calls = [], dir_errors = []\<rparr>
      in if op then load_files sid root_path d else d)"

text \<open>What the hook returns as \<open>ready\<close>.\<close>

definition dir_ready :: "directory \<Rightarrow> bool" where
  "dir_ready d \<longleftrightarrow> ready d \<and> visible_open d"

record capture =
  cap_server :: int
  cap_path :: js_string
  cap_generation :: nat

definition capture :: "directory \<Rightarrow> capture" where
  "capture d =
     \<lparr>cap_server = visible_server d, cap_path = current_path d,
      cap_generation = rendered_generation d\<rparr>"

definition is_current :: "capture \<Rightarrow> directory \<Rightarrow> bool" where
  "is_current t d \<longleftrightarrow>
     dir_generation d = cap_generation t \<and> visible_open d \<and> visible_server d = cap_server t \<and>
     visible_path d = cap_path t"

definition refresh :: "capture \<Rightarrow> directory \<Rightarrow> directory" where
  "refresh t d = (if is_current t d then load_files (cap_server t) (cap_path t) d else d)"

section \<open>Events\<close>

datatype directory_event =
    Open_Path js_string
  | Set_Visible bool int
  | Refresh_Target capture
  | Listing nat "http_error + file_entry list option"
  | Close_Hook

fun directory_step :: "directory \<Rightarrow> directory_event \<Rightarrow> directory" where
  "directory_step d (Open_Path p) = load_files (visible_server d) p d"
| "directory_step d (Set_Visible op sid) = set_visible op sid d"
| "directory_step d (Refresh_Target t) = refresh t d"
| "directory_step d (Listing i reply) = on_listing i reply d"
| "directory_step d Close_Hook = leave d"

section \<open>Invariant\<close>

text \<open>
  Every request still without an answer is aborted or is the one of the current generation and of the
  path on display; the refs and the states agree.
\<close>

definition directory_inv :: "directory \<Rightarrow> bool" where
  "directory_inv d \<longleftrightarrow>
     rendered_generation d \<le> dir_generation d \<and> visible_path d = current_path d \<and>
     (\<forall>i. controller d = Some i \<longrightarrow> i \<le> dir_generation d) \<and>
     (\<forall>i s p. listing d i = Some (s, p) \<longrightarrow>
        i \<le> dir_generation d \<and> (i \<in> set (aborted d) \<or>
          (i = dir_generation d \<and> controller d = Some i \<and> rendered_generation d = i \<and>
           p = current_path d))) \<and>
     (ready d \<longrightarrow> \<not> loading d \<and> listing d (dir_generation d) = None)"

lemma abort_current_fields [simp]:
  "dir_generation (abort_current d) = dir_generation d" "listing (abort_current d) = listing d"
  "files (abort_current d) = files d" "ready (abort_current d) = ready d"
  "loading (abort_current d) = loading d" "current_path (abort_current d) = current_path d"
  "visible_open (abort_current d) = visible_open d" "visible_server (abort_current d) = visible_server d"
  "visible_path (abort_current d) = visible_path d" "controller (abort_current d) = controller d"
  "rendered_generation (abort_current d) = rendered_generation d"
  "list_calls (abort_current d) = list_calls d" "dir_errors (abort_current d) = dir_errors d"
  "set (aborted (abort_current d)) = set (aborted d) \<union> set_option (controller d)"
  by (auto simp: abort_current_def split: option.splits)

lemma load_files_inv: "directory_inv d \<Longrightarrow> directory_inv (load_files sid p d)"
proof -
  assume d: "directory_inv d"
  have "i \<le> dir_generation d \<and> i \<in> set (aborted (abort_current d))" if "listing d i = Some (s, q)" for i s q
    using d that by (auto simp: directory_inv_def)
  then show ?thesis
    using d by (auto simp: directory_inv_def load_files_def Let_def le_SucI)
qed

lemma leave_inv: "directory_inv d \<Longrightarrow> directory_inv (leave d)"
proof -
  assume d: "directory_inv d"
  then have "listing d (Suc (dir_generation d)) = None"
    unfolding directory_inv_def by (metis not_less_eq_eq not_Some_eq surj_pair le_refl)
  then show ?thesis
    using d by (auto simp: directory_inv_def leave_def le_SucI)
qed

lemma directory_inv_visible [simp]:
  "directory_inv (d\<lparr>visible_open := op, visible_server := sid\<rparr>) = directory_inv d"
  by (simp add: directory_inv_def)

lemma on_listing_inv: "directory_inv d \<Longrightarrow> directory_inv (on_listing i reply d)"
  by (auto simp: on_listing_def directory_inv_def request_current_def Let_def split: option.split sum.split)

lemma directory_step_inv: "directory_inv d \<Longrightarrow> directory_inv (directory_step d e)"
  by (cases e)
    (simp_all add: load_files_inv leave_inv on_listing_inv set_visible_def refresh_def Let_def)

lemma init_directory_inv: "directory_inv (init_directory op sid)"
proof -
  have "directory_inv \<lparr>files = [], current_path = root_path, loading = False, ready = False,
      rendered_generation = 0, dir_generation = 0, controller = None, aborted = [],
      visible_open = b, visible_server = sid, visible_path = root_path,
      listing = Map.empty, list_calls = [], dir_errors = []\<rparr>" for b
    by (simp add: directory_inv_def)
  then show ?thesis
    using load_files_inv by (simp add: init_directory_def Let_def)
qed

interpretation directory: machine directory_step directory_inv
  by unfold_locales (rule directory_step_inv)

section \<open>Generations\<close>

text \<open>The events after which an older request or action is no longer current.\<close>

definition moves_on :: "directory \<Rightarrow> directory_event \<Rightarrow> bool" where
  "moves_on d e \<longleftrightarrow>
     (case e of
        Open_Path _ \<Rightarrow> True
      | Set_Visible op sid \<Rightarrow> \<not> (visible_open d = op \<and> visible_server d = sid)
      | Refresh_Target t \<Rightarrow> is_current t d
      | Listing _ _ \<Rightarrow> False
      | Close_Hook \<Rightarrow> True)"

lemma load_files_generation [simp]: "dir_generation (load_files sid p d) = Suc (dir_generation d)"
  by (simp add: load_files_def Let_def)

lemma leave_generation [simp]: "dir_generation (leave d) = Suc (dir_generation d)"
  by (simp add: leave_def)

lemma on_listing_generation [simp]: "dir_generation (on_listing i reply d) = dir_generation d"
  by (simp add: on_listing_def Let_def split: option.split sum.split)

interpretation directory_gen: generation_machine directory_step dir_generation moves_on
proof unfold_locales
  show "dir_generation d \<le> dir_generation (directory_step d e)" for d e
    by (cases e) (simp_all add: set_visible_def refresh_def Let_def)
  show "moves_on d e \<Longrightarrow> dir_generation d < dir_generation (directory_step d e)" for d e
    by (cases e) (auto simp: moves_on_def set_visible_def refresh_def Let_def)
qed

section \<open>What is on display\<close>

text \<open>The listing shown is the answer, in the history \<open>es\<close>, to the request for what is shown.\<close>

definition answered :: "directory \<Rightarrow> directory_event list \<Rightarrow> directory \<Rightarrow> bool" where
  "answered d0 es d \<longleftrightarrow>
     (\<exists>xs ys data. es = xs @ Listing (rendered_generation d) (Inr data) # ys \<and>
        files d = (case data of None \<Rightarrow> [] | Some fs \<Rightarrow> fs) \<and>
        listing (run directory_step d0 xs) (rendered_generation d)
          = Some (visible_server d, current_path d))"

lemma answered_later:
  "answered d0 es d \<Longrightarrow> rendered_generation d' = rendered_generation d \<Longrightarrow> files d' = files d \<Longrightarrow>
   visible_server d' = visible_server d \<Longrightarrow> current_path d' = current_path d \<Longrightarrow>
   answered d0 (es @ [e]) d'"
  by (fastforce simp: answered_def)

lemma load_files_not_ready [simp]: "ready (load_files sid p d) = False" "dir_ready (load_files sid p d) = False"
  by (simp_all add: dir_ready_def load_files_def Let_def)

lemma leave_fields [simp]:
  "ready (leave d) = ready d" "visible_open (leave d) = visible_open d" "files (leave d) = files d"
  "rendered_generation (leave d) = rendered_generation d" "current_path (leave d) = current_path d"
  "visible_server (leave d) = visible_server d"
  by (simp_all add: leave_def)

lemma on_listing_answered:
  assumes inv: "directory_inv d" and d: "d = run directory_step d0 es"
    and old: "dir_ready d \<Longrightarrow> answered d0 es d" and now: "dir_ready (on_listing i reply d)"
  shows "answered d0 (es @ [Listing i reply]) (on_listing i reply d)"
proof (cases "\<exists>sid path data. listing d i = Some (sid, path) \<and> request_current i sid d \<and> reply = Inr data")
  case True
  then obtain sid path data where l: "listing d i = Some (sid, path)" "request_current i sid d" "reply = Inr data"
    by blast
  then have r: "rendered_generation d = i" "path = current_path d" "visible_server d = sid"
    using inv by (auto simp: directory_inv_def request_current_def)
  have "request_current i sid (d\<lparr>listing := (listing d)(i := None)\<rparr>)"
    using l(2) by (simp add: request_current_def)
  then have "on_listing i reply d = d\<lparr>listing := (listing d)(i := None),
      files := (case data of None \<Rightarrow> [] | Some fs \<Rightarrow> fs), ready := True, loading := False\<rparr>"
    using l by (simp add: on_listing_def)
  then show ?thesis
    unfolding answered_def using l r d
    by - (rule exI [of _ es], rule exI [of _ "[]"], rule exI [of _ data], simp)
next
  case False
  then have "ready (on_listing i reply d) = ready d" and k: "files (on_listing i reply d) = files d"
    "rendered_generation (on_listing i reply d) = rendered_generation d"
    "visible_server (on_listing i reply d) = visible_server d"
    "visible_open (on_listing i reply d) = visible_open d"
    "current_path (on_listing i reply d) = current_path d"
    by (auto simp: on_listing_def request_current_def Let_def split: option.split sum.split)
  then have "answered d0 es d"
    using old now by (simp add: dir_ready_def)
  then show ?thesis
    using k by (intro answered_later) simp_all
qed

lemma directory_step_answered:
  assumes "directory_inv d" "d = run directory_step d0 es" "dir_ready d \<Longrightarrow> answered d0 es d"
    and "dir_ready (directory_step d e)"
  shows "answered d0 (es @ [e]) (directory_step d e)"
proof (cases e)
  case (Listing i reply)
  then show ?thesis
    using on_listing_answered [OF assms(1-3)] assms(4) by simp
next
  case (Set_Visible op sid)
  show ?thesis
  proof (cases "visible_open d = op \<and> visible_server d = sid")
    case True
    then show ?thesis
      using assms(3,4) Set_Visible by (auto simp: set_visible_def intro: answered_later)
  next
    case False
    then have "\<not> dir_ready (set_visible op sid d)"
      by (auto simp: set_visible_def Let_def dir_ready_def)
    then show ?thesis
      using assms(4) Set_Visible by simp
  qed
next
  case Close_Hook
  then have "dir_ready d"
    using assms(4) by (simp add: dir_ready_def)
  then show ?thesis
    using assms(3) Close_Hook by (auto intro: answered_later)
next
  case (Refresh_Target t)
  then show ?thesis
    using assms(3,4) by (auto simp: refresh_def split: if_splits intro: answered_later)
qed (use assms in simp)

lemma run_answered:
  assumes "directory_inv d0" "\<not> dir_ready d0"
  shows "dir_ready (run directory_step d0 es) \<Longrightarrow> answered d0 es (run directory_step d0 es)"
proof (induction es rule: rev_induct)
  case Nil
  then show ?case
    using assms(2) by simp
next
  case (snoc e es)
  then show ?case
    using directory_step_answered [OF directory.run_inv [OF assms(1), of es] refl snoc.IH, of e]
    by (simp add: run_append)
qed

lemma init_directory_not_ready: "\<not> dir_ready (init_directory op sid)"
  by (cases op) (simp_all add: init_directory_def Let_def, simp add: dir_ready_def)

section \<open>Properties\<close>

text \<open>
  Claim C24. What the file list shows is never stale: whenever the hook reports a listing as ready, in any
  history of navigation, server changes, opening, closing, refreshes and replies in any order, the files
  shown are the answer that history holds to the latest request, and that request asked the server now
  selected for the path now displayed.
\<close>

theorem displayed_files_are_the_answer:
  assumes "d = run directory_step (init_directory op sid) es" and "dir_ready d"
  shows "\<exists>xs ys data. es = xs @ Listing (rendered_generation d) (Inr data) # ys
    \<and> files d = (case data of None \<Rightarrow> [] | Some fs \<Rightarrow> fs)
    \<and> listing (run directory_step (init_directory op sid) xs) (rendered_generation d)
      = Some (visible_server d, current_path d)"
  using run_answered [OF init_directory_inv init_directory_not_ready, of op sid es] assms
  by (simp add: answered_def)

theorem displayed_files_are_the_answer_witness:
  "dir_ready (run directory_step (init_directory True 3)
       [Open_Path (js ''/etc''), Listing 1 (Inr None), Listing 2 (Inr None)])
   \<and> (\<exists>xs ys data. [Open_Path (js ''/etc''), Listing 1 (Inr None), Listing 2 (Inr None)]
       = xs @ Listing 2 (Inr data) # ys)"
proof -
  let ?es = "[Open_Path (js ''/etc''), Listing 1 (Inr None), Listing 2 (Inr None)]"
  let ?d = "run directory_step (init_directory True 3) ?es"
  have r: "dir_ready ?d" "rendered_generation ?d = 2"
    by (simp_all add: init_directory_def load_files_def abort_current_def on_listing_def
        request_current_def Let_def dir_ready_def [of "_\<lparr>loading := _\<rparr>"] dir_ready_def)
  show ?thesis
    using displayed_files_are_the_answer [OF refl r(1)] r by auto
qed

text \<open>
  At most one listing request is alive: every request still without an answer, other than the
  one of the current generation, has been aborted; the one that is not asks for the displayed path, and
  no reply to an aborted or superseded one changes anything shown.
\<close>

lemma one_listing_request_alive:
  assumes "d = run directory_step (init_directory op sid) es" and "listing d i = Some (s, p)"
  shows "(i \<in> set (aborted d) \<or> i = dir_generation d \<and> controller d = Some i \<and> p = current_path d)
    \<and> (i \<notin> set (aborted d) \<or> files (on_listing i reply d) = files d
         \<and> dir_ready (on_listing i reply d) = dir_ready d \<and> loading (on_listing i reply d) = loading d
         \<and> dir_errors (on_listing i reply d) = dir_errors d)"
proof -
  have "directory_inv d"
    using directory.run_inv [OF init_directory_inv] assms(1) by simp
  then have "i \<in> set (aborted d) \<or> i = dir_generation d \<and> controller d = Some i \<and> p = current_path d"
    using assms(2) by (auto simp: directory_inv_def)
  moreover have "i \<in> set (aborted d) \<Longrightarrow> on_listing i reply d = d\<lparr>listing := (listing d)(i := None)\<rparr>"
    using assms(2) by (simp add: on_listing_def request_current_def)
  ultimately show ?thesis
    by (auto simp: dir_ready_def)
qed

lemma one_listing_request_alive_witness:
  "1 \<in> set (aborted (run directory_step (init_directory True 3) [Open_Path (js ''/etc'')]))"
proof -
  let ?d = "run directory_step (init_directory True 3) [Open_Path (js ''/etc'')]"
  have l: "listing ?d 1 = Some (3, root_path)" and g: "1 \<noteq> dir_generation ?d"
    by (simp_all add: init_directory_def load_files_def abort_current_def Let_def)
  show ?thesis
    using conjunct1 [OF one_listing_request_alive [OF refl l, where reply = "Inr None"]]
    by (elim disjE conjE) (assumption, erule notE [OF g])
qed

text \<open>
  An action's target expires for good: a target captured before the user navigated, refreshed,
  switched servers, closed the dialog or left is never current again, whatever happens later, and its
  refresh does nothing; a target that is current names the server and path on display.
\<close>

lemma captured_target_expires:
  assumes "t = capture d" and "rendered_generation d = dir_generation d"
    and "moves_on (run directory_step d xs) e"
  shows "\<not> is_current t (run directory_step d (xs @ e # ys))
    \<and> refresh t (run directory_step d (xs @ e # ys)) = run directory_step d (xs @ e # ys)"
  using directory_gen.superseded_later [OF assms(3), of ys] assms(1,2)
  by (simp add: is_current_def capture_def refresh_def)

lemma captured_target_expires_witness:
  "\<not> is_current (capture (init_directory True 3)) (run directory_step (init_directory True 3) [Set_Visible True 4])"
  using captured_target_expires [OF refl, of "init_directory True 3" "[]" "Set_Visible True 4" "[]"]
  by (simp add: init_directory_def load_files_def abort_current_def Let_def moves_on_def)


end
