(* ===== verification/File_Manager.thy ===== *)
theory File_Manager
  imports Directory
begin

text \<open>
  The file manager dialog (\<open>components/FileManager.tsx\<close>): sizes, breadcrumbs and the path field, and the
  actions that change files, each of which spans a request and may finish after the user has moved on.

  A started action is a task; \<open>tasks\<close> holds those still waiting for a reply or for the user, numbered in
  the order they were started. \<open>fm_calls\<close> lists every request an action sent.
\<close>

section \<open>Sizes\<close>

definition size_units :: "js_string list" where
  "size_units = [js ''B'', js ''KB'', js ''MB'', js ''GB'']"

text \<open>
  The loop divides the size by 1024, exactly in binary floating point; after \<open>i\<close> rounds the value is
  \<open>bytes / 1024 ^ i\<close>.
\<close>

function size_loop :: "nat \<Rightarrow> nat \<Rightarrow> nat" where
  "size_loop bytes i =
     (if 1024 * 1024 ^ i \<le> bytes \<and> i < length size_units - 1 then size_loop bytes (Suc i) else i)"
  by pat_completeness auto
termination
  by (relation "measure (\<lambda>(bytes, i). length size_units - i)") auto

declare size_loop.simps [simp del]

text \<open>
  \<open>toFixed(1)\<close> of \<open>bytes / 1024 ^ i\<close>: the number of tenths closest to it, the larger of two equally
  close ones.
\<close>

definition tenths :: "nat \<Rightarrow> nat \<Rightarrow> nat" where
  "tenths bytes i = (20 * bytes + 1024 ^ i) div (2 * 1024 ^ i)"

definition format_size :: "nat \<Rightarrow> js_string" where
  "format_size bytes =
     (if bytes = 0 then js ''-''
      else
        (let i = size_loop bytes 0
         in (if i = 0 then nat_digits bytes
             else nat_digits (tenths bytes i div 10) @ js ''.'' @ nat_digits (tenths bytes i mod 10))
            @ js '' '' @ size_units ! i))"

text \<open>The size column.\<close>

definition size_cell :: "file_entry \<Rightarrow> js_string" where
  "size_cell f = (if fe_is_dir f then js ''-'' else format_size (fe_size f))"

section \<open>Paths\<close>

definition slash :: "16 word" where
  "slash = 0x2F"

definition path_parts :: "js_string \<Rightarrow> js_string list" where
  "path_parts p = filter truthy (js_split slash p)"

definition crumb :: "js_string list \<Rightarrow> nat \<Rightarrow> js_string" where
  "crumb parts i = slash # js_join [slash] (take (i + 1) parts)"

definition entered_path :: "js_string \<Rightarrow> js_string" where
  "entered_path input =
     (let p = js_trim input in if starts_with p [slash] then p else slash # p)"

definition child_path :: "js_string \<Rightarrow> js_string \<Rightarrow> js_string" where
  "child_path p name = (if p = [slash] then slash # name else p @ slash # name)"

section \<open>State\<close>

datatype notice = Done js_string | Failed json | Failed_File js_string json

datatype task =
    Uploading capture "upload list" nat
  | Downloading js_string
  | Deleting capture
  | Naming capture
  | Making capture

record file_manager =
  dir :: directory
  path_input :: js_string
  page_number :: nat
  uploading :: bool
  tasks :: "nat \<rightharpoonup> task"
  next_task :: nat
  fm_calls :: "request list"
  notices :: "notice list"
  saved :: "(js_string \<times> bytes) list"

text \<open>The effect on path, server and visibility resets the path field and the page.\<close>

definition put_dir :: "directory \<Rightarrow> file_manager \<Rightarrow> file_manager" where
  "put_dir d m =
     (if current_path d = current_path (dir m) \<and> visible_server d = visible_server (dir m)
         \<and> visible_open d = visible_open (dir m)
      then m\<lparr>dir := d\<rparr>
      else m\<lparr>dir := d, path_input := current_path d, page_number := 1\<rparr>)"

definition init_file_manager :: "bool \<Rightarrow> int \<Rightarrow> file_manager" where
  "init_file_manager op sid =
     \<lparr>dir = init_directory op sid, path_input = root_path, page_number = 1, uploading = False,
      tasks = Map.empty, next_task = 0, fm_calls = [], notices = [], saved = []\<rparr>"

text \<open>\<open>capture()\<close> and the check that follows it.\<close>

definition target :: "file_manager \<Rightarrow> capture option" where
  "target m = (let t = capture (dir m) in if is_current t (dir m) then Some t else None)"

definition start_task :: "task \<Rightarrow> request list \<Rightarrow> file_manager \<Rightarrow> file_manager" where
  "start_task k rs m =
     m\<lparr>tasks := (tasks m)(next_task m \<mapsto> k), next_task := Suc (next_task m), fm_calls := fm_calls m @ rs\<rparr>"

definition end_task :: "nat \<Rightarrow> file_manager \<Rightarrow> file_manager" where
  "end_task n m = m\<lparr>tasks := (tasks m)(n := None)\<rparr>"

definition notify :: "notice \<Rightarrow> file_manager \<Rightarrow> file_manager" where
  "notify x m = m\<lparr>notices := notices m @ [x]\<rparr>"

definition do_refresh :: "capture \<Rightarrow> file_manager \<Rightarrow> file_manager" where
  "do_refresh t m = put_dir (refresh t (dir m)) m"

section \<open>Navigation\<close>

definition navigate_to :: "js_string \<Rightarrow> file_manager \<Rightarrow> file_manager" where
  "navigate_to p m = put_dir (load_files (visible_server (dir m)) p (dir m)) m"

definition handle_navigate :: "file_entry \<Rightarrow> file_manager \<Rightarrow> file_manager" where
  "handle_navigate f m =
     (if dir_ready (dir m) \<and> fe_is_dir f \<and> target m \<noteq> None then navigate_to (fe_path f) m else m)"

definition handle_go_path :: "file_manager \<Rightarrow> file_manager" where
  "handle_go_path m = navigate_to (entered_path (path_input m)) m"

section \<open>Actions\<close>

definition msg_upload_failed :: js_string where "msg_upload_failed = [0x4E0A, 0x4F20, 0x5931, 0x8D25]"
definition msg_download_failed :: js_string where "msg_download_failed = [0x4E0B, 0x8F7D, 0x5931, 0x8D25]"
definition msg_deleted :: js_string where "msg_deleted = [0x5DF2, 0x5220, 0x9664]"
definition msg_delete_failed :: js_string where "msg_delete_failed = [0x5220, 0x9664, 0x5931, 0x8D25]"
definition msg_created :: js_string where "msg_created = [0x5DF2, 0x521B, 0x5EFA]"
definition msg_create_failed :: js_string where "msg_create_failed = [0x521B, 0x5EFA, 0x5931, 0x8D25]"

definition msg_uploaded :: "nat \<Rightarrow> js_string" where
  "msg_uploaded n = [0x5DF2, 0x4E0A, 0x4F20] @ js '' '' @ nat_digits n @ js '' '' @ [0x4E2A, 0x6587, 0x4EF6]"

definition handle_upload :: "upload list \<Rightarrow> file_manager \<Rightarrow> file_manager" where
  "handle_upload fs m =
     (if \<not> dir_ready (dir m) then m
      else (case (target m, fs) of
          (Some t, f # _) \<Rightarrow>
            start_task (Uploading t fs 0) [upload_file (cap_server t) (cap_path t) f] (m\<lparr>uploading := True\<rparr>)
        | _ \<Rightarrow> m))"

definition handle_download :: "file_entry \<Rightarrow> file_manager \<Rightarrow> file_manager" where
  "handle_download f m =
     (if \<not> dir_ready (dir m) \<or> target m = None then m
      else start_task (Downloading (fe_name f)) [download_file (visible_server (dir m)) (fe_path f)] m)"

definition handle_delete :: "file_entry \<Rightarrow> file_manager \<Rightarrow> file_manager" where
  "handle_delete f m =
     (if \<not> dir_ready (dir m) \<or> \<not> list_ex (\<lambda>g. fe_path g = fe_path f) (files (dir m)) then m
      else (case target m of
          None \<Rightarrow> m
        | Some t \<Rightarrow> start_task (Deleting t) [delete_file (visible_server (dir m)) (fe_path f)] m))"

definition handle_mkdir :: "file_manager \<Rightarrow> file_manager" where
  "handle_mkdir m =
     (if \<not> dir_ready (dir m) then m
      else (case target m of None \<Rightarrow> m | Some t \<Rightarrow> start_task (Naming t) [] m))"

text \<open>The name dialog is closed, with \<open>None\<close> when it was cancelled.\<close>

definition on_name :: "nat \<Rightarrow> js_string option \<Rightarrow> file_manager \<Rightarrow> file_manager" where
  "on_name n value m =
     (case tasks m n of
        Some (Naming t) \<Rightarrow>
          (let name = or_else value []
           in if truthy name \<and> is_current t (dir m) then
                m\<lparr>tasks := (tasks m)(n \<mapsto> Making t),
                  fm_calls := fm_calls m @ [create_dir (cap_server t) (child_path (cap_path t) name)]\<rparr>
              else end_task n m)
      | _ \<Rightarrow> m)"

text \<open>One file of an upload settles: the next one is sent, or the upload is over.\<close>

definition on_uploaded ::
    "nat \<Rightarrow> capture \<Rightarrow> upload list \<Rightarrow> nat \<Rightarrow> http_error + bytes \<Rightarrow> file_manager \<Rightarrow> file_manager" where
  "on_uploaded n t fs k reply m =
     (let m1 = (case reply of
                  Inr _ \<Rightarrow> m
                | Inl err \<Rightarrow> notify (Failed_File (up_name (hd fs)) (error_detail err msg_upload_failed)) m);
          k1 = (case reply of Inr _ \<Rightarrow> Suc k | Inl _ \<Rightarrow> k)
      in (case tl fs of
            f # _ \<Rightarrow>
              m1\<lparr>tasks := (tasks m1)(n \<mapsto> Uploading t (tl fs) k1),
                 fm_calls := fm_calls m1 @ [upload_file (cap_server t) (cap_path t) f]\<rparr>
          | [] \<Rightarrow>
              (let m2 = (if 0 < k1 then do_refresh t (notify (Done (msg_uploaded k1)) m1) else m1)
               in end_task n (m2\<lparr>uploading := False\<rparr>))))"

definition on_settled ::
    "nat \<Rightarrow> capture \<Rightarrow> js_string \<Rightarrow> js_string \<Rightarrow> http_error + bytes \<Rightarrow> file_manager \<Rightarrow> file_manager" where
  "on_settled n t done failed reply m =
     end_task n (case reply of
         Inr _ \<Rightarrow> do_refresh t (notify (Done done) m)
       | Inl err \<Rightarrow> notify (Failed (error_detail err failed)) m)"

definition on_reply :: "nat \<Rightarrow> http_error + bytes \<Rightarrow> file_manager \<Rightarrow> file_manager" where
  "on_reply n reply m =
     (case tasks m n of
        Some (Uploading t fs k) \<Rightarrow> on_uploaded n t fs k reply m
      | Some (Downloading name) \<Rightarrow>
          end_task n (case reply of
              Inr b \<Rightarrow> m\<lparr>saved := saved m @ [(name, b)]\<rparr>
            | Inl err \<Rightarrow> notify (Failed (error_detail err msg_download_failed)) m)
      | Some (Deleting t) \<Rightarrow> on_settled n t msg_deleted msg_delete_failed reply m
      | Some (Making t) \<Rightarrow> on_settled n t msg_created msg_create_failed reply m
      | _ \<Rightarrow> m)"

section \<open>Events\<close>

datatype file_event =
    Fm_Props bool int
  | Fm_Leave
  | Fm_Listing nat "http_error + file_entry list option"
  | Type_Path js_string
  | Turn_Page nat
  | Go_Path
  | Go_Root
  | Go_Crumb nat
  | Reload_Path
  | Open_Entry file_entry
  | Upload_Files "upload list"
  | Download_Entry file_entry
  | Delete_Entry file_entry
  | Make_Dir
  | Name_Entered nat "js_string option"
  | Reply nat "http_error + bytes"

fun file_step :: "file_manager \<Rightarrow> file_event \<Rightarrow> file_manager" where
  "file_step m (Fm_Props op sid) = put_dir (set_visible op sid (dir m)) m"
| "file_step m Fm_Leave = put_dir (leave (dir m)) m"
| "file_step m (Fm_Listing i reply) = put_dir (on_listing i reply (dir m)) m"
| "file_step m (Type_Path s) = m\<lparr>path_input := s\<rparr>"
| "file_step m (Turn_Page n) = m\<lparr>page_number := n\<rparr>"
| "file_step m Go_Path = handle_go_path m"
| "file_step m Go_Root = navigate_to root_path m"
| "file_step m (Go_Crumb i) = navigate_to (crumb (path_parts (current_path (dir m))) i) m"
| "file_step m Reload_Path = navigate_to (current_path (dir m)) m"
| "file_step m (Open_Entry f) = handle_navigate f m"
| "file_step m (Upload_Files fs) = handle_upload fs m"
| "file_step m (Download_Entry f) = handle_download f m"
| "file_step m (Delete_Entry f) = handle_delete f m"
| "file_step m Make_Dir = handle_mkdir m"
| "file_step m (Name_Entered n value) = on_name n value m"
| "file_step m (Reply n reply) = on_reply n reply m"

end
