(* ===== verification/File_View.thy ===== *)
theory File_View
  imports File_Manager View
begin

text \<open>
  The dialog of the file manager as it is shown (\<open>components/FileManager.tsx\<close>): the path field and the
  breadcrumbs, the buttons for the directory, and the columns of the table.

  \<open>time\<close> is the browser's \<open>toLocaleString\<close>; \<open>chosen\<close> are the files picked in the file chooser the
  upload button opens. A button of the component library that is loading takes no clicks.
\<close>

section \<open>Columns\<close>

definition lbl_delete :: js_string where "lbl_delete = [0x5220, 0x9664] @ js '' ''"
definition lbl_download :: js_string where "lbl_download = [0x4E0B, 0x8F7D] @ js '' ''"
definition lbl_upload :: js_string where "lbl_upload = [0x4E0A, 0x4F20]"
definition lbl_mkdir :: js_string where "lbl_mkdir = [0x65B0, 0x5EFA, 0x6587, 0x4EF6, 0x5939]"
definition lbl_root :: js_string where "lbl_root = [0x6839, 0x76EE, 0x5F55]"
definition lbl_root_path :: js_string where "lbl_root_path = [0x6839, 0x76EE, 0x5F55, 0x8DEF, 0x5F84]"
definition lbl_path :: js_string where "lbl_path = [0x76EE, 0x5F55, 0x8DEF, 0x5F84]"
definition lbl_reload :: js_string where "lbl_reload = [0x5237, 0x65B0]"
definition lbl_files :: js_string where
  "lbl_files = [0x6587, 0x4EF6, 0x7BA1, 0x7406] @ js '' '' @ [0x00B7] @ js '' ''"

definition format_time :: "(js_string \<Rightarrow> js_string) \<Rightarrow> js_string \<Rightarrow> js_string" where
  "format_time time t = (if t = [] then [] else time t)"

definition name_cell :: "file_manager \<Rightarrow> file_entry \<Rightarrow> file_event control" where
  "name_cell m f = button (fe_name f) (dir_ready (dir m) \<and> fe_is_dir f) (Open_Entry f)"

definition action_cell :: "file_manager \<Rightarrow> file_entry \<Rightarrow> file_event control list" where
  "action_cell m f =
     button (lbl_delete @ fe_name f) (dir_ready (dir m)) (Delete_Entry f) #
     (if fe_is_dir f then []
      else [button (lbl_download @ fe_name f) (dir_ready (dir m)) (Download_Entry f)])"

record file_row =
  row_name :: "file_event control"
  row_size :: js_string
  row_time :: js_string
  row_actions :: "file_event control list"
  row_double_click :: file_event

definition file_row_of :: "(js_string \<Rightarrow> js_string) \<Rightarrow> file_manager \<Rightarrow> file_entry \<Rightarrow> file_row" where
  "file_row_of time m f =
     \<lparr>row_name = name_cell m f, row_size = size_cell f, row_time = format_time time (fe_mod_time f),
      row_actions = action_cell m f, row_double_click = Open_Entry f\<rparr>"

section \<open>The dialog\<close>

definition path_controls :: "file_manager \<Rightarrow> file_event control list" where
  "path_controls m =
     [button lbl_root True Go_Root, button lbl_path True Go_Path, button lbl_reload True Reload_Path,
      button lbl_root_path True Go_Root] @
     (let parts = path_parts (current_path (dir m))
      in map (\<lambda>i. button (parts ! i) True (Go_Crumb i)) [0..<length parts])"

definition directory_controls :: "upload list \<Rightarrow> file_manager \<Rightarrow> file_event control list" where
  "directory_controls chosen m =
     [button lbl_upload (dir_ready (dir m) \<and> \<not> uploading m) (Upload_Files chosen),
      button lbl_mkdir (dir_ready (dir m)) Make_Dir]"

record file_view =
  fv_title :: js_string
  fv_path :: js_string
  fv_controls :: "file_event control list"
  fv_rows :: "file_row list"
  fv_page :: nat
  fv_page_size :: nat
  fv_loading :: bool

definition render_files :: "(js_string \<Rightarrow> js_string) \<Rightarrow> upload list \<Rightarrow> js_string \<Rightarrow> file_manager \<Rightarrow> file_view" where
  "render_files time chosen server_name m =
     \<lparr>fv_title = lbl_files @ server_name, fv_path = path_input m,
      fv_controls = path_controls m @ directory_controls chosen m,
      fv_rows = map (file_row_of time m) (files (dir m)),
      fv_page = page_number m, fv_page_size = 50, fv_loading = loading (dir m)\<rparr>"

definition view_controls :: "file_view \<Rightarrow> file_event control set" where
  "view_controls v = set (fv_controls v) \<union> (\<Union>r \<in> set (fv_rows v). insert (row_name r) (set (row_actions r)))"

section \<open>Guards\<close>

text \<open>An event acts when it starts a task or asks for a listing.\<close>

definition file_acts :: "file_manager \<Rightarrow> file_manager \<Rightarrow> bool" where
  "file_acts m m' \<longleftrightarrow>
     next_task m < next_task m' \<or> length (list_calls (dir m)) < length (list_calls (dir m'))"

definition mounted :: "file_manager \<Rightarrow> bool" where
  "mounted m \<longleftrightarrow>
     rendered_generation (dir m) = dir_generation (dir m) \<and> visible_path (dir m) = current_path (dir m)"

lemma navigate_acts: "file_acts m (navigate_to p m)"
  by (simp add: file_acts_def navigate_to_def put_dir_def load_files_def abort_current_def Let_def
      split: option.split)

lemma target_ready: "mounted m \<Longrightarrow> dir_ready (dir m) \<Longrightarrow> target m = Some (capture (dir m))"
  by (simp add: mounted_def target_def capture_def is_current_def dir_ready_def)

lemma row_guarded:
  assumes "mounted m" "f \<in> set (files (dir m))"
  shows "\<forall>c \<in> insert (name_cell m f) (set (action_cell m f)). guarded file_step file_acts m c"
proof (cases "dir_ready (dir m)")
  case True
  have "list_ex (\<lambda>g. fe_path g = fe_path f) (files (dir m))"
    using assms(2) by (auto simp: list_ex_iff)
  then show ?thesis
    using True target_ready [OF assms(1) True] navigate_acts [of m]
    by (auto simp: name_cell_def action_cell_def handle_navigate_def handle_delete_def handle_download_def
        file_acts_def start_task_def)
qed (auto simp: name_cell_def action_cell_def handle_navigate_def handle_delete_def handle_download_def)

text \<open>
  The buttons of the file manager and the guards of their handlers agree. While no upload is
  running, a control that is enabled always acts, it starts its action or asks for its directory, and
  the event of a disabled one would change nothing; so no click is lost, and none gets past a button that is off.
\<close>

lemma file_buttons_agree_with_guards:
  assumes "mounted m" and "\<not> uploading m" and "chosen \<noteq> []"
    and "c \<in> view_controls (render_files time chosen name m)"
  shows "guarded file_step file_acts m c"
proof -
  consider "c \<in> set (path_controls m)" | "c \<in> set (directory_controls chosen m)"
    | f where "f \<in> set (files (dir m))" "c \<in> insert (name_cell m f) (set (action_cell m f))"
    using assms(4) by (auto simp: view_controls_def render_files_def file_row_of_def)
  then show ?thesis
  proof cases
    case 1
    then show ?thesis
      using navigate_acts by (auto simp: path_controls_def handle_go_path_def Let_def)
  next
    case 2
    then show ?thesis
      using assms(1-3) target_ready [OF assms(1)]
      by (cases chosen) (auto simp: directory_controls_def handle_upload_def handle_mkdir_def
          file_acts_def start_task_def)
  next
    case 3
    then show ?thesis
      using row_guarded [OF assms(1)] by blast
  qed
qed

definition sample_file :: file_entry where
  "sample_file = \<lparr>fe_name = js ''a'', fe_size = 3, fe_mode = [], fe_mod_time = [], fe_is_dir = False, fe_path = js ''/a''\<rparr>"

definition listed_manager :: file_manager where
  "listed_manager = run file_step (init_file_manager True 4) [Fm_Listing 1 (Inr (Some [sample_file]))]"

lemma file_buttons_agree_with_guards_witness:
  "guarded file_step file_acts listed_manager (button (lbl_download @ js ''a'') True (Download_Entry sample_file))"
proof (rule file_buttons_agree_with_guards [of listed_manager "[\<lparr>up_name = [], up_content = []\<rparr>]" _ id "js ''web''"])
  have l: "dir_ready (dir listed_manager)" "files (dir listed_manager) = [sample_file]"
    "mounted listed_manager" "\<not> uploading listed_manager"
    by code_simp+
  then show "mounted listed_manager" "\<not> uploading listed_manager"
    by simp_all
  show "button (lbl_download @ js ''a'') True (Download_Entry sample_file)
      \<in> view_controls (render_files id [\<lparr>up_name = [], up_content = []\<rparr>] (js ''web'') listed_manager)"
    using l by (simp add: view_controls_def render_files_def file_row_of_def action_cell_def)
      (simp add: sample_file_def)
qed simp

end
