(* ===== verification/File_Properties.thy ===== *)
theory File_Properties
  imports File_Manager
begin

text \<open>
  The properties of the file manager: sizes, breadcrumbs and typed paths, and the directory every
  action acts on.
\<close>

section \<open>Sizes\<close>

lemma size_loop_step:
  "size_loop b i = (if 1024 * 1024 ^ i \<le> b \<and> i < 3 then size_loop b (Suc i) else i)"
  by (subst size_loop.simps) (simp add: size_units_def)

lemma size_loop_spec:
  "1024 ^ i \<le> b \<or> i = 0 \<Longrightarrow> i \<le> 3 \<Longrightarrow>
   size_loop b i \<le> 3 \<and> (1024 ^ size_loop b i \<le> b \<or> size_loop b i = 0)
   \<and> (size_loop b i = 3 \<or> b < 1024 ^ Suc (size_loop b i))"
proof (induction b i rule: size_loop.induct)
  case (1 b i)
  show ?case
  proof (cases "1024 * 1024 ^ i \<le> b \<and> i < 3")
    case True
    then have "size_loop b i = size_loop b (Suc i)"
      by (subst size_loop_step) simp
    then show ?thesis
      using True "1.IH" by (simp add: size_units_def)
  next
    case False
    then have "size_loop b i = i"
      by (subst size_loop_step) (rule if_not_P)
    then show ?thesis
      using False "1.prems" by auto
  qed
qed

lemma tenths_close:
  "2 * 1024 ^ i * tenths b i \<le> 20 * b + 1024 ^ i" "20 * b < 2 * 1024 ^ i * tenths b i + 1024 ^ i"
proof -
  let ?d = "2 * 1024 ^ i :: nat"
  have "(20 * b + 1024 ^ i) mod ?d < ?d"
    by simp
  moreover have "?d * tenths b i + (20 * b + 1024 ^ i) mod ?d = 20 * b + 1024 ^ i"
    by (simp add: tenths_def mult_div_mod_eq)
  ultimately show "2 * 1024 ^ i * tenths b i \<le> 20 * b + 1024 ^ i"
    and "20 * b < 2 * 1024 ^ i * tenths b i + 1024 ^ i"
    by linarith+
qed

text \<open>
  A size shown is right to half a tenth of its unit: for a size of \<open>b\<close> bytes the text names
  the largest unit up to GB that \<open>b\<close> reaches, bytes are exact, and in a larger unit the decimal shown
  differs from \<open>b\<close> by at most half a tenth.
\<close>

lemma format_size_is_accurate:
  assumes "0 < b"
  shows "\<exists>i \<le> 3. (1024 ^ i \<le> b \<or> i = 0) \<and> (i = 3 \<or> b < 1024 ^ Suc i)
    \<and> (if i = 0 then format_size b = nat_digits b @ js '' '' @ js ''B''
       else \<exists>t. format_size b = nat_digits (t div 10) @ js ''.'' @ nat_digits (t mod 10)
              @ js '' '' @ [js ''B'', js ''KB'', js ''MB'', js ''GB''] ! i
            \<and> 2 * \<bar>10 * int b - int t * 1024 ^ i\<bar> \<le> 1024 ^ i)"
proof (intro exI [of _ "size_loop b 0"] conjI)
  let ?i = "size_loop b 0"
  note spec = size_loop_spec [of 0 b, simplified]
  show "?i \<le> 3" "1024 ^ ?i \<le> b \<or> ?i = 0" "?i = 3 \<or> b < 1024 ^ Suc ?i"
    using spec by auto
  have "int (2 * 1024 ^ ?i * tenths b ?i) \<le> int (20 * b + 1024 ^ ?i)"
    and "int (20 * b) < int (2 * 1024 ^ ?i * tenths b ?i + 1024 ^ ?i)"
    using tenths_close(1) [of ?i b] tenths_close(2) [of b ?i] by (simp_all only: of_nat_le_iff of_nat_less_iff)
  then have c: "2 * \<bar>10 * int b - int (tenths b ?i) * 1024 ^ ?i\<bar> \<le> 1024 ^ ?i"
    by (auto simp: abs_if mult.commute mult.left_commute)
  show "if ?i = 0 then format_size b = nat_digits b @ js '' '' @ js ''B''
       else \<exists>t. format_size b = nat_digits (t div 10) @ js ''.'' @ nat_digits (t mod 10)
              @ js '' '' @ [js ''B'', js ''KB'', js ''MB'', js ''GB''] ! ?i
            \<and> 2 * \<bar>10 * int b - int t * 1024 ^ ?i\<bar> \<le> 1024 ^ ?i"
    using assms c by (auto simp: format_size_def Let_def size_units_def intro!: exI [of _ "tenths b ?i"])
qed

lemma format_size_is_accurate_witness:
  "\<exists>i \<le> 3. 1024 ^ i \<le> (1536 :: nat) \<or> i = 0"
  using format_size_is_accurate [of 1536] by auto

section \<open>Paths\<close>

lemma path_parts_plain: "part \<in> set (path_parts p) \<Longrightarrow> part \<noteq> [] \<and> slash \<notin> set part"
  using js_split_pieces by (auto simp: path_parts_def truthy_def)

lemma path_parts_join:
  assumes "\<forall>part \<in> set ps. part \<noteq> [] \<and> slash \<notin> set part"
  shows "path_parts (slash # js_join [slash] ps) = ps"
proof (cases "ps = []")
  case True
  then show ?thesis
    by (simp add: path_parts_def truthy_def)
next
  case False
  then have "js_split slash (js_join [slash] ps) = ps"
    using assms by (intro js_split_join) auto
  then show ?thesis
    using assms by (auto simp: path_parts_def truthy_def intro: filter_True)
qed

text \<open>
  Breadcrumbs lead where they say: the crumb at position \<open>i\<close> of the displayed path is an
  absolute path with exactly the first \<open>i + 1\<close> parts of it, so following it shows those crumbs again;
  and for a path in normal form, absolute and without empty parts, the last crumb is the path itself.
\<close>

lemma breadcrumbs_lead_back:
  "path_parts (crumb (path_parts p) i) = take (i + 1) (path_parts p)
   \<and> starts_with (crumb (path_parts p) i) [slash]
   \<and> (let canonical = slash # js_join [slash] (path_parts p)
      in crumb (path_parts canonical) (length (path_parts canonical) - 1) = canonical)"
proof -
  have plain: "\<forall>part \<in> set (take n (path_parts p)). part \<noteq> [] \<and> slash \<notin> set part" for n
    using path_parts_plain by (meson in_set_takeD)
  have "path_parts (slash # js_join [slash] (path_parts p)) = path_parts p"
    using path_parts_plain by (intro path_parts_join) blast
  then show ?thesis
    using path_parts_join [OF plain] by (simp add: crumb_def starts_with_def Let_def)
qed

text \<open>
  Whatever is typed into the path field, the directory asked for is an absolute path without
  surrounding white space at its end, an absolute path typed without white space around it is taken
  literally, and entering the path that results changes nothing more.
\<close>

lemma typed_paths_are_absolute:
  "starts_with (entered_path s) [slash]
   \<and> (starts_with s [slash] \<and> js_trim s = s \<longrightarrow> entered_path s = s)
   \<and> list_calls (dir (file_step (file_step m (Type_Path s)) Go_Path))
     = list_calls (dir m) @ [list_files (visible_server (dir m)) (entered_path s)]"
proof -
  have "list_calls (dir (navigate_to p n)) = list_calls (dir n) @ [list_files (visible_server (dir n)) p]" for p n
    by (simp add: navigate_to_def put_dir_def load_files_def Let_def)
  then show ?thesis
    by (simp add: entered_path_def starts_with_def Let_def handle_go_path_def)
qed

lemma typed_paths_are_absolute_witness:
  "entered_path (js ''/var/log'') = js ''/var/log''"
proof -
  have "starts_with (js ''/var/log'') [slash]" "js_trim (js ''/var/log'') = js ''/var/log''"
    by code_simp+
  then show ?thesis
    using typed_paths_are_absolute [of "js ''/var/log''" "init_file_manager True 1"] by blast
qed

section \<open>Actions\<close>

lemma put_dir_fields [simp]:
  "dir (put_dir d m) = d" "fm_calls (put_dir d m) = fm_calls m" "tasks (put_dir d m) = tasks m"
  "notices (put_dir d m) = notices m" "uploading (put_dir d m) = uploading m"
  "next_task (put_dir d m) = next_task m" "saved (put_dir d m) = saved m"
  by (simp_all add: put_dir_def)

lemma small_ops [simp]:
  "dir (notify x m) = dir m" "fm_calls (notify x m) = fm_calls m" "tasks (notify x m) = tasks m"
  "dir (end_task n m) = dir m" "fm_calls (end_task n m) = fm_calls m"
  "tasks (end_task n m) = (tasks m)(n := None)" "notices (notify x m) = notices m @ [x]"
  "notices (end_task n m) = notices m"
  "fm_calls (do_refresh t m) = fm_calls m" "tasks (do_refresh t m) = tasks m"
  "notices (do_refresh t m) = notices m" "dir (do_refresh t m) = refresh t (dir m)"
  "fm_calls (navigate_to p m) = fm_calls m"
  by (simp_all add: notify_def end_task_def do_refresh_def navigate_to_def)

lemma target_is_displayed:
  "target m = Some t \<Longrightarrow> cap_server t = visible_server (dir m) \<and> cap_path t = current_path (dir m)"
  by (auto simp: target_def capture_def Let_def split: if_splits)

text \<open>The requests an action may send from a state.\<close>

inductive proper_call :: "file_manager \<Rightarrow> request \<Rightarrow> bool" for m where
  first_upload: "dir_ready (dir m) \<Longrightarrow>
    proper_call m (upload_file (visible_server (dir m)) (current_path (dir m)) f)"
| next_upload: "tasks m n = Some (Uploading t (f # g # fs) k) \<Longrightarrow>
    proper_call m (upload_file (cap_server t) (cap_path t) g)"
| download: "dir_ready (dir m) \<Longrightarrow> proper_call m (download_file (visible_server (dir m)) p)"
| deletion: "dir_ready (dir m) \<Longrightarrow> f \<in> set (files (dir m)) \<Longrightarrow>
    proper_call m (delete_file (visible_server (dir m)) (fe_path f))"
| new_folder: "tasks m n = Some (Naming t) \<Longrightarrow> is_current t (dir m) \<Longrightarrow> name \<noteq> [] \<Longrightarrow>
    proper_call m (create_dir (visible_server (dir m)) (child_path (visible_path (dir m)) name))"

inductive_cases proper_callE: "proper_call m c"

lemma proper_upload:
  "target m = Some t \<Longrightarrow> dir_ready (dir m) \<Longrightarrow> proper_call m (upload_file (cap_server t) (cap_path t) f)"
  using target_is_displayed [of m t] first_upload [of m f] by simp

lemma proper_folder:
  "tasks m n = Some (Naming t) \<Longrightarrow> is_current t (dir m) \<Longrightarrow> truthy name \<Longrightarrow>
   proper_call m (create_dir (cap_server t) (child_path (cap_path t) name))"
  using new_folder [of m n t name] by (simp add: is_current_def truthy_def)

lemma proper_deletion:
  "dir_ready (dir m) \<Longrightarrow> list_ex (\<lambda>g. fe_path g = fe_path f) (files (dir m)) \<Longrightarrow>
   proper_call m (delete_file (visible_server (dir m)) (fe_path f))"
  using deletion [of m] by (auto simp: list_ex_iff) metis

lemma on_uploaded_calls:
  "tasks m n = Some (Uploading t fs k) \<Longrightarrow>
   fm_calls (on_uploaded n t fs k reply m) = fm_calls m \<or>
   (\<exists>c. fm_calls (on_uploaded n t fs k reply m) = fm_calls m @ [c] \<and> proper_call m c)"
  using next_upload [of m n t "hd fs" "hd (tl fs)" "tl (tl fs)" k]
  by (cases fs; cases "tl fs") (auto simp: on_uploaded_def Let_def split: sum.split)

lemma file_step_calls:
  "fm_calls (file_step m e) = fm_calls m \<or> (\<exists>c. fm_calls (file_step m e) = fm_calls m @ [c] \<and> proper_call m c)"
proof (cases e)
  case (Reply n reply)
  then show ?thesis
    using on_uploaded_calls [of m n _ _ _ reply]
    by (auto simp: on_reply_def on_settled_def split: option.split task.split sum.split)
qed (auto simp: handle_go_path_def handle_navigate_def handle_mkdir_def start_task_def on_name_def
    handle_upload_def handle_download_def handle_delete_def Let_def
    intro: proper_upload proper_folder proper_deletion download
    split: option.split list.split task.split)



text \<open>
  A result that arrives late leaves the view alone: when the upload, deletion or folder it
  belongs to was started in a directory that is no longer on display, the reply changes neither the
  listing, nor the path field, nor the page, and asks for no new listing.
\<close>

lemma late_results_leave_the_view:
  assumes "case tasks m n of
        Some (Uploading t _ _) \<Rightarrow> \<not> is_current t (dir m)
      | Some (Deleting t) \<Rightarrow> \<not> is_current t (dir m)
      | Some (Making t) \<Rightarrow> \<not> is_current t (dir m)
      | _ \<Rightarrow> True"
  shows "dir (file_step m (Reply n reply)) = dir m
    \<and> path_input (file_step m (Reply n reply)) = path_input m
    \<and> page_number (file_step m (Reply n reply)) = page_number m"
  using assms
  by (auto simp: on_reply_def on_settled_def on_uploaded_def do_refresh_def refresh_def put_dir_def
      end_task_def notify_def Let_def split: option.splits task.splits sum.split list.split)

lemma late_results_leave_the_view_witness:
  "let m = (init_file_manager True 1)\<lparr>tasks := [0 \<mapsto> Deleting \<lparr>cap_server = 1, cap_path = root_path, cap_generation = 0\<rparr>]\<rparr>
   in dir (file_step m (Reply 0 (Inr []))) = dir m"
  unfolding Let_def
  by (rule conjunct1 [OF late_results_leave_the_view])
    (simp add: init_file_manager_def init_directory_def load_files_def abort_current_def is_current_def Let_def)

text \<open>What the replies to the files of an upload tell the user.\<close>

definition upload_failures :: "upload list \<Rightarrow> (http_error + bytes) list \<Rightarrow> notice list" where
  "upload_failures fs rs =
     concat (map2 (\<lambda>f r. case r of
         Inl err \<Rightarrow> [Failed_File (up_name f) (error_detail err msg_upload_failed)] | Inr _ \<Rightarrow> []) fs rs)"

definition upload_summary :: "nat \<Rightarrow> notice list" where
  "upload_summary k = (if 0 < k then [Done (msg_uploaded k)] else [])"

lemma on_uploaded_last:
  "tl fs = [] \<Longrightarrow>
   (let m' = on_uploaded n t fs k r m; k' = (if isl r then k else Suc k)
    in fm_calls m' = fm_calls m \<and> tasks m' n = None \<and> \<not> uploading m' \<and>
       notices m' = notices m @ upload_failures [hd fs] [r] @ upload_summary k')"
  by (cases r) (simp_all add: on_uploaded_def upload_failures_def upload_summary_def end_task_def
      do_refresh_def notify_def Let_def)

lemma on_uploaded_next:
  "tl fs = g # gs \<Longrightarrow>
   (let m' = on_uploaded n t fs k r m; k' = (if isl r then k else Suc k)
    in fm_calls m' = fm_calls m @ [upload_file (cap_server t) (cap_path t) g] \<and>
       tasks m' n = Some (Uploading t (g # gs) k') \<and>
       notices m' = notices m @ upload_failures [hd fs] [r])"
  by (cases r) (simp_all add: on_uploaded_def upload_failures_def notify_def Let_def)

lemma upload_run:
  "tasks m n = Some (Uploading t fs k) \<Longrightarrow> fs \<noteq> [] \<Longrightarrow> length rs = length fs \<Longrightarrow>
   m' = run file_step m (map (Reply n) rs) \<Longrightarrow>
   fm_calls m' = fm_calls m @ map (upload_file (cap_server t) (cap_path t)) (tl fs) \<and>
   tasks m' n = None \<and> \<not> uploading m' \<and>
   notices m' = notices m @ upload_failures fs rs @ upload_summary (k + length (filter (\<lambda>r. \<not> isl r) rs))"
proof (induction fs arbitrary: m k rs)
  case (Cons f fs)
  obtain r rs' where r: "rs = r # rs'" "length rs' = length fs"
    using Cons.prems(3) by (cases rs) auto
  let ?k = "if isl r then k else Suc k"
  let ?m = "on_uploaded n t (f # fs) k r m"
  have step: "m' = run file_step ?m (map (Reply n) rs')"
    using Cons.prems(1,4) r by (simp add: on_reply_def)
  have f: "upload_failures (f # fs) rs = upload_failures [f] [r] @ upload_failures fs rs'"
    by (simp add: upload_failures_def r)
  show ?case
  proof (cases fs)
    case Nil
    then show ?thesis
      using on_uploaded_last [of "f # fs" n t k r m] step r f by (auto simp: Let_def upload_failures_def)
  next
    case (Cons g gs)
    then show ?thesis
      using on_uploaded_next [of "f # fs" g gs n t k r m] step r f
        Cons.IH [of ?m ?k rs'] by (auto simp: Let_def)
  qed
qed simp

text \<open>
  An upload is complete and honest: every chosen file is sent once, in order, to the directory
  that was on display when the upload began; one failing file stops no other; each failure is reported
  with its file's name, and at the end the number reported as uploaded is the number of files the server
  accepted.
\<close>

lemma upload_sends_every_file_once:
  assumes "dir_ready (dir m)" and "is_current (capture (dir m)) (dir m)" and "fs \<noteq> []"
    and "length replies = length fs"
    and "m' = run file_step m (Upload_Files fs # map (Reply (next_task m)) replies)"
  shows "fm_calls m' = fm_calls m @ map (upload_file (visible_server (dir m)) (current_path (dir m))) fs
    \<and> tasks m' (next_task m) = None \<and> \<not> uploading m'
    \<and> notices m' = notices m @ upload_failures fs replies
        @ upload_summary (length (filter (\<lambda>r. \<not> isl r) replies))"
proof -
  let ?t = "capture (dir m)"
  obtain f gs where fs: "fs = f # gs"
    using assms(3) by (cases fs) auto
  let ?m = "handle_upload fs m"
  have m: "?m = start_task (Uploading ?t fs 0) [upload_file (cap_server ?t) (cap_path ?t) f] (m\<lparr>uploading := True\<rparr>)"
    using assms(1,2) fs by (simp add: handle_upload_def target_def Let_def)
  then have "tasks ?m (next_task m) = Some (Uploading ?t fs 0)"
    by (simp add: start_task_def)
  from upload_run [OF this assms(3,4), of m'] show ?thesis
    using assms(5) m fs by (simp add: start_task_def capture_def)
qed


lemma upload_sends_every_file_once_witness:
  "notices (run file_step (file_step (init_file_manager True 1) (Fm_Listing 1 (Inr None)))
      [Upload_Files [\<lparr>up_name = js ''a'', up_content = []\<rparr>, \<lparr>up_name = js ''b'', up_content = []\<rparr>],
       Reply 0 (Inl \<lparr>response = None\<rparr>), Reply 0 (Inr [])])
   = [Failed_File (js ''a'') (JStr msg_upload_failed), Done (msg_uploaded 1)]"
proof -
  let ?m = "file_step (init_file_manager True 1) (Fm_Listing 1 (Inr None))"
  let ?fs = "[\<lparr>up_name = js ''a'', up_content = []\<rparr>, \<lparr>up_name = js ''b'', up_content = []\<rparr>]"
  let ?rs = "[Inl \<lparr>response = None\<rparr>, Inr []] :: (http_error + bytes) list"
  have m: "dir_ready (dir ?m)" "is_current (capture (dir ?m)) (dir ?m)" "next_task ?m = 0" "notices ?m = []"
    by (simp_all add: init_file_manager_def init_directory_def load_files_def abort_current_def
        on_listing_def request_current_def capture_def is_current_def dir_ready_def Let_def)
  show ?thesis
    using upload_sends_every_file_once [OF m(1,2), of ?fs ?rs, OF _ _ refl] m(3,4)
    by (simp add: upload_failures_def upload_summary_def error_detail_def del: file_step.simps)
qed


end
