(* ===== verification/File_Tasks.thy ===== *)
theory File_Tasks
  imports File_Properties
begin

text \<open>
  Every action of the file manager ends: a started action takes a number of answers that is known when it
  starts, one for each file of an upload, and nothing but an answer of its own can keep it waiting.
\<close>

section \<open>What is left of a task\<close>

fun task_size :: "task \<Rightarrow> nat" where
  "task_size (Uploading t fs k) = length fs"
| "task_size (Downloading name) = 1"
| "task_size (Deleting t) = 1"
| "task_size (Naming t) = 2"
| "task_size (Making t) = 1"

definition remaining :: "file_manager \<Rightarrow> nat \<Rightarrow> nat" where
  "remaining m n = (case tasks m n of None \<Rightarrow> 0 | Some k \<Rightarrow> task_size k)"

text \<open>The answer a task waits for: the name of a new directory, else the reply to its request.\<close>

definition answers :: "file_manager \<Rightarrow> nat \<Rightarrow> file_event \<Rightarrow> bool" where
  "answers m n e \<longleftrightarrow>
     (case tasks m n of
        None \<Rightarrow> False
      | Some (Naming t) \<Rightarrow> (case e of Name_Entered i v \<Rightarrow> i = n | _ \<Rightarrow> False)
      | Some k \<Rightarrow> (case e of Reply i r \<Rightarrow> i = n | _ \<Rightarrow> False))"

fun answers_given :: "file_manager \<Rightarrow> nat \<Rightarrow> file_event list \<Rightarrow> nat" where
  "answers_given m n [] = 0"
| "answers_given m n (e # es) = (if answers m n e then 1 else 0) + answers_given (file_step m e) n es"

definition tasks_inv :: "file_manager \<Rightarrow> bool" where
  "tasks_inv m \<longleftrightarrow> (\<forall>n k. tasks m n = Some k \<longrightarrow> n < next_task m \<and> 0 < task_size k)"

lemma put_dir_tasks [simp]: "tasks (put_dir d m) = tasks m" "next_task (put_dir d m) = next_task m"
  by (simp_all add: put_dir_def)

lemma navigate_tasks [simp]: "tasks (navigate_to p m) = tasks m" "next_task (navigate_to p m) = next_task m"
  by (simp_all add: navigate_to_def)

lemma tasks_moves:
  "tasks (notify x m) = tasks m" "next_task (notify x m) = next_task m"
  "tasks (do_refresh t m) = tasks m" "next_task (do_refresh t m) = next_task m"
  "tasks (end_task n m) = (tasks m)(n := None)" "next_task (end_task n m) = next_task m"
  "tasks (start_task k rs m) = (tasks m)(next_task m \<mapsto> k)" "next_task (start_task k rs m) = Suc (next_task m)"
  by (simp_all add: notify_def do_refresh_def end_task_def start_task_def)

text \<open>A step leaves a task alone, starts a new one, or shrinks the one it answers.\<close>

definition task_move :: "file_manager \<Rightarrow> file_event \<Rightarrow> file_manager \<Rightarrow> bool" where
  "task_move m e m' \<longleftrightarrow>
     tasks m' = tasks m \<and> next_task m' = next_task m \<and> (\<forall>n. \<not> answers m n e) \<or>
     (\<exists>k. tasks m' = (tasks m)(next_task m \<mapsto> k) \<and> next_task m' = Suc (next_task m) \<and> 0 < task_size k \<and>
        (\<forall>n. \<not> answers m n e)) \<or>
     (\<exists>n k. tasks m n = Some k \<and> next_task m' = next_task m \<and> (\<forall>i. answers m i e = (i = n)) \<and>
        (tasks m' = (tasks m)(n := None) \<or>
         (\<exists>k'. tasks m' = (tasks m)(n \<mapsto> k') \<and> task_size k' < task_size k \<and> 0 < task_size k')))"

lemma quiet_move:
  "tasks m' = tasks m \<Longrightarrow> next_task m' = next_task m \<Longrightarrow> (\<And>n. \<not> answers m n e) \<Longrightarrow> task_move m e m'"
  by (simp add: task_move_def)

lemma start_move:
  "tasks m' = (tasks m)(next_task m \<mapsto> k) \<Longrightarrow> next_task m' = Suc (next_task m) \<Longrightarrow> 0 < task_size k \<Longrightarrow>
   (\<And>n. \<not> answers m n e) \<Longrightarrow> task_move m e m'"
  by (auto simp: task_move_def)

lemma answers_other:
  "\<forall>i r. e \<noteq> Reply i r \<Longrightarrow> \<forall>i v. e \<noteq> Name_Entered i v \<Longrightarrow> \<not> answers m n e"
  by (cases e) (auto simp: answers_def split: option.splits task.splits)

definition shrinks :: "file_manager \<Rightarrow> nat \<Rightarrow> nat \<Rightarrow> file_manager \<Rightarrow> bool" where
  "shrinks m n i m' \<longleftrightarrow>
     next_task m' = next_task m \<and>
     (tasks m' = (tasks m)(n := None) \<or>
      (\<exists>k. tasks m' = (tasks m)(n \<mapsto> k) \<and> task_size k < i \<and> 0 < task_size k))"

lemma upload_shrinks:
  assumes "fs \<noteq> []"
  shows "shrinks m n (length fs) (on_uploaded n t fs k reply m)"
proof (cases "tl fs")
  case Nil
  then show ?thesis
    by (cases reply) (auto simp: shrinks_def on_uploaded_def tasks_moves Let_def)
next
  case (Cons f gs)
  then have "length (f # gs) < length fs"
    using assms by (cases fs) auto
  then show ?thesis
    unfolding shrinks_def using Cons
    by (cases reply)
      (simp_all add: on_uploaded_def tasks_moves Let_def,
       (rule disjI2, rule exI [of _ "Uploading t (f # gs) k"], simp),
       (rule disjI2, rule exI [of _ "Uploading t (f # gs) (Suc k)"], simp))
qed

lemma reply_move:
  assumes "tasks_inv m"
  shows "task_move m (Reply n reply) (on_reply n reply m)"
proof (cases "tasks m n")
  case None
  then show ?thesis
    by (intro quiet_move) (auto simp: on_reply_def answers_def split: option.splits task.splits)
next
  case (Some k)
  show ?thesis
  proof (cases "\<exists>t. k = Naming t")
    case True
    then show ?thesis
      using Some by (intro quiet_move) (auto simp: on_reply_def answers_def split: option.splits task.splits)
  next
    case False
    then have a: "\<forall>i. answers m i (Reply n reply) = (i = n)"
      using Some by (auto simp: answers_def split: option.splits task.splits)
    have "0 < task_size k"
      using assms Some by (simp add: tasks_inv_def)
    then have "shrinks m n (task_size k) (on_reply n reply m)"
      using Some False upload_shrinks
      by (cases k) (auto simp: on_reply_def on_settled_def shrinks_def tasks_moves split: sum.split)
    then show ?thesis
      using Some a unfolding task_move_def shrinks_def by blast
  qed
qed

lemma name_move: "task_move m (Name_Entered n v) (on_name n v m)"
proof (cases "\<exists>t. tasks m n = Some (Naming t)")
  case True
  then obtain t where t: "tasks m n = Some (Naming t)"
    by blast
  then have a: "\<forall>i. answers m i (Name_Entered n v) = (i = n)"
    by (auto simp: answers_def split: option.splits task.splits)
  have "next_task (on_name n v m) = next_task m \<and>
      (tasks (on_name n v m) = (tasks m)(n := None) \<or>
       (\<exists>k'. tasks (on_name n v m) = (tasks m)(n \<mapsto> k') \<and> task_size k' < task_size (Naming t) \<and> 0 < task_size k'))"
    using t by (auto simp: on_name_def tasks_moves Let_def)
  then show ?thesis
    using t a unfolding task_move_def by blast
next
  case False
  then show ?thesis
    by (intro quiet_move) (auto simp: on_name_def answers_def split: option.splits task.splits)
qed

lemma file_step_move:
  assumes "tasks_inv m"
  shows "task_move m e (file_step m e)"
proof (cases "(\<exists>i r. e = Reply i r) \<or> (\<exists>i v. e = Name_Entered i v)")
  case True
  then show ?thesis
    using reply_move [OF assms] name_move by auto
next
  case False
  then have n: "\<not> answers m i e" for i
    using answers_other by blast
  have "tasks (file_step m e) = tasks m \<and> next_task (file_step m e) = next_task m \<or>
      (\<exists>k. tasks (file_step m e) = (tasks m)(next_task m \<mapsto> k) \<and> next_task (file_step m e) = Suc (next_task m)
         \<and> 0 < task_size k)"
    using False
    by (cases e) (auto simp: handle_navigate_def handle_go_path_def handle_upload_def handle_download_def
        handle_delete_def handle_mkdir_def tasks_moves split: option.split list.split)
  then show ?thesis
    using n quiet_move start_move by blast
qed

lemma task_move_cases:
  assumes "task_move m e m'"
  obtains (kept) "tasks m' = tasks m" "next_task m' = next_task m" "\<And>n. \<not> answers m n e"
  | (started) k where "tasks m' = (tasks m)(next_task m \<mapsto> k)" "next_task m' = Suc (next_task m)" "0 < task_size k"
      "\<And>n. \<not> answers m n e"
  | (answered) n k where "tasks m n = Some k" "shrinks m n (task_size k) m'" "\<And>i. answers m i e = (i = n)"
  using assms unfolding task_move_def shrinks_def by blast

lemma tasks_step_inv:
  assumes "tasks_inv m"
  shows "tasks_inv (file_step m e)"
  using file_step_move [OF assms, of e]
proof (cases rule: task_move_cases)
  case kept
  then show ?thesis
    using assms by (simp add: tasks_inv_def)
next
  case (started k)
  then show ?thesis
    using assms by (simp add: tasks_inv_def less_Suc_eq)
next
  case (answered n k)
  then have "n < next_task m"
    using assms by (simp add: tasks_inv_def)
  then show ?thesis
    using assms answered(2) unfolding shrinks_def tasks_inv_def by (elim conjE disjE exE) simp_all
qed

interpretation tasks: machine file_step tasks_inv
  by unfold_locales (rule tasks_step_inv)

lemma remaining_step:
  assumes "tasks_inv m" "n < next_task m"
  shows "(if answers m n e then 1 else 0) + remaining (file_step m e) n \<le> remaining m n
    \<and> next_task m \<le> next_task (file_step m e)"
  using file_step_move [OF assms(1), of e]
proof (cases rule: task_move_cases)
  case kept
  then show ?thesis
    by (simp add: remaining_def)
next
  case (started k)
  then show ?thesis
    using assms(2) by (simp add: remaining_def)
next
  case (answered i k)
  then have "0 < task_size k"
    using assms(1) by (simp add: tasks_inv_def)
  then show ?thesis
    using answered unfolding shrinks_def
    by (cases "n = i") (elim conjE disjE exE; simp add: remaining_def)+
qed

lemma remaining_run:
  "tasks_inv m \<Longrightarrow> n < next_task m \<Longrightarrow> answers_given m n es + remaining (run file_step m es) n \<le> remaining m n"
proof (induction es arbitrary: m)
  case (Cons e es)
  have "answers_given (file_step m e) n es + remaining (run file_step (file_step m e) es) n \<le> remaining (file_step m e) n"
    using Cons.IH [OF tasks_step_inv [OF Cons.prems(1)]] remaining_step [OF Cons.prems, of e] Cons.prems(2)
    by simp
  then show ?case
    using remaining_step [OF Cons.prems, of e] by simp
qed simp

lemma ended_iff: "tasks_inv m \<Longrightarrow> remaining m n = 0 \<longleftrightarrow> tasks m n = None"
  by (auto simp: remaining_def tasks_inv_def split: option.splits)

text \<open>
  Claim C30. Every action ends. Whatever else happens meanwhile, a pending upload, download, deletion or new
  directory takes at most as many answers as it had left, an upload one for each file, and once
  it got that many, failures and cancellations included, it is over and waits for nothing more.
\<close>

theorem every_action_ends:
  assumes "m = run file_step (init_file_manager op sid) es" and "tasks m n = Some k"
  shows "answers_given m n later \<le> task_size k
    \<and> (answers_given m n later = task_size k \<longrightarrow> tasks (run file_step m later) n = None)"
proof -
  have "tasks_inv (init_file_manager op sid)"
    by (simp add: tasks_inv_def init_file_manager_def)
  then have inv: "tasks_inv m"
    using tasks.run_inv assms(1) by blast
  then have "n < next_task m" "remaining m n = task_size k"
    using assms(2) by (simp_all add: tasks_inv_def remaining_def)
  then have r: "answers_given m n later + remaining (run file_step m later) n \<le> task_size k"
    using remaining_run [OF inv] by metis
  have "tasks_inv (run file_step m later)"
    using tasks.run_inv [OF inv] .
  then have "remaining (run file_step m later) n = 0 \<longleftrightarrow> tasks (run file_step m later) n = None"
    by (rule ended_iff)
  then show ?thesis
    using r by (intro conjI impI) simp_all
qed

text \<open>Two files are uploaded; one reply fails, and the user closes the dialog in between.\<close>

definition two_files :: "upload list" where
  "two_files = [\<lparr>up_name = js ''a'', up_content = []\<rparr>, \<lparr>up_name = js ''b'', up_content = []\<rparr>]"

definition uploading_two :: file_manager where
  "uploading_two = run file_step (init_file_manager True 4) [Fm_Listing 1 (Inr None), Upload_Files two_files]"

theorem every_action_ends_witness:
  "tasks (run file_step uploading_two [Reply 0 (Inl \<lparr>response = None\<rparr>), Fm_Props False 4, Reply 0 (Inr [])]) 0 = None"
proof -
  let ?later = "[Reply 0 (Inl \<lparr>response = None\<rparr>), Fm_Props False 4, Reply 0 (Inr [])]"
  obtain t where t: "tasks uploading_two 0 = Some (Uploading t two_files 0)"
    by (simp add: uploading_two_def two_files_def init_file_manager_def init_directory_def load_files_def abort_current_def
        on_listing_def request_current_def put_dir_def handle_upload_def dir_ready_def target_def capture_def
        is_current_def start_task_def Let_def)
  then have "answers_given uploading_two 0 ?later = 2"
    by (simp add: two_files_def answers_def on_reply_def on_uploaded_def tasks_moves Let_def)
  then show ?thesis
    using every_action_ends [OF uploading_two_def t, of ?later] by (simp add: two_files_def)
qed

end
