(* ===== verification/Workspace.thy ===== *)
theory Workspace
  imports Complex_Main Auth Terminal_Connection
begin

text \<open>
  The workspace: the open tabs of the main page (\<open>pages/MainPage.tsx\<close>), and the tab bar with its
  keyboard, connection states and font size (\<open>components/TerminalTabs.tsx\<close>).

  Closing a tab sets the active key twice, in the tab bar and inside the updater the main page gives to
  React. React runs such an updater either at once or while it renders, so \<open>Close\<close> carries which of
  the two happened.
\<close>

section \<open>State\<close>

record tab_info =
  tab_key :: js_string
  tab_server :: server

record workspace =
  tabs :: "tab_info list"
  active_key :: js_string
  drawer_open :: bool
  statuses :: "(js_string \<times> connection_status) list"
  callbacks :: "js_string list"
  tab_font :: rat
  stored_font :: "rat option"

definition min_size :: rat where "min_size = 10"
definition max_size :: rat where "max_size = 28"

text \<open>The initial font size, given the number \<open>localStorage\<close> holds (0 when it holds none).\<close>

definition initial_font :: "rat \<Rightarrow> rat" where
  "initial_font number = (if min_size \<le> number \<and> number \<le> max_size then number else 14)"

definition init_workspace :: "rat \<Rightarrow> workspace" where
  "init_workspace number =
     \<lparr>tabs = [], active_key = [], drawer_open = False, statuses = [], callbacks = [],
      tab_font = initial_font number, stored_font = None\<rparr>"

section \<open>Tabs of the main page\<close>

definition new_key :: "server \<Rightarrow> nat \<Rightarrow> js_string" where
  "new_key s now = int_digits (sv_id s) @ js ''-'' @ nat_digits now"

text \<open>A changed list of tabs: the effect drops what belongs to tabs that are gone.\<close>

definition prune :: "workspace \<Rightarrow> workspace" where
  "prune w =
     w\<lparr>callbacks := filter (\<lambda>k. k \<in> set (map tab_key (tabs w))) (callbacks w),
       statuses := filter (\<lambda>(k, _). k \<in> set (map tab_key (tabs w))) (statuses w)\<rparr>"

text \<open>Rendering the tabs asks for the status callback of each.\<close>

definition ask_callbacks :: "workspace \<Rightarrow> workspace" where
  "ask_callbacks w =
     w\<lparr>callbacks := callbacks w @ filter (\<lambda>k. k \<notin> set (callbacks w)) (map tab_key (tabs w))\<rparr>"

definition open_terminal :: "nat \<Rightarrow> server \<Rightarrow> workspace \<Rightarrow> workspace" where
  "open_terminal now s w =
     (let key = new_key s now; w1 = w\<lparr>drawer_open := False\<rparr>
      in (case find (\<lambda>t. sv_id (tab_server t) = sv_id s) (tabs w) of
            Some t \<Rightarrow> w1\<lparr>active_key := tab_key t\<rparr>
          | None \<Rightarrow>
              prune (ask_callbacks
                (w1\<lparr>active_key := key, tabs := tabs w @ [\<lparr>tab_key = key, tab_server = s\<rparr>]\<rparr>))))"

text \<open>
  The key the updater of \<open>closeTerminal\<close> makes active, if any; \<open>act\<close> is the active key of the render
  the closure belongs to.
\<close>

definition closed_active :: "js_string \<Rightarrow> js_string \<Rightarrow> tab_info list \<Rightarrow> js_string option" where
  "closed_active act key rest =
     (if act = key \<and> rest \<noteq> [] then Some (tab_key (last rest))
      else if rest = [] then Some []
      else None)"

definition neighbour :: "nat \<Rightarrow> tab_info list \<Rightarrow> tab_info option" where
  "neighbour i ts =
     (if i + 1 < length ts then Some (ts ! (i + 1))
      else if 1 \<le> i \<and> i - 1 < length ts then Some (ts ! (i - 1))
      else None)"

definition override :: "js_string option \<Rightarrow> js_string \<Rightarrow> js_string" where
  "override new old = (case new of Some k \<Rightarrow> k | None \<Rightarrow> old)"

text \<open>\<open>closeTab\<close> of the tab bar for the tab at position \<open>i\<close>.\<close>

definition close_tab :: "bool \<Rightarrow> nat \<Rightarrow> workspace \<Rightarrow> workspace" where
  "close_tab at_once i w =
     (if length (tabs w) \<le> i then w
      else
        (let key = tab_key (tabs w ! i);
             rest = filter (\<lambda>t. tab_key t \<noteq> key) (tabs w);
             focused = map_option tab_key (neighbour i (tabs w));
             closed = closed_active (active_key w) key rest
         in prune (w\<lparr>tabs := rest,
                     active_key := (if at_once then override focused (override closed (active_key w))
                                    else override closed (override focused (active_key w)))\<rparr>)))"

definition select_tab :: "nat \<Rightarrow> workspace \<Rightarrow> workspace" where
  "select_tab i w = (if i < length (tabs w) then w\<lparr>active_key := tab_key (tabs w ! i)\<rparr> else w)"

section \<open>Keyboard\<close>

datatype tab_bar_key = Arrow_Right | Arrow_Left | Home_Key | End_Key | Delete_Key | Other_Key

definition key_target :: "tab_bar_key \<Rightarrow> nat \<Rightarrow> nat \<Rightarrow> nat option" where
  "key_target k i n =
     (case k of
        Arrow_Right \<Rightarrow> Some ((i + 1) mod n)
      | Arrow_Left \<Rightarrow> Some ((i + n - 1) mod n)
      | Home_Key \<Rightarrow> Some 0
      | End_Key \<Rightarrow> Some (n - 1)
      | _ \<Rightarrow> None)"

definition on_tab_key :: "bool \<Rightarrow> nat \<Rightarrow> tab_bar_key \<Rightarrow> workspace \<Rightarrow> workspace" where
  "on_tab_key at_once i k w =
     (if length (tabs w) \<le> i then w
      else if k = Delete_Key then close_tab at_once i w
      else (case key_target k i (length (tabs w)) of Some j \<Rightarrow> select_tab j w | None \<Rightarrow> w))"

section \<open>Connection states and font size\<close>

definition on_status :: "js_string \<Rightarrow> connection_status \<Rightarrow> workspace \<Rightarrow> workspace" where
  "on_status key s w =
     (if map_of (statuses w) key = Some s then w
      else w\<lparr>statuses := AList.update key s (statuses w)\<rparr>)"

definition shown_status :: "js_string \<Rightarrow> workspace \<Rightarrow> connection_status" where
  "shown_status key w = (case map_of (statuses w) key of Some s \<Rightarrow> s | None \<Rightarrow> Status_Connecting)"

definition change_font_size :: "rat \<Rightarrow> workspace \<Rightarrow> workspace" where
  "change_font_size delta w =
     (let next = min max_size (max min_size (tab_font w + delta))
      in w\<lparr>tab_font := next, stored_font := Some next\<rparr>)"

definition main_logout :: "page \<Rightarrow> page" where
  "main_logout b =
     b\<lparr>storage := remove_item username_key (remove_item client_token_key (storage b)),
       href := Some (js ''/login'')\<rparr>"

section \<open>Events\<close>

datatype workspace_event =
    Open_Server nat server
  | Close_Tab bool nat
  | Select_Tab nat
  | Tab_Key bool nat tab_bar_key
  | Tab_Status nat connection_status
  | Font_Smaller
  | Font_Larger
  | Open_Drawer
  | Close_Drawer

text \<open>A tab's status arrives while it is mounted; the font buttons are disabled at the bounds.\<close>

fun workspace_step :: "workspace \<Rightarrow> workspace_event \<Rightarrow> workspace" where
  "workspace_step w (Open_Server now s) = open_terminal now s w"
| "workspace_step w (Close_Tab at_once i) = close_tab at_once i w"
| "workspace_step w (Select_Tab i) = select_tab i w"
| "workspace_step w (Tab_Key at_once i k) = on_tab_key at_once i k w"
| "workspace_step w (Tab_Status i s) =
     (if i < length (tabs w) then on_status (tab_key (tabs w ! i)) s w else w)"
| "workspace_step w Font_Smaller = (if tab_font w \<le> min_size then w else change_font_size (- 1) w)"
| "workspace_step w Font_Larger = (if max_size \<le> tab_font w then w else change_font_size 1 w)"
| "workspace_step w Open_Drawer = w\<lparr>drawer_open := True\<rparr>"
| "workspace_step w Close_Drawer = w\<lparr>drawer_open := False\<rparr>"

section \<open>Invariant\<close>

definition keys_of :: "workspace \<Rightarrow> js_string list" where
  "keys_of w = map tab_key (tabs w)"

definition workspace_inv :: "workspace \<Rightarrow> bool" where
  "workspace_inv w \<longleftrightarrow>
     distinct (map (\<lambda>t. sv_id (tab_server t)) (tabs w)) \<and> distinct (keys_of w) \<and>
     (\<forall>t \<in> set (tabs w). \<exists>now. tab_key t = new_key (tab_server t) now) \<and>
     (if tabs w = [] then active_key w = [] else active_key w \<in> set (keys_of w)) \<and>
     set (map fst (statuses w)) \<subseteq> set (keys_of w) \<and> set (callbacks w) \<subseteq> set (keys_of w) \<and>
     min_size \<le> tab_font w \<and> tab_font w \<le> max_size"

lemma no_dash_in_digits: "0x2D \<notin> set (nat_digits n)"
  using nat_digits_are_digits [of n] by (auto simp: is_digit_def)

lemma int_digits_inject: "int_digits a = int_digits b \<Longrightarrow> a = b"
proof -
  have h: "nat_digits m \<noteq> 0x2D # ds" for m ds
    using no_dash_in_digits [of m] by auto
  show "int_digits a = int_digits b \<Longrightarrow> a = b"
    using h [symmetric] h by (auto simp: int_digits_def nat_digits_inject split: if_splits)
qed

lemma new_key_inject: "new_key s now = new_key s' now' \<Longrightarrow> sv_id s = sv_id s'"
proof -
  have k: "js_split 0x2D (nat_digits m @ 0x2D # r) = nat_digits m # js_split 0x2D r" for m r
    by (rule js_split_append_sep [OF no_dash_in_digits])
  have d: "js ''-'' = [0x2D]"
    by (simp add: js_def of_char_def)
  assume "new_key s now = new_key s' now'"
  then have "js_split 0x2D (new_key s now) = js_split 0x2D (new_key s' now')"
    by simp
  then have "int_digits (sv_id s) = int_digits (sv_id s')"
    using nat_digits_not_Nil [symmetric]
    by (auto simp: new_key_def d int_digits_def k split: if_splits)
  then show ?thesis
    by (rule int_digits_inject)
qed

lemma prune_inv:
  "workspace_inv (w\<lparr>statuses := [], callbacks := []\<rparr>) \<Longrightarrow> workspace_inv (prune w)"
  by (auto simp: workspace_inv_def prune_def keys_of_def)

lemma find_server:
  "find (\<lambda>t. sv_id (tab_server t) = i) ts = Some t \<Longrightarrow> t \<in> set ts \<and> sv_id (tab_server t) = i"
  "find (\<lambda>t. sv_id (tab_server t) = i) ts = None \<Longrightarrow> i \<notin> (\<lambda>t. sv_id (tab_server t)) ` set ts"
  by (auto simp: find_Some_iff find_None_iff)

lemma fresh_key:
  assumes "\<forall>t \<in> set ts. \<exists>now. tab_key t = new_key (tab_server t) now"
    and "sv_id s \<notin> (\<lambda>t. sv_id (tab_server t)) ` set ts"
  shows "new_key s now \<notin> tab_key ` set ts"
proof
  assume "new_key s now \<in> tab_key ` set ts"
  then obtain t where t: "t \<in> set ts" "new_key s now = tab_key t"
    by blast
  then obtain now' where "tab_key t = new_key (tab_server t) now'"
    using assms(1) by blast
  then have "sv_id s = sv_id (tab_server t)"
    using t(2) new_key_inject by metis
  then show False
    using assms(2) t(1) by blast
qed

lemma open_terminal_inv: "workspace_inv w \<Longrightarrow> workspace_inv (open_terminal now s w)"
proof -
  assume w: "workspace_inv w"
  show ?thesis
  proof (cases "find (\<lambda>t. sv_id (tab_server t) = sv_id s) (tabs w)")
    case (Some t)
    then show ?thesis
      using w find_server(1) [OF Some] by (auto simp: open_terminal_def workspace_inv_def keys_of_def)
  next
    case None
    note new = find_server(2) [OF None]
    have "new_key s now \<notin> tab_key ` set (tabs w)"
      using w new by (intro fresh_key) (auto simp: workspace_inv_def)
    then have "workspace_inv ((ask_callbacks (w\<lparr>drawer_open := False, active_key := new_key s now,
        tabs := tabs w @ [\<lparr>tab_key = new_key s now, tab_server = s\<rparr>]\<rparr>))\<lparr>statuses := [], callbacks := []\<rparr>)"
      using w new by (auto simp: workspace_inv_def keys_of_def ask_callbacks_def)
    then show ?thesis
      using None by (auto simp: open_terminal_def Let_def intro!: prune_inv)
  qed
qed

lemma neighbour_stays:
  "distinct (map tab_key ts) \<Longrightarrow> i < length ts \<Longrightarrow> neighbour i ts = Some t \<Longrightarrow>
   t \<in> set (filter (\<lambda>u. tab_key u \<noteq> tab_key (ts ! i)) ts)"
  by (auto simp: neighbour_def distinct_conv_nth split: if_splits)

lemma close_tab_inv: "workspace_inv w \<Longrightarrow> workspace_inv (close_tab at_once i w)"
proof (cases "length (tabs w) \<le> i")
  case False
  assume w: "workspace_inv w"
  let ?key = "tab_key (tabs w ! i)"
  let ?rest = "filter (\<lambda>t. tab_key t \<noteq> ?key) (tabs w)"
  let ?f = "map_option tab_key (neighbour i (tabs w))"
  let ?c = "closed_active (active_key w) ?key ?rest"
  define act where "act = (if at_once then override ?f (override ?c (active_key w))
      else override ?c (override ?f (active_key w)))"
  have d: "distinct (map tab_key (tabs w))"
    using w by (simp add: workspace_inv_def keys_of_def)
  have f: "k \<in> tab_key ` set ?rest" if "?f = Some k" for k
    using that neighbour_stays [OF d] False by (auto simp del: set_filter)
  have a: "active_key w \<in> tab_key ` set ?rest" if "active_key w \<noteq> ?key"
    using that w False by (auto simp: workspace_inv_def keys_of_def split: if_splits)
  have "if ?rest = [] then act = [] else act \<in> tab_key ` set ?rest"
  proof (cases "?rest = []")
    case True
    then have "?f = None" "?c = Some []"
      using f by (cases ?f, auto simp del: set_filter simp: closed_active_def)
    then show ?thesis
      using True by (simp add: act_def override_def)
  next
    case False
    then have c: "?c = None \<and> active_key w \<in> tab_key ` set ?rest \<or> (\<exists>k. ?c = Some k \<and> k \<in> tab_key ` set ?rest)"
      using a last_in_set [OF False] by (auto simp: closed_active_def simp del: set_filter)
    then have "act \<in> tab_key ` set ?rest"
      using f by (cases ?f) (auto simp: act_def override_def simp del: set_filter)
    then show ?thesis
      using False by simp
  qed
  then have "workspace_inv (w\<lparr>tabs := ?rest, active_key := act, statuses := [], callbacks := []\<rparr>)"
    using w d by (auto simp: workspace_inv_def keys_of_def distinct_map_filter)
  then show ?thesis
    using False by (auto simp: close_tab_def Let_def act_def intro!: prune_inv)
qed (simp add: close_tab_def)

lemma select_tab_inv: "workspace_inv w \<Longrightarrow> workspace_inv (select_tab i w)"
  by (auto simp: select_tab_def workspace_inv_def keys_of_def)

lemma update_keys: "fst ` set (AList.update k v xs) = insert k (fst ` set xs)"
  using dom_update [of k v xs] by (simp add: dom_map_of_conv_image_fst)

lemma on_status_inv:
  "workspace_inv w \<Longrightarrow> i < length (tabs w) \<Longrightarrow> workspace_inv (on_status (tab_key (tabs w ! i)) s w)"
  by (auto simp: on_status_def workspace_inv_def keys_of_def update_keys)

lemma change_font_inv: "workspace_inv w \<Longrightarrow> workspace_inv (change_font_size d w)"
  by (auto simp: change_font_size_def workspace_inv_def keys_of_def min_size_def max_size_def Let_def)

lemma workspace_step_inv: "workspace_inv w \<Longrightarrow> workspace_inv (workspace_step w e)"
  by (cases e)
    (auto simp: open_terminal_inv close_tab_inv select_tab_inv on_status_inv change_font_inv
      on_tab_key_def split: option.split,
     auto simp: workspace_inv_def keys_of_def)

lemma init_workspace_inv: "workspace_inv (init_workspace n)"
  by (simp add: init_workspace_def workspace_inv_def keys_of_def initial_font_def min_size_def max_size_def)

interpretation workspace: machine workspace_step workspace_inv
  by unfold_locales (rule workspace_step_inv)


section \<open>Properties\<close>

text \<open>
  Claim C36. The workspace is always in order: after any sequence of opening, closing, selecting, keys,
  status reports and font changes, no server has two tabs and no two tabs share a key; when there are
  tabs exactly one of them is active, and otherwise none; states and callbacks are kept for open tabs
  only; and the font size is between 10 and 28. This holds for either time at which React runs the
  updater of a close.
\<close>

theorem workspace_stays_in_order:
  assumes "w = run workspace_step (init_workspace number) es"
  shows "distinct (map (\<lambda>t. sv_id (tab_server t)) (tabs w)) \<and> distinct (map tab_key (tabs w))
    \<and> length (filter (\<lambda>t. tab_key t = active_key w) (tabs w)) = (if tabs w = [] then 0 else 1)
    \<and> fst ` set (statuses w) \<subseteq> tab_key ` set (tabs w) \<and> set (callbacks w) \<subseteq> tab_key ` set (tabs w)
    \<and> 10 \<le> tab_font w \<and> tab_font w \<le> 28"
proof -
  have w: "workspace_inv w"
    using workspace.run_inv [OF init_workspace_inv] assms by simp
  have "length (filter (\<lambda>t. tab_key t = k) ts) = (if k \<in> tab_key ` set ts then 1 else 0)"
    if "distinct (map tab_key ts)" for k ts
    using that by (induction ts) auto
  note count = this
  have "distinct (map tab_key (tabs w))"
    using w by (simp add: workspace_inv_def keys_of_def)
  from count [OF this, of "active_key w"] show ?thesis
    using w by (cases "tabs w = []") (auto simp: workspace_inv_def keys_of_def min_size_def max_size_def)
qed

definition sample_server :: "int \<Rightarrow> server" where
  "sample_server i =
     \<lparr>sv_id = i, sv_protocol = None, sv_rdp_domain = None, sv_rdp_cert_fingerprint = None, sv_name = [],
      sv_host_key = [], sv_host = js ''h'', sv_port = 22, sv_username = js ''u'', sv_auth_type = js ''key'',
      sv_description = [], sv_group = [], sv_jump_server_id = None, sv_created_at = [], sv_updated_at = []\<rparr>"

theorem workspace_stays_in_order_witness:
  "distinct (map tab_key (tabs (run workspace_step (init_workspace 0)
     [Open_Server 5 (sample_server 1), Open_Server 6 (sample_server 2), Close_Tab False 0])))"
  using workspace_stays_in_order [OF refl] by blast

text \<open>
  Opening a server shows it: afterwards the active tab is one of that server; if it had a tab
  already the tabs are unchanged, and otherwise exactly one tab is added, at the end.
\<close>

lemma open_terminal_shows_the_server:
  "\<exists>t \<in> set (tabs (open_terminal now s w)).
     sv_id (tab_server t) = sv_id s \<and> active_key (open_terminal now s w) = tab_key t
     \<and> (if \<exists>u \<in> set (tabs w). sv_id (tab_server u) = sv_id s
        then tabs (open_terminal now s w) = tabs w
        else tabs (open_terminal now s w) = tabs w @ [t])"
proof (cases "find (\<lambda>t. sv_id (tab_server t) = sv_id s) (tabs w)")
  case None
  have "\<not> (\<exists>u \<in> set (tabs w). sv_id (tab_server u) = sv_id s)"
    using find_server(2) [OF None] by (metis image_eqI)
  then show ?thesis
    using None by (simp add: open_terminal_def prune_def ask_callbacks_def Let_def)
next
  case (Some t)
  then show ?thesis
    using find_server(1) [OF Some] by (auto simp: open_terminal_def Let_def)
qed

text \<open>
  The arrow keys go round: in a bar of \<open>n\<close> tabs each key leads to a tab that exists, left undoes
  right and right undoes left, and pressing right \<open>n\<close> times comes back to where one was.
\<close>

lemma arrow_keys_go_round:
  assumes "i < n"
  shows "(\<forall>k j. key_target k i n = Some j \<longrightarrow> j < n)
    \<and> (\<exists>j. key_target Arrow_Right i n = Some j \<and> key_target Arrow_Left j n = Some i)
    \<and> (\<exists>j. key_target Arrow_Left i n = Some j \<and> key_target Arrow_Right j n = Some i)
    \<and> ((\<lambda>j. the (key_target Arrow_Right j n)) ^^ n) i = i"
proof (intro conjI)
  show "\<forall>k j. key_target k i n = Some j \<longrightarrow> j < n"
    using assms by (auto simp: key_target_def split: tab_bar_key.splits)
  show "\<exists>j. key_target Arrow_Right i n = Some j \<and> key_target Arrow_Left j n = Some i"
    using assms by (cases "i + 1 = n") (auto simp: key_target_def)
  show "\<exists>j. key_target Arrow_Left i n = Some j \<and> key_target Arrow_Right j n = Some i"
  proof (cases i)
    case (Suc j)
    then have "i + n - 1 = n + j"
      by simp
    then show ?thesis
      using assms Suc by (simp add: key_target_def)
  qed (use assms in \<open>simp add: key_target_def\<close>)
  have "((\<lambda>j. the (key_target Arrow_Right j n)) ^^ k) i = (i + k) mod n" for k
    using assms by (induction k) (simp_all add: key_target_def mod_Suc_eq)
  then show "((\<lambda>j. the (key_target Arrow_Right j n)) ^^ n) i = i"
    using assms by simp
qed

lemma arrow_keys_go_round_witness:
  "((\<lambda>j. the (key_target Arrow_Right j 3)) ^^ 3) 1 = 1"
  using arrow_keys_go_round [of 1 3] by simp

text \<open>
  Closing a tab in the background moves the user away from the tab they are in: the main page
  changes the active key only when the closed tab was the active one, but the tab bar always selects a
  neighbour of the closed tab. With three tabs and the first active, closing the third makes the second
  active, whenever React runs the updater.
\<close>

lemma closing_background_tab_moves_selection:
  assumes "distinct (map tab_key [a, b, c])" and "tabs w = [a, b, c]" and "active_key w = tab_key a"
  shows "active_key (close_tab at_once 2 w) = tab_key b
    \<and> tabs (close_tab at_once 2 w) = [a, b]"
  using assms
  by (auto simp: close_tab_def prune_def neighbour_def closed_active_def override_def Let_def numeral_2_eq_2)

lemma closing_background_tab_moves_selection_witness:
  "\<exists>w a b c. tabs w = [a, b, c] \<and> active_key w = tab_key a
     \<and> active_key (close_tab True 2 w) = tab_key b"
proof -
  let ?t = "\<lambda>k. \<lparr>tab_key = [k], tab_server = sample_server 1\<rparr>"
  let ?w = "(init_workspace 0)\<lparr>tabs := [?t 1, ?t 2, ?t 3], active_key := [1]\<rparr>"
  have "active_key (close_tab True 2 ?w) = tab_key (?t 2)"
    by (rule conjunct1 [OF closing_background_tab_moves_selection, of "?t 1" _ "?t 3"]) simp_all
  then show ?thesis
    by (intro exI [of _ ?w] exI [of _ "?t 1"] exI [of _ "?t 2"] exI [of _ "?t 3"]) simp
qed

text \<open>
  Closing the active tab depends on when React runs the updater: with three tabs and the first
  active, the tab bar asks for the second and the main page for the last, and the later of the two wins.
\<close>

lemma closing_active_tab_depends_on_react:
  assumes "distinct (map tab_key [a, b, c])" and "tabs w = [a, b, c]" and "active_key w = tab_key a"
  shows "active_key (close_tab True 0 w) = tab_key b \<and> active_key (close_tab False 0 w) = tab_key c"
  using assms
  by (auto simp: close_tab_def prune_def neighbour_def closed_active_def override_def Let_def)

lemma closing_active_tab_depends_on_react_witness:
  "\<exists>w. active_key (close_tab True 0 w) \<noteq> active_key (close_tab False 0 w)"
proof -
  let ?t = "\<lambda>k. \<lparr>tab_key = [k], tab_server = sample_server 1\<rparr>"
  let ?w = "(init_workspace 0)\<lparr>tabs := [?t 1, ?t 2, ?t 3], active_key := [1]\<rparr>"
  have "active_key (close_tab True 0 ?w) = tab_key (?t 2) \<and> active_key (close_tab False 0 ?w) = tab_key (?t 3)"
    by (rule closing_active_tab_depends_on_react [of "?t 1"]) simp_all
  then have "active_key (close_tab True 0 ?w) \<noteq> active_key (close_tab False 0 ?w)"
    by simp
  then show ?thesis ..
qed


end
