(* ===== verification/Tabs_View.thy ===== *)
theory Tabs_View
  imports Workspace Theme View
begin

text \<open>
  The main page and its tab bar as they are shown (\<open>pages/MainPage.tsx\<close>, \<open>components/TerminalTabs.tsx\<close>): which tab
  is selected and in the tab order, which panel is visible and what it holds, which buttons are on, and
  where the sidebar is. \<open>at_once\<close> is how React runs the updater of a closed tab (see \<open>Workspace\<close>).
\<close>

section \<open>The tab bar\<close>

definition lbl_close :: js_string where "lbl_close = [0x5173, 0x95ED] @ js '' ''"
definition lbl_smaller :: js_string where "lbl_smaller = [0x7F29, 0x5C0F, 0x5B57, 0x4F53]"
definition lbl_larger :: js_string where "lbl_larger = [0x653E, 0x5927, 0x5B57, 0x4F53]"

definition status_label :: "connection_status \<Rightarrow> js_string" where
  "status_label s =
     (case s of
        Status_Connecting \<Rightarrow> [0x6B63, 0x5728, 0x8FDE, 0x63A5]
      | Status_Connected \<Rightarrow> [0x5DF2, 0x8FDE, 0x63A5]
      | Status_Error \<Rightarrow> [0x8FDE, 0x63A5, 0x65AD, 0x5F00, 0x6216, 0x5931, 0x8D25])"

record bar_tab =
  tv_id :: js_string
  tv_panel :: js_string
  tv_selected :: bool
  tv_index :: int
  tv_title :: js_string
  tv_status :: connection_status
  tv_label :: "workspace_event control"
  tv_close :: "workspace_event control"

definition tab_id :: "js_string \<Rightarrow> js_string" where "tab_id key = js ''tab-'' @ key"
definition panel_id :: "js_string \<Rightarrow> js_string" where "panel_id key = js ''panel-'' @ key"

definition tab_title :: "server \<Rightarrow> js_string" where
  "tab_title s =
     sv_name s @ js '' '' @ [0x00B7] @ js '' '' @ sv_username s @ js ''@'' @ sv_host s @ js '':'' @ int_digits (sv_port s)"

definition bar_tab_of :: "bool \<Rightarrow> workspace \<Rightarrow> nat \<Rightarrow> bar_tab" where
  "bar_tab_of at_once w i =
     (let t = tabs w ! i; on = (tab_key t = active_key w)
      in \<lparr>tv_id = tab_id (tab_key t), tv_panel = panel_id (tab_key t), tv_selected = on,
          tv_index = (if on then 0 else -1), tv_title = tab_title (tab_server t),
          tv_status = shown_status (tab_key t) w,
          tv_label = button (sv_name (tab_server t)) True (Select_Tab i),
          tv_close = button (lbl_close @ sv_name (tab_server t)) True (Close_Tab at_once i)\<rparr>)"

section \<open>The panels\<close>

datatype panel_content = Rdp_Panel server bool | Terminal_Panel int js_string bool rat

record panel_view =
  pv_id :: js_string
  pv_tab :: js_string
  pv_hidden :: bool
  pv_content :: panel_content

definition panel_view_of :: "workspace \<Rightarrow> tab_info \<Rightarrow> panel_view" where
  "panel_view_of w t =
     (let s = tab_server t; on = (tab_key t = active_key w)
      in \<lparr>pv_id = panel_id (tab_key t), pv_tab = tab_id (tab_key t), pv_hidden = (\<not> on),
          pv_content = (if sv_protocol s = Some Rdp then Rdp_Panel s on
                        else Terminal_Panel (sv_id s) (sv_name s) on (tab_font w))\<rparr>)"

section \<open>The workspace\<close>

definition active_tab :: "workspace \<Rightarrow> tab_info option" where
  "active_tab w = find (\<lambda>t. tab_key t = active_key w) (tabs w)"

definition font_controls :: "workspace \<Rightarrow> workspace_event control list" where
  "font_controls w =
     [button lbl_smaller (\<not> tab_font w \<le> min_size) Font_Smaller,
      button lbl_larger (\<not> max_size \<le> tab_font w) Font_Larger]"

definition font_hidden :: "workspace \<Rightarrow> bool" where
  "font_hidden w \<longleftrightarrow> (case active_tab w of None \<Rightarrow> False | Some t \<Rightarrow> sv_protocol (tab_server t) = Some Rdp)"

record workspace_view =
  wv_tabs :: "bar_tab list"
  wv_fonts_hidden :: bool
  wv_fonts :: "workspace_event control list"
  wv_panels :: "panel_view list"

text \<open>Nothing but an invitation to open a session when there is no tab.\<close>

definition render_tabs :: "bool \<Rightarrow> workspace \<Rightarrow> workspace_view option" where
  "render_tabs at_once w =
     (if tabs w = [] then None
      else Some \<lparr>wv_tabs = map (bar_tab_of at_once w) [0..<length (tabs w)],
                 wv_fonts_hidden = font_hidden w, wv_fonts = font_controls w,
                 wv_panels = map (panel_view_of w) (tabs w)\<rparr>)"

section \<open>The main page\<close>

datatype sidebar_place = In_Drawer bool | In_Sider

definition lbl_account :: js_string where "lbl_account = [0x8D26, 0x6237]"
definition lbl_open_list :: js_string where "lbl_open_list = [0x6253, 0x5F00, 0x670D, 0x52A1, 0x5668, 0x5217, 0x8868]"
definition lbl_to_light :: js_string where "lbl_to_light = [0x5207, 0x6362, 0x6D45, 0x8272, 0x4E3B, 0x9898]"
definition lbl_to_dark :: js_string where "lbl_to_dark = [0x5207, 0x6362, 0x6DF1, 0x8272, 0x4E3B, 0x9898]"

text \<open>The height of the page: that of the visual viewport, unless it has none.\<close>

definition viewport_height :: "nat option \<Rightarrow> nat \<Rightarrow> nat" where
  "viewport_height visual inner =
     (case visual of None \<Rightarrow> inner | Some h \<Rightarrow> if h = 0 then inner else h)"

record main_view =
  mv_height :: nat
  mv_sidebar :: sidebar_place
  mv_brand :: bool
  mv_active_server :: "int option"
  mv_account :: js_string
  mv_theme_title :: js_string
  mv_accents :: "(js_string \<times> js_string \<times> bool) list"
  mv_toolbar :: "workspace_event control option"
  mv_workspace :: "workspace_view option"

definition render_main ::
    "bool \<Rightarrow> bool \<Rightarrow> nat option \<Rightarrow> nat \<Rightarrow> storage \<Rightarrow> theme_state \<Rightarrow> workspace \<Rightarrow> main_view" where
  "render_main at_once mobile visual inner st th w =
     \<lparr>mv_height = viewport_height visual inner,
      mv_sidebar = (if mobile then In_Drawer (drawer_open w) else In_Sider), mv_brand = (\<not> mobile),
      mv_active_server = map_option (\<lambda>t. sv_id (tab_server t)) (active_tab w),
      mv_account = or_else (get_item st username_key) lbl_account,
      mv_theme_title = (if mode th = Dark then lbl_to_light else lbl_to_dark),
      mv_accents = map (\<lambda>(key, color, label). (label, color, accent_name (accent th) = key)) accent_options,
      mv_toolbar = (if mobile then Some (button lbl_open_list True Open_Drawer) else None),
      mv_workspace = render_tabs at_once w\<rparr>"

section \<open>One session is shown\<close>

definition shows_server :: "workspace \<Rightarrow> server \<Rightarrow> bool \<Rightarrow> panel_content \<Rightarrow> bool" where
  "shows_server w s on c \<longleftrightarrow>
     (if sv_protocol s = Some Rdp then c = Rdp_Panel s on
      else c = Terminal_Panel (sv_id s) (sv_name s) on (tab_font w))"

definition tab_matches :: "workspace \<Rightarrow> nat \<Rightarrow> nat \<Rightarrow> bar_tab \<Rightarrow> panel_view \<Rightarrow> bool" where
  "tab_matches w i j t p \<longleftrightarrow>
     tv_panel t = pv_id p \<and> pv_tab p = tv_id t \<and> tv_selected t = (j = i) \<and>
     tv_index t = (if j = i then 0 else -1) \<and> pv_hidden p = (j \<noteq> i) \<and>
     shows_server w (tab_server (tabs w ! j)) (j = i) (pv_content p)"

lemma active_position:
  assumes "workspace_inv w" "tabs w \<noteq> []"
  obtains i where "i < length (tabs w)"
    "\<And>j. j < length (tabs w) \<Longrightarrow> (tab_key (tabs w ! j) = active_key w) = (j = i)"
    "active_tab w = Some (tabs w ! i)"
proof -
  have d: "distinct (map tab_key (tabs w))" and m: "active_key w \<in> set (map tab_key (tabs w))"
    using assms by (auto simp: workspace_inv_def keys_of_def)
  obtain i where i: "i < length (tabs w)" "tab_key (tabs w ! i) = active_key w"
    using m by (auto simp: in_set_conv_nth)
  have u: "(tab_key (tabs w ! j) = active_key w) = (j = i)" if "j < length (tabs w)" for j
    using i that nth_eq_iff_index_eq [OF d, of j i] by auto
  have "active_tab w = Some (tabs w ! i)"
    using i u by (auto simp: active_tab_def find_Some_iff)
  then show ?thesis
    using i u that by blast
qed

lemma view_ids: "inj tab_id" "inj panel_id"
  by (simp_all add: inj_def tab_id_def panel_id_def)

lemma view_ids_of:
  "map tv_id (map (bar_tab_of at_once w) [0..<length (tabs w)]) = map tab_id (map tab_key (tabs w))"
  "map pv_id (map (panel_view_of w) (tabs w)) = map panel_id (map tab_key (tabs w))"
proof -
  show "map tv_id (map (bar_tab_of at_once w) [0..<length (tabs w)]) = map tab_id (map tab_key (tabs w))"
    by (rule nth_equalityI) (simp_all add: bar_tab_of_def Let_def)
  show "map pv_id (map (panel_view_of w) (tabs w)) = map panel_id (map tab_key (tabs w))"
    by (simp add: panel_view_of_def Let_def)
qed

lemma distinct_ids: "inj f \<Longrightarrow> distinct xs \<Longrightarrow> distinct (map f xs)"
  by (simp add: distinct_map inj_on_def inj_def)

text \<open>
  Exactly one session is shown. However tabs were opened, closed and selected, one tab of the bar
  is selected, it alone is reachable with the tabulator, and its panel alone is visible; every tab names
  its own panel and is named by it, with identifiers that are never used twice; the panel holds the
  desktop or the terminal of the tab's server; and the sidebar highlights the server of the shown tab.
\<close>

lemma exactly_one_session_is_shown:
  assumes "w = run workspace_step (init_workspace n) es" and "render_tabs at_once w = Some v"
  shows "\<exists>i < length (tabs w).
      (\<forall>j < length (tabs w). tab_matches w i j (wv_tabs v ! j) (wv_panels v ! j))
    \<and> mv_active_server (render_main at_once mobile visual inner st th w) = Some (sv_id (tab_server (tabs w ! i)))
    \<and> length (wv_tabs v) = length (tabs w) \<and> length (wv_panels v) = length (tabs w)
    \<and> distinct (map tv_id (wv_tabs v)) \<and> distinct (map pv_id (wv_panels v))"
proof -
  have inv: "workspace_inv w"
    using workspace.run_inv [OF init_workspace_inv] assms(1) by simp
  have ne: "tabs w \<noteq> []" and v: "wv_tabs v = map (bar_tab_of at_once w) [0..<length (tabs w)]"
    "wv_panels v = map (panel_view_of w) (tabs w)"
    using assms(2) by (auto simp: render_tabs_def split: if_splits)
  obtain i where i: "i < length (tabs w)"
    and u: "\<And>j. j < length (tabs w) \<Longrightarrow> (tab_key (tabs w ! j) = active_key w) = (j = i)"
    and a: "active_tab w = Some (tabs w ! i)"
    using active_position [OF inv ne] by blast
  have d: "distinct (map tab_key (tabs w))"
    using inv by (simp add: workspace_inv_def keys_of_def)
  have ids: "map tv_id (wv_tabs v) = map tab_id (map tab_key (tabs w))"
    "map pv_id (wv_panels v) = map panel_id (map tab_key (tabs w))"
    by (simp_all only: v view_ids_of)
  have "distinct (map tv_id (wv_tabs v))"
    unfolding ids(1) by (rule distinct_ids [OF view_ids(1) d])
  moreover have "distinct (map pv_id (wv_panels v))"
    unfolding ids(2) by (rule distinct_ids [OF view_ids(2) d])
  moreover have "tab_matches w i j (wv_tabs v ! j) (wv_panels v ! j)" if "j < length (tabs w)" for j
    using u [OF that] that
    by (simp add: v tab_matches_def bar_tab_of_def panel_view_of_def shows_server_def Let_def)
  ultimately show ?thesis
    using i a by (intro exI [of _ i]) (simp add: v render_main_def)
qed

definition two_tabs :: workspace where
  "two_tabs = run workspace_step (init_workspace 0)
     [Open_Server 1 (sample_server 1), Open_Server 2 (sample_server 2), Select_Tab 0]"

lemma exactly_one_session_is_shown_witness:
  "\<exists>v. render_tabs True two_tabs = Some v \<and> length (wv_panels v) = 2"
proof -
  have l: "length (tabs two_tabs) = 2"
    by code_simp
  then have "render_tabs True two_tabs \<noteq> None"
    by (cases "tabs two_tabs") (simp_all add: render_tabs_def)
  then obtain v where v: "render_tabs True two_tabs = Some v"
    by blast
  then show ?thesis
    using exactly_one_session_is_shown [OF two_tabs_def v, of False None 0 Map.empty "\<lparr>mode = Dark, accent = Blue\<rparr>"] l
    by auto
qed

section \<open>The font buttons\<close>

text \<open>
  The font buttons stop at the bounds and nowhere else: an enabled one changes the size and keeps it
  between 10 and 28, and a disabled one would change nothing.
\<close>

lemma font_buttons_stop_at_the_bounds:
  assumes "workspace_inv w" and "c \<in> set (font_controls w)"
  shows "guarded workspace_step
    (\<lambda>w w'. tab_font w' \<noteq> tab_font w \<and> min_size \<le> tab_font w' \<and> tab_font w' \<le> max_size) w c"
  using assms by (auto simp: font_controls_def change_font_size_def workspace_inv_def min_size_def max_size_def
      min_def max_def Let_def)

lemma font_buttons_stop_at_the_bounds_witness:
  "guarded workspace_step
    (\<lambda>w w'. tab_font w' \<noteq> tab_font w \<and> min_size \<le> tab_font w' \<and> tab_font w' \<le> max_size) two_tabs
    (button lbl_larger True Font_Larger)"
proof (rule font_buttons_stop_at_the_bounds)
  show "workspace_inv two_tabs"
    unfolding two_tabs_def by (rule workspace.run_inv [OF init_workspace_inv])
  have "tab_font two_tabs = 14"
    by code_simp
  then show "button lbl_larger True Font_Larger \<in> set (font_controls two_tabs)"
    by (simp add: font_controls_def max_size_def)
qed

end
