(* ===== verification/Sidebar.thy ===== *)
theory Sidebar
  imports Auth "HOL-Library.Multiset"
begin

text \<open>
  The server list (\<open>components/ServerSidebar.tsx\<close>): search, groups and their order, the menu of a server,
  the long press that opens it on a touch screen, and the calls behind its entries.

  Two functions of the browser's language tables are parameters: \<open>lower\<close> is \<open>toLowerCase\<close> and \<open>compare\<close>
  is \<open>localeCompare\<close> for Chinese. Requests for the list are numbered in the order they were sent; their
  replies may arrive in any order.
\<close>

section \<open>Search\<close>

definition server_matches :: "(js_string \<Rightarrow> js_string) \<Rightarrow> js_string \<Rightarrow> server \<Rightarrow> bool" where
  "server_matches lower search s \<longleftrightarrow>
     (let query = lower search
      in \<not> truthy query \<or>
         list_ex (\<lambda>v. js_includes (lower v) query) [sv_name s, sv_host s, sv_group s])"

definition filtered :: "(js_string \<Rightarrow> js_string) \<Rightarrow> js_string \<Rightarrow> server list \<Rightarrow> server list" where
  "filtered lower search servers = filter (server_matches lower search) servers"

section \<open>Groups\<close>

definition ungrouped :: js_string where
  "ungrouped = [0x672A, 0x5206, 0x7EC4]"

definition group_name :: "server \<Rightarrow> js_string" where
  "group_name s = (if truthy (sv_group s) then sv_group s else ungrouped)"

text \<open>The loop over the filtered servers; a \<open>Map\<close> keeps its keys in the order they were added.\<close>

fun add_to_group :: "server \<Rightarrow> (js_string \<times> server list) list \<Rightarrow> (js_string \<times> server list) list" where
  "add_to_group s [] = [(group_name s, [s])]"
| "add_to_group s ((g, ss) # gs) =
     (if g = group_name s then (g, ss @ [s]) # gs else (g, ss) # add_to_group s gs)"

definition group_map :: "server list \<Rightarrow> (js_string \<times> server list) list" where
  "group_map ss = foldl (\<lambda>gs s. add_to_group s gs) [] ss"

definition group_order :: "(js_string \<Rightarrow> js_string \<Rightarrow> int) \<Rightarrow> js_string \<Rightarrow> js_string \<Rightarrow> int" where
  "group_order compare a b =
     (if a = ungrouped then 1 else if b = ungrouped then - 1 else compare a b)"

text \<open>\<open>Array.prototype.sort\<close>, which is stable.\<close>

fun insert_by :: "('a \<Rightarrow> 'a \<Rightarrow> int) \<Rightarrow> 'a \<Rightarrow> 'a list \<Rightarrow> 'a list" where
  "insert_by cmp x [] = [x]"
| "insert_by cmp x (y # ys) = (if cmp x y \<le> 0 then x # y # ys else y # insert_by cmp x ys)"

definition sort_by :: "('a \<Rightarrow> 'a \<Rightarrow> int) \<Rightarrow> 'a list \<Rightarrow> 'a list" where
  "sort_by cmp xs = foldr (insert_by cmp) xs []"

definition groups :: "(js_string \<Rightarrow> js_string \<Rightarrow> int) \<Rightarrow> server list \<Rightarrow> js_string list" where
  "groups compare ss = sort_by (group_order compare) (map fst (group_map ss))"

section \<open>State\<close>

datatype menu_item = Connect_Item | Files_Item | Test_Item | Edit_Item | Delete_Item

definition menu_for :: "server \<Rightarrow> menu_item list" where
  "menu_for s =
     filter (\<lambda>k. sv_protocol s \<noteq> Some Rdp \<or> (k \<noteq> Files_Item \<and> k \<noteq> Test_Item))
       [Connect_Item, Files_Item, Test_Item, Edit_Item, Delete_Item]"

record test_result =
  tr_success :: bool
  tr_error :: "js_string option"

record sidebar =
  servers :: "server list"
  sb_loading :: bool
  search :: js_string
  modal_open :: bool
  editing :: "server option"
  collapsed :: "js_string \<rightharpoonup> bool"
  file_manager_server :: "server option"
  fetching :: "nat list"
  next_fetch :: nat
  touch_menu :: "int option"
  long_press_timer :: "int option"
  long_press_fired :: bool
  connects :: "server list"
  sb_calls :: "request list"
  sb_toasts :: "toast list"

section \<open>The list\<close>

definition fetch_servers :: "sidebar \<Rightarrow> sidebar" where
  "fetch_servers b =
     b\<lparr>fetching := fetching b @ [next_fetch b], next_fetch := Suc (next_fetch b),
       sb_calls := sb_calls b @ [list_servers]\<rparr>"

definition on_servers :: "nat \<Rightarrow> http_error + server list option \<Rightarrow> sidebar \<Rightarrow> sidebar" where
  "on_servers n reply b =
     (if n \<notin> set (fetching b) then b
      else
        (let b1 = b\<lparr>fetching := filter (\<lambda>k. k \<noteq> n) (fetching b)\<rparr>
         in (case reply of
               Inr data \<Rightarrow> b1\<lparr>servers := (case data of None \<Rightarrow> [] | Some ss \<Rightarrow> ss), sb_loading := False\<rparr>
             | Inl _ \<Rightarrow> b1\<lparr>sb_loading := False\<rparr>)))"

definition init_sidebar :: sidebar where
  "init_sidebar =
     fetch_servers
       \<lparr>servers = [], sb_loading = True, search = [], modal_open = False, editing = None,
        collapsed = Map.empty, file_manager_server = None, fetching = [], next_fetch = 0,
        touch_menu = None, long_press_timer = None, long_press_fired = False, connects = [],
        sb_calls = [], sb_toasts = []\<rparr>"

section \<open>Actions\<close>

definition sb_msg_deleted :: js_string where "sb_msg_deleted = [0x5DF2, 0x5220, 0x9664]"
definition msg_test_ok :: js_string where "msg_test_ok = [0x8FDE, 0x63A5, 0x6210, 0x529F]"
definition msg_test_failed :: js_string where "msg_test_failed = [0x6D4B, 0x8BD5, 0x5931, 0x8D25]"
definition msg_connect_failed :: js_string where "msg_connect_failed = [0x8FDE, 0x63A5, 0x5931, 0x8D25] @ js '': ''"

definition handle_edit :: "server \<Rightarrow> sidebar \<Rightarrow> sidebar" where
  "handle_edit s b = b\<lparr>editing := Some s, modal_open := True\<rparr>"

definition add_server :: "sidebar \<Rightarrow> sidebar" where
  "add_server b = b\<lparr>editing := None, modal_open := True\<rparr>"

definition handle_modal_ok :: "sidebar \<Rightarrow> sidebar" where
  "handle_modal_ok b = fetch_servers (b\<lparr>modal_open := False, editing := None\<rparr>)"

definition modal_cancel :: "sidebar \<Rightarrow> sidebar" where
  "modal_cancel b = b\<lparr>modal_open := False, editing := None\<rparr>"

text \<open>The deletion was confirmed; its reply.\<close>

definition confirm_delete :: "server \<Rightarrow> sidebar \<Rightarrow> sidebar" where
  "confirm_delete s b = b\<lparr>sb_calls := sb_calls b @ [delete_server (sv_id s)]\<rparr>"

definition on_deleted :: "http_error + json \<Rightarrow> sidebar \<Rightarrow> sidebar" where
  "on_deleted reply b =
     (case reply of
        Inr _ \<Rightarrow> fetch_servers (b\<lparr>sb_toasts := sb_toasts b @ [Toast_Success sb_msg_deleted]\<rparr>)
      | Inl _ \<Rightarrow> b)"

definition handle_test :: "server \<Rightarrow> sidebar \<Rightarrow> sidebar" where
  "handle_test s b = b\<lparr>sb_calls := sb_calls b @ [test_connection (sv_id s)]\<rparr>"

definition on_tested :: "http_error + test_result \<Rightarrow> sidebar \<Rightarrow> sidebar" where
  "on_tested reply b =
     b\<lparr>sb_toasts := sb_toasts b @
         [case reply of
            Inr r \<Rightarrow>
              if tr_success r then Toast_Success msg_test_ok
              else Toast_Error (JStr (msg_connect_failed @
                     (case tr_error r of Some e \<Rightarrow> e | None \<Rightarrow> js ''undefined'')))
          | Inl err \<Rightarrow> Toast_Error (error_detail err msg_test_failed)]\<rparr>"

definition connect_server :: "server \<Rightarrow> sidebar \<Rightarrow> sidebar" where
  "connect_server s b = b\<lparr>connects := connects b @ [s]\<rparr>"

text \<open>A menu entry, which is only there when \<open>menu_for\<close> lists it. \<open>Delete_Item\<close> asks first.\<close>

definition choose_item :: "server \<Rightarrow> menu_item \<Rightarrow> sidebar \<Rightarrow> sidebar" where
  "choose_item s k b =
     (if k \<notin> set (menu_for s) then b
      else (case k of
          Connect_Item \<Rightarrow> connect_server s b
        | Files_Item \<Rightarrow> b\<lparr>file_manager_server := Some s\<rparr>
        | Test_Item \<Rightarrow> handle_test s b
        | Edit_Item \<Rightarrow> handle_edit s b
        | Delete_Item \<Rightarrow> b))"

text \<open>The button for the file manager beside a server that is not an RDP one.\<close>

definition files_button :: "server \<Rightarrow> sidebar \<Rightarrow> sidebar" where
  "files_button s b = (if sv_protocol s \<noteq> Some Rdp then b\<lparr>file_manager_server := Some s\<rparr> else b)"

section \<open>Touch\<close>

definition clear_long_press :: "sidebar \<Rightarrow> sidebar" where
  "clear_long_press b = b\<lparr>long_press_timer := None\<rparr>"

definition on_card_touch_start :: "server \<Rightarrow> nat \<Rightarrow> sidebar \<Rightarrow> sidebar" where
  "on_card_touch_start s touches b =
     (if touches = 0 then b
      else (clear_long_press (b\<lparr>long_press_fired := False\<rparr>))\<lparr>long_press_timer := Some (sv_id s)\<rparr>)"

text \<open>The 500 ms timer of the last touch comes due. The ref keeps the number of the elapsed timer, which
  \<open>long_press_timer\<close> forgets: clearing it again has no effect.\<close>

definition on_long_press :: "sidebar \<Rightarrow> sidebar" where
  "on_long_press b =
     (case long_press_timer b of
        None \<Rightarrow> b
      | Some i \<Rightarrow> b\<lparr>long_press_timer := None, long_press_fired := True, touch_menu := Some i\<rparr>)"

definition on_card_click :: "server \<Rightarrow> sidebar \<Rightarrow> sidebar" where
  "on_card_click s b =
     (if long_press_fired b then b\<lparr>long_press_fired := False\<rparr> else connect_server s b)"

definition on_open_change :: "server \<Rightarrow> bool \<Rightarrow> sidebar \<Rightarrow> sidebar" where
  "on_open_change s op b = b\<lparr>touch_menu := (if op then Some (sv_id s) else None)\<rparr>"

text \<open>
  \<open>collapsed\<close> is an object that starts empty. What it has no entry for it inherits: the members of
  \<open>Object.prototype\<close>, none of which counts as false.
\<close>

definition object_members :: "js_string list" where
  "object_members =
     [js ''constructor'', js ''toString'', js ''toLocaleString'', js ''valueOf'', js ''hasOwnProperty'',
      js ''isPrototypeOf'', js ''propertyIsEnumerable'', js ''__proto__'', js ''__defineGetter__'',
      js ''__defineSetter__'', js ''__lookupGetter__'', js ''__lookupSetter__'']"

definition is_collapsed :: "sidebar \<Rightarrow> js_string \<Rightarrow> bool" where
  "is_collapsed b g = (case collapsed b g of Some v \<Rightarrow> v | None \<Rightarrow> g \<in> set object_members)"

definition toggle_group :: "js_string \<Rightarrow> sidebar \<Rightarrow> sidebar" where
  "toggle_group g b = b\<lparr>collapsed := (collapsed b)(g \<mapsto> \<not> is_collapsed b g)\<rparr>"

section \<open>Events\<close>

datatype sidebar_event =
    Servers_Reply nat "http_error + server list option"
  | Search_For js_string
  | Add_Clicked
  | Modal_Ok
  | Modal_Cancel
  | Item_Chosen server menu_item
  | Files_Clicked server
  | Files_Closed
  | Delete_Confirmed server
  | Delete_Reply "http_error + json"
  | Test_Reply "http_error + test_result"
  | Touch_Start server nat
  | Touch_Over
  | Long_Press
  | Card_Clicked server
  | Menu_Toggled server bool
  | Group_Toggled js_string

fun sidebar_step :: "sidebar \<Rightarrow> sidebar_event \<Rightarrow> sidebar" where
  "sidebar_step b (Servers_Reply n reply) = on_servers n reply b"
| "sidebar_step b (Search_For s) = b\<lparr>search := s\<rparr>"
| "sidebar_step b Add_Clicked = add_server b"
| "sidebar_step b Modal_Ok = handle_modal_ok b"
| "sidebar_step b Modal_Cancel = modal_cancel b"
| "sidebar_step b (Item_Chosen s k) = choose_item s k b"
| "sidebar_step b (Files_Clicked s) = files_button s b"
| "sidebar_step b Files_Closed = b\<lparr>file_manager_server := None\<rparr>"
| "sidebar_step b (Delete_Confirmed s) = confirm_delete s b"
| "sidebar_step b (Delete_Reply r) = on_deleted r b"
| "sidebar_step b (Test_Reply r) = on_tested r b"
| "sidebar_step b (Touch_Start s n) = on_card_touch_start s n b"
| "sidebar_step b Touch_Over = clear_long_press b"
| "sidebar_step b Long_Press = on_long_press b"
| "sidebar_step b (Card_Clicked s) = on_card_click s b"
| "sidebar_step b (Menu_Toggled s op) = on_open_change s op b"
| "sidebar_step b (Group_Toggled g) = toggle_group g b"

section \<open>Lemmas on groups\<close>

lemma insert_by_mset [simp]: "mset (insert_by cmp x xs) = add_mset x (mset xs)"
  by (induction xs) auto

lemma sort_by_mset [simp]: "mset (sort_by cmp xs) = mset xs"
  by (induction xs) (simp_all add: sort_by_def)

lemma sort_by_set [simp]: "set (sort_by cmp xs) = set xs"
  by (metis mset_eq_setD sort_by_mset)

lemma insert_by_sorted:
  assumes "\<And>a b c. cmp a b \<le> 0 \<Longrightarrow> cmp b c \<le> 0 \<Longrightarrow> cmp a c \<le> 0"
    and "\<And>a b. a \<noteq> b \<Longrightarrow> cmp a b \<le> 0 \<or> cmp b a \<le> 0"
    and "sorted_wrt (\<lambda>a b. cmp a b \<le> 0) xs" and "x \<notin> set xs"
  shows "sorted_wrt (\<lambda>a b. cmp a b \<le> 0) (insert_by cmp x xs)"
  using assms(3,4)
proof (induction xs)
  case (Cons y ys)
  have s: "set (insert_by cmp x ys) = insert x (set ys)"
    by (metis insert_by_mset set_mset_add_mset_insert set_mset_mset)
  show ?case
  proof (cases "cmp x y \<le> 0")
    case True
    then show ?thesis
      using Cons.prems(1) assms(1) by auto
  next
    case False
    then have "cmp y x \<le> 0"
      using Cons.prems(2) assms(2) [of x y] by auto
    moreover have "sorted_wrt (\<lambda>a b. cmp a b \<le> 0) (insert_by cmp x ys)"
      using Cons by auto
    ultimately show ?thesis
      using False Cons.prems(1) s by auto
  qed
qed simp

lemma sort_by_sorted:
  assumes "\<And>a b c. cmp a b \<le> 0 \<Longrightarrow> cmp b c \<le> 0 \<Longrightarrow> cmp a c \<le> 0"
    and "\<And>a b. a \<noteq> b \<Longrightarrow> cmp a b \<le> 0 \<or> cmp b a \<le> 0" and "distinct xs"
  shows "sorted_wrt (\<lambda>a b. cmp a b \<le> 0) (sort_by cmp xs)"
  using assms(3)
proof (induction xs)
  case (Cons x xs)
  then show ?case
    using insert_by_sorted [where cmp = cmp and xs = "sort_by cmp xs" and x = x, OF assms(1,2)]
      sort_by_set [of cmp xs]
    by (simp add: sort_by_def)
qed (simp add: sort_by_def)

lemma add_to_group_keys:
  "map fst (add_to_group s gs) =
     (if group_name s \<in> set (map fst gs) then map fst gs else map fst gs @ [group_name s])"
  by (induction gs) (auto, force)

lemma add_to_group_get:
  "map_of (add_to_group s gs) g =
     (if g = group_name s then Some ((case map_of gs g of None \<Rightarrow> [] | Some ss \<Rightarrow> ss) @ [s])
      else map_of gs g)"
  by (induction gs) auto

lemma group_map_snoc: "group_map (ss @ [s]) = add_to_group s (group_map ss)"
  by (simp add: group_map_def)

lemma group_map_spec:
  "distinct (map fst (group_map ss)) \<and> set (map fst (group_map ss)) = group_name ` set ss
   \<and> (\<forall>g. map_of (group_map ss) g =
        (if g \<in> group_name ` set ss then Some (filter (\<lambda>s. group_name s = g) ss) else None))"
proof (induction ss rule: rev_induct)
  case Nil
  then show ?case
    by (simp add: group_map_def)
next
  case (snoc s ss)
  then show ?case
    by (auto simp: group_map_snoc add_to_group_keys add_to_group_get filter_empty_conv image_iff)
qed

lemma mset_by_group:
  "distinct gs \<Longrightarrow>
   mset (concat (map (\<lambda>g. filter (\<lambda>s. f s = g) ss) gs)) = mset (filter (\<lambda>s. f s \<in> set gs) ss)"
proof (induction gs)
  case (Cons g gs)
  have "mset (filter (\<lambda>s. f s = g) ss) + mset (filter (\<lambda>s. f s \<in> set gs) ss)
      = mset (filter (\<lambda>s. f s \<in> set (g # gs)) ss)"
    using Cons.prems by (induction ss) auto
  then show ?case
    using Cons by simp
qed simp

section \<open>Properties\<close>

text \<open>
  Grouping shows every server once: the group headings are the distinct group names of the
  filtered servers, each group holds exactly the servers of that group in their original order, and all
  groups together are the filtered servers, none lost and none repeated, whatever \<open>localeCompare\<close> says.
\<close>

lemma grouping_loses_no_server:
  "distinct (groups compare ss) \<and> set (groups compare ss) = group_name ` set ss
   \<and> (\<forall>g. map_of (group_map ss) g =
        (if g \<in> group_name ` set ss then Some (filter (\<lambda>s. group_name s = g) ss) else None))
   \<and> mset (concat (map (\<lambda>g. the (map_of (group_map ss) g)) (groups compare ss))) = mset ss"
proof -
  let ?gs = "groups compare ss"
  have d: "distinct ?gs"
    using group_map_spec [of ss] mset_eq_imp_distinct_iff [of ?gs "map fst (group_map ss)"]
    by (simp add: groups_def)
  have s: "set ?gs = group_name ` set ss"
    using group_map_spec [of ss] by (simp add: groups_def)
  have "map (\<lambda>g. the (map_of (group_map ss) g)) ?gs = map (\<lambda>g. filter (\<lambda>s. group_name s = g) ss) ?gs"
    using group_map_spec [of ss] s by auto
  then have "mset (concat (map (\<lambda>g. the (map_of (group_map ss) g)) ?gs))
      = mset (filter (\<lambda>s. group_name s \<in> set ?gs) ss)"
    by (rule ssubst) (rule mset_by_group [OF d])
  also have "filter (\<lambda>s. group_name s \<in> set ?gs) ss = ss"
    by (simp add: s)
  finally show ?thesis
    using d s group_map_spec [of ss] by simp
qed

text \<open>
  The headings are in order: when \<open>localeCompare\<close> is a total order on names, the groups are
  sorted by it and the servers without a group come last.
\<close>

lemma ungrouped_servers_come_last:
  assumes "\<And>a b c. compare a b \<le> 0 \<Longrightarrow> compare b c \<le> 0 \<Longrightarrow> compare a c \<le> 0"
    and "\<And>a b. compare a b \<le> 0 \<or> compare b a \<le> 0"
  shows "sorted_wrt (\<lambda>a b. a \<noteq> ungrouped \<and> (b = ungrouped \<or> compare a b \<le> 0)) (groups compare ss)"
proof -
  have o: "group_order compare a b \<le> 0 \<longleftrightarrow> a \<noteq> ungrouped \<and> (b = ungrouped \<or> compare a b \<le> 0)" for a b
    by (simp add: group_order_def)
  have "sorted_wrt (\<lambda>a b. group_order compare a b \<le> 0) (groups compare ss)"
    unfolding groups_def
  proof (rule sort_by_sorted)
    show "group_order compare a b \<le> 0 \<Longrightarrow> group_order compare b c \<le> 0 \<Longrightarrow> group_order compare a c \<le> 0" for a b c
      using assms(1) [of a b c] by (auto simp: o)
    show "a \<noteq> b \<Longrightarrow> group_order compare a b \<le> 0 \<or> group_order compare b a \<le> 0" for a b
      using assms(2) [of a b] by (auto simp: o)
    show "distinct (map fst (group_map ss))"
      using group_map_spec by blast
  qed
  then show ?thesis
    by (simp add: o)
qed

definition plain_server :: "int \<Rightarrow> js_string \<Rightarrow> server" where
  "plain_server i g =
     \<lparr>sv_id = i, sv_protocol = None, sv_rdp_domain = None, sv_rdp_cert_fingerprint = None, sv_name = [],
      sv_host_key = [], sv_host = js ''h'', sv_port = 22, sv_username = js ''u'', sv_auth_type = js ''key'',
      sv_description = [], sv_group = g, sv_jump_server_id = None, sv_created_at = [], sv_updated_at = []\<rparr>"

lemma ungrouped_servers_come_last_witness:
  "sorted_wrt (\<lambda>a b. a \<noteq> ungrouped) (groups (\<lambda>a b. int (length a) - int (length b))
     [plain_server 1 [], plain_server 2 (js ''db''), plain_server 3 (js ''a'')])"
proof -
  have "sorted_wrt (\<lambda>a b. a \<noteq> ungrouped \<and> (b = ungrouped \<or> int (length a) - int (length b) \<le> 0))
      (groups (\<lambda>a b. int (length a) - int (length b))
        [plain_server 1 [], plain_server 2 (js ''db''), plain_server 3 (js ''a'')])"
    by (rule ungrouped_servers_come_last) auto
  then show ?thesis
    by (rule sorted_wrt_mono_rel [rotated]) auto
qed

definition sidebar_inv :: "sidebar \<Rightarrow> bool" where
  "sidebar_inv b \<longleftrightarrow>
     (\<forall>s. file_manager_server b = Some s \<longrightarrow> sv_protocol s \<noteq> Some Rdp) \<and>
     distinct (fetching b) \<and> (\<forall>n \<in> set (fetching b). n < next_fetch b) \<and>
     (sb_loading b \<longrightarrow> fetching b \<noteq> [])"

lemma fetch_servers_inv: "sidebar_inv b \<Longrightarrow> sidebar_inv (fetch_servers b)"
  by (auto simp: sidebar_inv_def fetch_servers_def less_Suc_eq)

lemma sidebar_step_inv: "sidebar_inv b \<Longrightarrow> sidebar_inv (sidebar_step b e)"
proof (cases e)
  case Modal_Ok
  assume "sidebar_inv b"
  then have "sidebar_inv (b\<lparr>modal_open := False, editing := None\<rparr>)"
    by (simp add: sidebar_inv_def)
  then show ?thesis
    using Modal_Ok by (simp add: handle_modal_ok_def fetch_servers_inv)
next
  case (Delete_Reply r)
  assume b: "sidebar_inv b"
  then have "sidebar_inv (b\<lparr>sb_toasts := sb_toasts b @ [Toast_Success sb_msg_deleted]\<rparr>)"
    by (simp add: sidebar_inv_def)
  then show ?thesis
    using Delete_Reply b by (simp add: on_deleted_def fetch_servers_inv split: sum.split)
qed (auto simp: sidebar_inv_def on_servers_def add_server_def modal_cancel_def choose_item_def menu_for_def
    connect_server_def handle_test_def handle_edit_def files_button_def confirm_delete_def on_tested_def
    on_card_touch_start_def clear_long_press_def on_long_press_def on_card_click_def on_open_change_def
    toggle_group_def Let_def split: menu_item.split sum.split option.split)

lemma init_sidebar_inv: "sidebar_inv init_sidebar"
  by (simp add: init_sidebar_def fetch_servers_def sidebar_inv_def)

interpretation sidebar: machine sidebar_step sidebar_inv
  by unfold_locales (rule sidebar_step_inv)

text \<open>
  The file manager is never opened for a remote desktop: in every run of the sidebar the server
  whose files are shown is not an RDP server; and the screen says it is loading only while a request for
  the list is on its way.
\<close>

lemma files_only_for_ssh_servers:
  "map_option sv_protocol (file_manager_server (run sidebar_step init_sidebar es)) \<noteq> Some (Some Rdp)
   \<and> \<not> (sb_loading (run sidebar_step init_sidebar es) \<and> fetching (run sidebar_step init_sidebar es) = [])"
  using sidebar.run_inv [OF init_sidebar_inv, of es] by (auto simp: sidebar_inv_def)

text \<open>
  A long press opens the menu and does not connect: the click that ends it is swallowed and the
  next one connects; a touch that ends or moves before the timer leaves the menu closed, and its click
  connects.
\<close>

lemma long_press_swallows_one_click:
  "touch_menu (run sidebar_step b [Touch_Start s 1, Long_Press, Touch_Over]) = Some (sv_id s)
   \<and> connects (run sidebar_step b [Touch_Start s 1, Long_Press, Touch_Over, Card_Clicked s]) = connects b
   \<and> connects (run sidebar_step b [Touch_Start s 1, Long_Press, Touch_Over, Card_Clicked s, Card_Clicked s])
     = connects b @ [s]
   \<and> touch_menu (run sidebar_step b [Touch_Start s 1, Touch_Over, Long_Press]) = touch_menu b
   \<and> connects (run sidebar_step b [Touch_Start s 1, Touch_Over, Long_Press, Card_Clicked s]) = connects b @ [s]"
  by (simp add: on_card_touch_start_def clear_long_press_def on_long_press_def on_card_click_def
      connect_server_def)

text \<open>
  An older list can replace a newer one: replies are shown in the order they arrive, so when the
  reply to an earlier request comes after the reply to a later one, the list on display is the earlier
  answer; a server deleted in between is shown again.
\<close>

lemma older_list_can_win:
  assumes "m \<in> set (fetching b)" and "n \<in> set (fetching b)" and "m < n"
  shows "servers (run sidebar_step b [Servers_Reply n (Inr (Some new)), Servers_Reply m (Inr (Some old))]) = old"
  using assms by (simp add: on_servers_def)

lemma older_list_can_win_witness:
  "servers (run sidebar_step (sidebar_step init_sidebar Modal_Ok)
     [Servers_Reply 1 (Inr (Some [])), Servers_Reply 0 (Inr (Some [plain_server 1 []]))]) = [plain_server 1 []]"
  by (rule older_list_can_win) (simp_all add: init_sidebar_def fetch_servers_def handle_modal_ok_def)


end
