(* ===== verification/Sidebar_View.thy ===== *)
theory Sidebar_View
  imports Sidebar View
begin

text \<open>
  The sidebar as it is shown (\<open>components/ServerSidebar.tsx\<close>): the tools, the groups with a card per
  server, the summary, and the dialogs over it.
\<close>

section \<open>A card\<close>

definition lbl_sb_loading :: js_string where "lbl_sb_loading = [0x52A0, 0x8F7D, 0x670D, 0x52A1, 0x5668, 0x2026]"
definition lbl_sb_add :: js_string where "lbl_sb_add = [0x6DFB, 0x52A0, 0x670D, 0x52A1, 0x5668]"
definition lbl_no_match :: js_string where "lbl_no_match = [0x65E0, 0x5339, 0x914D, 0x7ED3, 0x679C]"
definition lbl_no_server :: js_string where "lbl_no_server = [0x6682, 0x65E0, 0x670D, 0x52A1, 0x5668]"
definition lbl_sb_connect :: js_string where "lbl_sb_connect = [0x8FDE, 0x63A5]"
definition lbl_sb_files :: js_string where "lbl_sb_files = [0x6587, 0x4EF6, 0x7BA1, 0x7406]"
definition lbl_sb_test :: js_string where "lbl_sb_test = [0x6D4B, 0x8BD5, 0x8FDE, 0x63A5]"
definition lbl_sb_edit :: js_string where "lbl_sb_edit = [0x7F16, 0x8F91]"
definition lbl_sb_delete :: js_string where "lbl_sb_delete = [0x5220, 0x9664]"
definition lbl_hop :: js_string where "lbl_hop = js '' '' @ [0x00B7] @ js '' '' @ [0x8DF3, 0x677F]"
definition lbl_servers :: js_string where "lbl_servers = js '' '' @ [0x53F0, 0x670D, 0x52A1, 0x5668]"
definition lbl_showing :: js_string where "lbl_showing = [0x663E, 0x793A] @ js '' ''"

definition item_label :: "menu_item \<Rightarrow> js_string" where
  "item_label k =
     (case k of
        Connect_Item \<Rightarrow> lbl_sb_connect
      | Files_Item \<Rightarrow> lbl_sb_files
      | Test_Item \<Rightarrow> lbl_sb_test
      | Edit_Item \<Rightarrow> lbl_sb_edit
      | Delete_Item \<Rightarrow> lbl_sb_delete)"

definition menu_controls :: "server \<Rightarrow> sidebar_event control list" where
  "menu_controls s = map (\<lambda>k. button (item_label k) True (Item_Chosen s k)) (menu_for s)"

definition name_text :: "server \<Rightarrow> js_string" where
  "name_text s = sv_name s @ (if sv_protocol s = Some Rdp then js '' '' @ [0x00B7] @ js '' RDP'' else [])"

text \<open>A jump server 0 would be shown as that number; the server never has one.\<close>

definition address_text :: "server \<Rightarrow> js_string" where
  "address_text s =
     sv_username s @ js ''@'' @ sv_host s @ js '':'' @ int_digits (sv_port s) @
     (case sv_jump_server_id s of None \<Rightarrow> [] | Some i \<Rightarrow> if i = 0 then js ''0'' else lbl_hop)"

record card =
  cd_key :: int
  cd_active :: bool
  cd_connect :: "sidebar_event control"
  cd_name :: js_string
  cd_address :: js_string
  cd_files :: "sidebar_event control option"
  cd_menu :: "sidebar_event control list"
  cd_menu_open :: bool

definition server_card :: "int option \<Rightarrow> sidebar \<Rightarrow> server \<Rightarrow> card" where
  "server_card active b s =
     \<lparr>cd_key = sv_id s, cd_active = (active = Some (sv_id s)),
      cd_connect = button (lbl_sb_connect @ js '' '' @ sv_name s) True (Card_Clicked s),
      cd_name = name_text s, cd_address = address_text s,
      cd_files = (if sv_protocol s = Some Rdp then None
                  else Some (button (lbl_sb_files @ js '' '' @ sv_name s) True (Files_Clicked s))),
      cd_menu = menu_controls s, cd_menu_open = (touch_menu b = Some (sv_id s))\<rparr>"

section \<open>The sidebar\<close>

record group_view =
  gv_toggle :: "sidebar_event control"
  gv_expanded :: bool
  gv_count :: nat
  gv_cards :: "card list"

definition group_view_of ::
    "int option \<Rightarrow> sidebar \<Rightarrow> (js_string \<times> server list) list \<Rightarrow> js_string \<Rightarrow> group_view" where
  "group_view_of active b gm g =
     (let ss = the (map_of gm g)
      in \<lparr>gv_toggle = button g True (Group_Toggled g), gv_expanded = (\<not> is_collapsed b g),
          gv_count = length ss, gv_cards = (if is_collapsed b g then [] else map (server_card active b) ss)\<rparr>)"

record sidebar_view =
  vw_add :: "sidebar_event control"
  vw_empty :: "js_string option"
  vw_groups :: "group_view list"
  vw_summary :: js_string
  vw_form :: "server option option"
  vw_files :: "server option"

definition summary_text :: "js_string \<Rightarrow> nat \<Rightarrow> nat \<Rightarrow> js_string" where
  "summary_text q shown_count all_count =
     (if truthy q then lbl_showing @ nat_digits shown_count @ js '' / '' @ nat_digits all_count @ lbl_servers
      else nat_digits all_count @ lbl_servers)"

text \<open>What is rendered; nothing but a notice while the first list is loading.\<close>

definition render_sidebar ::
    "(js_string \<Rightarrow> js_string) \<Rightarrow> (js_string \<Rightarrow> js_string \<Rightarrow> int) \<Rightarrow> int option \<Rightarrow> sidebar \<Rightarrow>
      js_string + sidebar_view" where
  "render_sidebar lower compare active b =
     (if sb_loading b then Inl lbl_sb_loading
      else (let ss = filtered lower (search b) (servers b)
        in Inr \<lparr>vw_add = button lbl_sb_add True Add_Clicked,
             vw_empty = (if ss \<noteq> [] then None
                         else Some (if servers b \<noteq> [] then lbl_no_match else lbl_no_server)),
             vw_groups = (if ss = [] then []
                          else map (group_view_of active b (group_map ss)) (groups compare ss)),
             vw_summary = summary_text (search b) (length ss) (length (servers b)),
             vw_form = (if modal_open b then Some (editing b) else None),
             vw_files = file_manager_server b\<rparr>))"

section \<open>Every match is shown\<close>

lemma group_of_servers:
  assumes "g \<in> set (groups compare ss)"
  shows "the (map_of (group_map ss) g) = filter (\<lambda>s. group_name s = g) ss"
  using assms grouping_loses_no_server [of compare ss] by auto

lemma shown_cards:
  "concat (map gv_cards (map (group_view_of active b (group_map ss)) (groups compare ss)))
    = map (server_card active b) (concat (map (\<lambda>g. filter (\<lambda>s. group_name s = g)
        (filter (\<lambda>s. \<not> is_collapsed b (group_name s)) ss)) (groups compare ss)))"
proof -
  have "gv_cards (group_view_of active b (group_map ss) g)
      = map (server_card active b) (filter (\<lambda>s. group_name s = g) (filter (\<lambda>s. \<not> is_collapsed b (group_name s)) ss))"
    if "g \<in> set (groups compare ss)" for g
    using group_of_servers [OF that]
    by (auto simp: group_view_of_def Let_def filter_empty_conv intro!: arg_cong [where f = "map _"] filter_cong)
  then show ?thesis
    by (simp add: map_concat o_def cong: map_cong)
qed

lemma shown_cards_mset:
  "mset (concat (map gv_cards (map (group_view_of active b (group_map ss)) (groups compare ss))))
    = mset (map (server_card active b) (filter (\<lambda>s. \<not> is_collapsed b (group_name s)) ss))"
proof -
  let ?us = "filter (\<lambda>s. \<not> is_collapsed b (group_name s)) ss"
  have g: "distinct (groups compare ss)" "set (groups compare ss) = group_name ` set ss"
    using grouping_loses_no_server [of compare ss] by auto
  have "filter (\<lambda>s. group_name s \<in> set (groups compare ss)) ?us = ?us"
    by (rule filter_True) (auto simp: g(2))
  then have "mset (concat (map (\<lambda>g. filter (\<lambda>s. group_name s = g) ?us) (groups compare ss))) = mset ?us"
    using mset_by_group [OF g(1), of group_name ?us] by simp
  then show ?thesis
    unfolding shown_cards mset_map by simp
qed

lemma counted_servers:
  "sum_list (map gv_count (map (group_view_of active b (group_map ss)) (groups compare ss))) = length ss"
proof -
  have "length (concat (map (\<lambda>g. the (map_of (group_map ss) g)) (groups compare ss))) = length ss"
    using grouping_loses_no_server [of compare ss] mset_eq_length by blast
  then show ?thesis
    by (simp add: length_concat o_def group_view_of_def Let_def)
qed

text \<open>
  Claim C37. The sidebar shows every match: each server the search keeps is counted in one group and, unless its group
  is collapsed, has exactly one card there, whatever \<open>localeCompare\<close> says; a server of a collapsed group is one
  click on its heading away. Nothing else is shown, and the notice that there is nothing only when that is so.
\<close>

theorem the_sidebar_shows_every_match:
  assumes "render_sidebar lower compare active b = Inr v"
  shows "(vw_empty v = None \<longleftrightarrow> filtered lower (search b) (servers b) \<noteq> [])
    \<and> sum_list (map gv_count (vw_groups v)) = length (filtered lower (search b) (servers b))
    \<and> mset (concat (map gv_cards (vw_groups v)))
      = mset (map (server_card active b)
          (filter (\<lambda>s. \<not> is_collapsed b (group_name s)) (filtered lower (search b) (servers b))))
    \<and> (\<forall>s \<in> set (filtered lower (search b) (servers b)). is_collapsed b (group_name s) \<longrightarrow>
        (\<exists>v'. render_sidebar lower compare active (sidebar_step b (Group_Toggled (group_name s))) = Inr v'
          \<and> server_card active b s \<in> set (concat (map gv_cards (vw_groups v')))))"
proof -
  let ?ss = "filtered lower (search b) (servers b)"
  have l: "\<not> sb_loading b"
    using assms by (auto simp: render_sidebar_def split: if_splits)
  then have v: "vw_empty v = None \<longleftrightarrow> ?ss \<noteq> []"
    "vw_groups v = (if ?ss = [] then [] else map (group_view_of active b (group_map ?ss)) (groups compare ?ss))"
    using assms by (auto simp: render_sidebar_def Let_def)
  have click: "\<exists>v'. render_sidebar lower compare active (sidebar_step b (Group_Toggled (group_name s))) = Inr v'
      \<and> server_card active b s \<in> set (concat (map gv_cards (vw_groups v')))"
    if s: "s \<in> set ?ss" "is_collapsed b (group_name s)" for s
  proof -
    let ?b = "sidebar_step b (Group_Toggled (group_name s))"
    have b: "\<not> sb_loading ?b" "search ?b = search b" "servers ?b = servers b" "server_card active ?b = server_card active b"
      "\<not> is_collapsed ?b (group_name s)"
      using l s(2) by (auto simp: toggle_group_def is_collapsed_def [of "b\<lparr>collapsed := _\<rparr>"] server_card_def fun_eq_iff)
    obtain v' where v': "render_sidebar lower compare active ?b = Inr v'"
      "vw_groups v' = (if ?ss = [] then [] else map (group_view_of active ?b (group_map ?ss)) (groups compare ?ss))"
      using b by (simp add: render_sidebar_def Let_def)
    have "vw_groups v' = map (group_view_of active ?b (group_map ?ss)) (groups compare ?ss)"
      using v'(2) s(1) by auto
    then have "mset (concat (map gv_cards (vw_groups v')))
        = mset (map (server_card active b) (filter (\<lambda>s. \<not> is_collapsed ?b (group_name s)) ?ss))"
      by (simp only: shown_cards_mset b(4))
    then have "set (concat (map gv_cards (vw_groups v')))
        = set (map (server_card active b) (filter (\<lambda>s. \<not> is_collapsed ?b (group_name s)) ?ss))"
      by (rule mset_eq_setD)
    then have "server_card active b s \<in> set (concat (map gv_cards (vw_groups v')))"
      using s(1) b(5) by simp
    then show ?thesis
      using v'(1) by blast
  qed
  show ?thesis
    using v click counted_servers [of active b ?ss compare] shown_cards_mset [of active b ?ss compare]
    by (cases "?ss = []") simp_all
qed

theorem the_sidebar_shows_every_match_witness:
  "\<exists>v. render_sidebar id (\<lambda>a b. 0) None (sidebar_step init_sidebar (Servers_Reply 0 (Inr (Some [plain_server 1 []])))) = Inr v
     \<and> length (concat (map gv_cards (vw_groups v))) = 1"
proof -
  let ?b = "sidebar_step init_sidebar (Servers_Reply 0 (Inr (Some [plain_server 1 []])))"
  have b: "\<not> sb_loading ?b" "filtered id (search ?b) (servers ?b) = [plain_server 1 []]" "collapsed ?b = Map.empty"
    by (simp_all add: init_sidebar_def fetch_servers_def on_servers_def filtered_def server_matches_def truthy_def)
  then obtain v where v: "render_sidebar id (\<lambda>a b. 0) None ?b = Inr v"
    by (simp add: render_sidebar_def Let_def)
  have "\<not> is_collapsed ?b (group_name (plain_server 1 []))"
    unfolding is_collapsed_def b(3)
    by (simp add: group_name_def plain_server_def truthy_def object_members_def ungrouped_def js_def of_char_def)
  then have "mset (concat (map gv_cards (vw_groups v))) = {#server_card None ?b (plain_server 1 [])#}"
    using the_sidebar_shows_every_match [OF v] unfolding b(2) by simp
  then show ?thesis
    using v size_mset [of "concat (map gv_cards (vw_groups v))"] by auto
qed

text \<open>
  A group whose name is that of a member every object inherits is collapsed before anyone touched it,
  and the first click on its heading expands it.
\<close>

lemma inherited_names_start_collapsed:
  assumes "g \<in> set object_members"
  shows "is_collapsed init_sidebar g \<and> \<not> is_collapsed (sidebar_step init_sidebar (Group_Toggled g)) g"
  using assms by (simp add: is_collapsed_def toggle_group_def init_sidebar_def fetch_servers_def)

end
