(* ===== verification/Rdp.thy ===== *)
theory Rdp
  imports Auth Terminal_Connection
begin

text \<open>
  Remote desktops: the page inside the frame (\<open>rdp/client.ts\<close>) and the tab that owns the frame
  (\<open>components/RdpTab.tsx\<close>).

  The RDP engine is outside the repository. What it does reaches the page as events: it becomes ready, a
  connection attempt settles, a session ends; what the page asks of it is recorded in \<open>engine\<close>. Whether
  its configuration builder raises is an argument of the submit event.
\<close>

section \<open>Sizes\<close>

text \<open>\<open>Math.floor(n / 2) * 2\<close>, clamped.\<close>

definition even_clamped :: "nat \<Rightarrow> nat \<Rightarrow> nat \<Rightarrow> nat" where
  "even_clamped lo hi n = max lo (min hi ((n div 2) * 2))"

definition desktop_size :: "nat \<Rightarrow> nat \<Rightarrow> nat \<times> nat" where
  "desktop_size w h = (even_clamped 320 3840 w, even_clamped 200 2160 h)"

section \<open>State\<close>

record rdp_config =
  cf_username :: js_string
  cf_password :: js_string
  cf_domain :: js_string
  cf_destination :: js_string
  cf_proxy :: js_string
  cf_token :: js_string
  cf_size :: "nat \<times> nat"

datatype engine_call =
    Engine_Connect rdp_config
  | Engine_Resize "nat \<times> nat"
  | Engine_Shutdown
  | Engine_Visible bool
  | Engine_Keys
  | Engine_Paste
  | Engine_Copy

record rdp_page =
  rd_server :: "server option"
  rd_token :: js_string
  rd_active :: bool
  rd_ready :: bool
  rd_connected :: bool
  rd_connecting :: bool
  username_input :: js_string
  domain_input :: js_string
  password_input :: js_string
  rd_title :: js_string
  connect_disabled :: bool
  cancel_hidden :: bool
  login_hidden :: bool
  tools_hidden :: bool
  desktop_width :: nat
  desktop_height :: nat
  resize_pending :: bool
  posted :: "connection_status list"
  status_line :: js_string
  engine :: "engine_call list"

text \<open>The page as \<open>rdp.html\<close> loads it.\<close>

definition init_rdp :: "nat \<Rightarrow> nat \<Rightarrow> rdp_page" where
  "init_rdp w h =
     \<lparr>rd_server = None, rd_token = [], rd_active = True, rd_ready = False, rd_connected = False,
      rd_connecting = False, username_input = [], domain_input = [], password_input = [], rd_title = [],
      connect_disabled = True, cancel_hidden = True, login_hidden = False, tools_hidden = True,
      desktop_width = w, desktop_height = h, resize_pending = False, posted = [], status_line = [],
      engine = []\<rparr>"

definition msg_need_https :: js_string where "msg_need_https = [0x5BA2, 0x6237, 0x7AEF, 0x52A0, 0x8F7D, 0x5931, 0x8D25, 0xFF1B, 0x8BF7, 0x4F7F, 0x7528] @ js '' HTTPS '' @ [0x5E76, 0x5237, 0x65B0, 0x91CD, 0x8BD5]"
definition msg_enter_password :: js_string where "msg_enter_password = [0x8BF7, 0x8F93, 0x5165, 0x5BC6, 0x7801, 0x8FDE, 0x63A5]"
definition msg_connecting :: js_string where "msg_connecting = [0x6B63, 0x5728, 0x8FDE, 0x63A5, 0x2026]"
definition msg_connected :: js_string where "msg_connected = [0x5DF2, 0x8FDE, 0x63A5]"
definition msg_session_ended :: js_string where "msg_session_ended = [0x8FDE, 0x63A5, 0x5DF2, 0x65AD, 0x5F00, 0xFF0C, 0x8BF7, 0x91CD, 0x65B0, 0x8F93, 0x5165, 0x5BC6, 0x7801]"
definition msg_rdp_failed :: js_string where "msg_rdp_failed = [0x8FDE, 0x63A5, 0x5931, 0x8D25, 0xFF1A, 0x8BF7, 0x68C0, 0x67E5, 0x7F51, 0x7EDC, 0x3001] @ js ''NLA'' @ [0x3001, 0x8D26, 0x53F7, 0x5BC6, 0x7801, 0x53CA, 0x8BC1, 0x4E66, 0x6307, 0x7EB9]"

definition rdp_status :: "js_string \<Rightarrow> connection_status \<Rightarrow> rdp_page \<Rightarrow> rdp_page" where
  "rdp_status text s p = p\<lparr>status_line := text, posted := posted p @ [s]\<rparr>"

definition ask_engine :: "engine_call list \<Rightarrow> rdp_page \<Rightarrow> rdp_page" where
  "ask_engine cs p = (if rd_ready p then p\<lparr>engine := engine p @ cs\<rparr> else p)"

definition page_size :: "rdp_page \<Rightarrow> nat \<times> nat" where
  "page_size p = desktop_size (desktop_width p) (desktop_height p)"

section \<open>Messages from the tab\<close>

record rdp_init =
  in_server :: server
  in_token :: js_string
  in_active :: bool

text \<open>The listener: only the parent window, of the same origin, with a message of the right type.\<close>

definition on_init :: "bool \<Rightarrow> bool \<Rightarrow> rdp_init option \<Rightarrow> rdp_page \<Rightarrow> rdp_page" where
  "on_init from_parent same_origin data p =
     (if \<not> from_parent \<or> \<not> same_origin then p
      else (case data of
          None \<Rightarrow> p
        | Some d \<Rightarrow>
            (let p1 = (if rd_server p = None then
                         p\<lparr>rd_server := Some (in_server d), rd_title := sv_name (in_server d) @ js '' '' @ [0x00B7] @ js '' RDP'',
                           username_input := sv_username (in_server d),
                           domain_input := or_else (sv_rdp_domain (in_server d)) []\<rparr>
                       else p);
                 p2 = p1\<lparr>rd_token := in_token d, rd_active := in_active d\<rparr>
             in if rd_connected p2 \<and> rd_active p2 then ask_engine [Engine_Resize (page_size p2)] p2 else p2)))"

section \<open>Loading and connecting\<close>

definition on_engine_ready :: "rdp_page \<Rightarrow> rdp_page" where
  "on_engine_ready p =
     rdp_status msg_enter_password Status_Connecting (p\<lparr>rd_ready := True, connect_disabled := False\<rparr>)"

definition on_load_failed :: "rdp_page \<Rightarrow> rdp_page" where
  "on_load_failed p = rdp_status msg_need_https Status_Error p"

definition bracketed :: "js_string \<Rightarrow> js_string" where
  "bracketed host = (if js_includes host (js '':'') then js ''['' @ host @ js '']'' else host)"

definition proxy_url :: "location \<Rightarrow> int \<Rightarrow> js_string" where
  "proxy_url loc i =
     (if loc_protocol loc = js ''https:'' then js ''wss:'' else js ''ws:'') @ js ''//'' @ loc_host loc @
     js ''/api/rdp/'' @ int_digits i"

definition rdp_config_of :: "location \<Rightarrow> server \<Rightarrow> rdp_page \<Rightarrow> rdp_config" where
  "rdp_config_of loc s p =
     \<lparr>cf_username = username_input p, cf_password = password_input p, cf_domain = domain_input p,
      cf_destination = bracketed (sv_host s) @ js '':'' @ int_digits (sv_port s),
      cf_proxy = proxy_url loc (sv_id s), cf_token = rd_token p, cf_size = page_size p\<rparr>"

text \<open>
  The submit handler up to its \<open>await\<close>. The configuration is built before the \<open>try\<close>: when the builder
  raises, what was set before it stays.
\<close>

definition on_submit :: "location \<Rightarrow> bool \<Rightarrow> rdp_page \<Rightarrow> rdp_page" where
  "on_submit loc builds p =
     (case rd_server p of
        None \<Rightarrow> p
      | Some s \<Rightarrow>
          if \<not> rd_ready p \<or> rd_connecting p \<or> rd_connected p then p
          else
            (let p1 = rdp_status msg_connecting Status_Connecting
                        (p\<lparr>rd_connecting := True, connect_disabled := True, cancel_hidden := False\<rparr>)
             in if \<not> builds then p1
                else ask_engine [Engine_Connect (rdp_config_of loc s p1)] (p1\<lparr>password_input := []\<rparr>)))"

text \<open>The \<open>finally\<close> block.\<close>

definition rdp_finally :: "rdp_page \<Rightarrow> rdp_page" where
  "rdp_finally p =
     (ask_engine [Engine_Shutdown, Engine_Visible False] p)
       \<lparr>rd_connected := False, rd_connecting := False, login_hidden := False, tools_hidden := True,
        connect_disabled := False, cancel_hidden := True\<rparr>"

text \<open>The attempt settles: connected, or refused.\<close>

definition on_attempt :: "bool \<Rightarrow> rdp_page \<Rightarrow> rdp_page" where
  "on_attempt ok p =
     (if \<not> rd_connecting p then p
      else if ok then
        (let p1 = rdp_status msg_connected Status_Connected
                    (ask_engine [Engine_Visible True]
                      (p\<lparr>rd_connected := True, rd_connecting := False, cancel_hidden := True,
                         login_hidden := True, tools_hidden := False\<rparr>))
         in ask_engine [Engine_Resize (page_size p1)] p1)
      else rdp_finally (rdp_status msg_rdp_failed Status_Error p))"

text \<open>A session ends, in order or with an exception.\<close>

definition on_session_end :: "bool \<Rightarrow> rdp_page \<Rightarrow> rdp_page" where
  "on_session_end ok p =
     (if \<not> rd_connected p then p
      else rdp_finally (rdp_status (if ok then msg_session_ended else msg_rdp_failed) Status_Error p))"

definition on_observed :: "nat \<Rightarrow> nat \<Rightarrow> rdp_page \<Rightarrow> rdp_page" where
  "on_observed w h p = p\<lparr>desktop_width := w, desktop_height := h, resize_pending := True\<rparr>"

definition on_resize_timer :: "rdp_page \<Rightarrow> rdp_page" where
  "on_resize_timer p =
     (if \<not> resize_pending p then p
      else
        (let p1 = p\<lparr>resize_pending := False\<rparr>
         in if rd_connected p1 \<and> rd_active p1 then ask_engine [Engine_Resize (page_size p1)] p1 else p1))"

definition on_page_hide :: "rdp_page \<Rightarrow> rdp_page" where
  "on_page_hide p = ask_engine [Engine_Shutdown] (p\<lparr>password_input := [], rd_token := []\<rparr>)"

section \<open>Events\<close>

datatype rdp_event =
    Rdp_Init bool bool "rdp_init option"
  | Engine_Ready
  | Load_Failed
  | Type_Username js_string
  | Type_Domain js_string
  | Type_Password js_string
  | Rdp_Submit location bool
  | Attempt_Settled bool
  | Session_Ended bool
  | Disconnect_Clicked
  | Keys_Clicked
  | Paste_Clicked
  | Copy_Clicked
  | Desktop_Observed nat nat
  | Resize_Due
  | Page_Hidden

fun rdp_step :: "rdp_page \<Rightarrow> rdp_event \<Rightarrow> rdp_page" where
  "rdp_step p (Rdp_Init from_parent same_origin d) = on_init from_parent same_origin d p"
| "rdp_step p Engine_Ready = on_engine_ready p"
| "rdp_step p Load_Failed = on_load_failed p"
| "rdp_step p (Type_Username s) = p\<lparr>username_input := s\<rparr>"
| "rdp_step p (Type_Domain s) = p\<lparr>domain_input := s\<rparr>"
| "rdp_step p (Type_Password s) = p\<lparr>password_input := s\<rparr>"
| "rdp_step p (Rdp_Submit loc builds) = on_submit loc builds p"
| "rdp_step p (Attempt_Settled ok) = on_attempt ok p"
| "rdp_step p (Session_Ended ok) = on_session_end ok p"
| "rdp_step p Disconnect_Clicked = ask_engine [Engine_Shutdown] p"
| "rdp_step p Keys_Clicked = ask_engine [Engine_Keys] p"
| "rdp_step p Paste_Clicked = (if rd_active p then ask_engine [Engine_Paste] p else p)"
| "rdp_step p Copy_Clicked = (if rd_active p then ask_engine [Engine_Copy] p else p)"
| "rdp_step p (Desktop_Observed w h) = on_observed w h p"
| "rdp_step p Resize_Due = on_resize_timer p"
| "rdp_step p Page_Hidden = on_page_hide p"

section \<open>The tab that owns the frame\<close>

record rdp_tab =
  tb_server :: server
  tb_active :: bool
  tb_sent :: "rdp_init list"
  tb_reported :: "connection_status list"

datatype frame_message = Frame_Ready | Frame_Status js_string | Frame_Other

definition status_name :: "connection_status \<Rightarrow> js_string" where
  "status_name s = (case s of
       Status_Connecting \<Rightarrow> js ''connecting'' | Status_Connected \<Rightarrow> js ''connected''
     | Status_Error \<Rightarrow> js ''error'')"

definition status_of_name :: "js_string \<Rightarrow> connection_status option" where
  "status_of_name n = find (\<lambda>s. status_name s = n) [Status_Connecting, Status_Connected, Status_Error]"

definition tab_send :: "storage \<Rightarrow> rdp_tab \<Rightarrow> rdp_tab" where
  "tab_send st t =
     t\<lparr>tb_sent := tb_sent t @
        [\<lparr>in_server = tb_server t, in_token = or_else (get_item st client_token_key) [],
          in_active = tb_active t\<rparr>]\<rparr>"

definition tab_message :: "bool \<Rightarrow> bool \<Rightarrow> frame_message \<Rightarrow> storage \<Rightarrow> rdp_tab \<Rightarrow> rdp_tab" where
  "tab_message same_origin from_frame m st t =
     (if \<not> same_origin \<or> \<not> from_frame then t
      else (case m of
          Frame_Ready \<Rightarrow> tab_send st t
        | Frame_Status n \<Rightarrow>
            (case status_of_name n of Some s \<Rightarrow> t\<lparr>tb_reported := tb_reported t @ [s]\<rparr> | None \<Rightarrow> t)
        | Frame_Other \<Rightarrow> t))"

text \<open>The effect when the server or the visibility changes.\<close>

definition tab_effect :: "storage \<Rightarrow> bool \<Rightarrow> rdp_tab \<Rightarrow> rdp_tab" where
  "tab_effect st active t = tab_send st (t\<lparr>tb_active := active\<rparr>)"

section \<open>Invariant\<close>

definition rdp_inv :: "rdp_page \<Rightarrow> bool" where
  "rdp_inv p \<longleftrightarrow>
     \<not> (rd_connected p \<and> rd_connecting p) \<and> (login_hidden p \<longleftrightarrow> rd_connected p) \<and>
     (tools_hidden p \<longleftrightarrow> \<not> rd_connected p) \<and> (cancel_hidden p \<longleftrightarrow> \<not> rd_connecting p) \<and>
     (rd_connected p \<or> rd_connecting p \<longrightarrow> rd_ready p \<and> rd_server p \<noteq> None) \<and>
     (\<not> rd_ready p \<longrightarrow> engine p = [])"

lemma ask_engine_fields [simp]:
  "rd_connected (ask_engine cs p) = rd_connected p" "rd_connecting (ask_engine cs p) = rd_connecting p"
  "login_hidden (ask_engine cs p) = login_hidden p" "tools_hidden (ask_engine cs p) = tools_hidden p"
  "cancel_hidden (ask_engine cs p) = cancel_hidden p" "rd_ready (ask_engine cs p) = rd_ready p"
  "rd_server (ask_engine cs p) = rd_server p" "password_input (ask_engine cs p) = password_input p"
  "rd_token (ask_engine cs p) = rd_token p" "rd_active (ask_engine cs p) = rd_active p"
  "engine (ask_engine cs p) = (if rd_ready p then engine p @ cs else engine p)"
  by (simp_all add: ask_engine_def)

lemma rdp_status_fields [simp]:
  "rd_connected (rdp_status x s p) = rd_connected p" "rd_connecting (rdp_status x s p) = rd_connecting p"
  "login_hidden (rdp_status x s p) = login_hidden p" "tools_hidden (rdp_status x s p) = tools_hidden p"
  "cancel_hidden (rdp_status x s p) = cancel_hidden p" "rd_ready (rdp_status x s p) = rd_ready p"
  "rd_server (rdp_status x s p) = rd_server p" "password_input (rdp_status x s p) = password_input p"
  "rd_token (rdp_status x s p) = rd_token p" "rd_active (rdp_status x s p) = rd_active p"
  "engine (rdp_status x s p) = engine p" "username_input (rdp_status x s p) = username_input p"
  "domain_input (rdp_status x s p) = domain_input p" "posted (rdp_status x s p) = posted p @ [s]"
  by (simp_all add: rdp_status_def)

lemmas rdp_ops =
  on_init_def on_engine_ready_def on_load_failed_def on_submit_def on_attempt_def on_session_end_def
  rdp_finally_def on_observed_def on_resize_timer_def on_page_hide_def

lemma rdp_step_inv: "rdp_inv p \<Longrightarrow> rdp_inv (rdp_step p e)"
  by (cases e) (auto simp: rdp_inv_def rdp_ops Let_def split: option.splits)

lemma init_rdp_inv: "rdp_inv (init_rdp w h)"
  by (simp add: init_rdp_def rdp_inv_def)

interpretation rdp: machine rdp_step rdp_inv
  by unfold_locales (rule rdp_step_inv)

section \<open>Properties\<close>

text \<open>
  The desktop size asked of a server is always one RDP allows: even in both directions, between
  320 and 3840 wide and between 200 and 2160 high; within those bounds it is the largest even size that
  fits the element.
\<close>

lemma desktop_size_is_valid:
  "case desktop_size w h of
     (x, y) \<Rightarrow> even x \<and> 320 \<le> x \<and> x \<le> 3840 \<and> even y \<and> 200 \<le> y \<and> y \<le> 2160
       \<and> (w < 320 \<or> 3840 < w \<or> (x \<le> w \<and> w \<le> x + 1)) \<and> (h < 200 \<or> 2160 < h \<or> (y \<le> h \<and> h \<le> y + 1))"
  by (auto simp: desktop_size_def even_clamped_def max_def min_def)

text \<open>
  The page's controls follow its state: in every run it is never connected and connecting at
  once, the login form is hidden exactly while connected, the tools are hidden exactly while not, the
  cancel button is shown exactly while connecting, and it only connects once the engine is ready and a
  server is known.
\<close>

lemma rdp_controls_follow_the_state:
  assumes "p = run rdp_step (init_rdp w h) es"
  shows "\<not> (rd_connected p \<and> rd_connecting p) \<and> login_hidden p = rd_connected p
    \<and> tools_hidden p = (\<not> rd_connected p) \<and> cancel_hidden p = (\<not> rd_connecting p)
    \<and> (\<not> rd_connected p \<and> \<not> rd_connecting p \<or> rd_ready p \<and> rd_server p \<noteq> None)"
  using rdp.run_inv [OF init_rdp_inv, of w h es] assms by (auto simp: rdp_inv_def)

lemma rdp_controls_follow_the_state_witness:
  "login_hidden (run rdp_step (init_rdp 800 600) [Engine_Ready, Session_Ended True])
   = rd_connected (run rdp_step (init_rdp 800 600) [Engine_Ready, Session_Ended True])"
  using rdp_controls_follow_the_state [OF refl, of 800 600 "[Engine_Ready, Session_Ended True]"] by blast

text \<open>The engine calls a step makes.\<close>

definition new_calls :: "rdp_page \<Rightarrow> rdp_event \<Rightarrow> engine_call list" where
  "new_calls p e = drop (length (engine p)) (engine (rdp_step p e))"

text \<open>
  A password is used once: a step asks the engine to connect only when the form is submitted
  with no attempt or session under way, at most once, with the password, user and token the page holds and
  the server it is bound to; and the password field is empty afterwards.
\<close>

lemma password_is_used_once:
  assumes "Engine_Connect cf \<in> set (new_calls p e)"
  shows "\<exists>loc s. e = Rdp_Submit loc True \<and> rd_server p = Some s \<and> \<not> rd_connecting p \<and> \<not> rd_connected p
    \<and> cf_password cf = password_input p \<and> cf_token cf = rd_token p \<and> cf_username cf = username_input p
    \<and> cf_proxy cf = proxy_url loc (sv_id s) \<and> new_calls p e = [Engine_Connect cf]
    \<and> password_input (rdp_step p e) = [] \<and> rd_connecting (rdp_step p e)"
proof (cases e)
  case (Rdp_Submit loc builds)
  then show ?thesis
    using assms
    by (auto simp: new_calls_def on_submit_def rdp_config_of_def Let_def split: option.splits if_splits)
qed (use assms in \<open>auto simp: new_calls_def rdp_ops Let_def split: option.splits if_splits\<close>)

lemma password_is_used_once_witness:
  "\<exists>p cf. new_calls p (Rdp_Submit \<lparr>loc_protocol = js ''https:'', loc_host = js ''h''\<rparr> True) = [Engine_Connect cf]
     \<and> cf_password cf = js ''secret''"
proof -
  let ?loc = "\<lparr>loc_protocol = js ''https:'', loc_host = js ''h''\<rparr>"
  let ?s = "\<lparr>sv_id = 4, sv_protocol = Some Rdp, sv_rdp_domain = None, sv_rdp_cert_fingerprint = None,
      sv_name = [], sv_host_key = [], sv_host = js ''h'', sv_port = 3389, sv_username = [],
      sv_auth_type = [], sv_description = [], sv_group = [], sv_jump_server_id = None,
      sv_created_at = [], sv_updated_at = []\<rparr>"
  let ?p = "(init_rdp 800 600)\<lparr>rd_server := Some ?s, rd_ready := True, password_input := js ''secret''\<rparr>"
  obtain cf where cf: "Engine_Connect cf \<in> set (new_calls ?p (Rdp_Submit ?loc True))"
    by (simp add: new_calls_def on_submit_def init_rdp_def Let_def)
  from password_is_used_once [OF this] show ?thesis
    by (auto intro!: exI [of _ ?p] exI [of _ cf])
qed

text \<open>
  A frame belongs to one server for good: once it has taken a server, no message, from the tab
  or from anyone else, gives it another one; and a message that is not from the parent window of the same
  origin changes nothing.
\<close>

lemma frame_keeps_its_server:
  assumes "rd_server p = Some s"
  shows "rd_server (run rdp_step p es) = Some s
    \<and> rdp_step p (Rdp_Init False same_origin d) = p \<and> rdp_step p (Rdp_Init from_parent False d) = p"
proof -
  have step: "rd_server (rdp_step q e) = Some s" if "rd_server q = Some s" for q e
    using that by (cases e) (auto simp: rdp_ops Let_def split: option.splits)
  have "rd_server q = Some s \<Longrightarrow> rd_server (run rdp_step q es) = Some s" for q
    by (induction es arbitrary: q) (simp_all add: step)
  then show ?thesis
    using assms by (simp add: on_init_def)
qed

lemma frame_keeps_its_server_witness:
  "\<exists>s. rd_server (run rdp_step ((init_rdp 800 600)\<lparr>rd_server := Some s\<rparr>) [Rdp_Init True True None]) = Some s"
  by (intro exI conjunct1 [OF frame_keeps_its_server]) simp

text \<open>
  The tab and its frame understand each other: every status the page posts is reported by the
  tab as that status, any other text is not reported, messages from elsewhere are ignored, and the
  token the tab sends is the stored one and becomes the page's.
\<close>

lemma tab_and_frame_agree:
  "tb_reported (tab_message True True (Frame_Status (status_name s)) st t) = tb_reported t @ [s]
   \<and> (status_of_name n \<noteq> None \<or> tab_message True True (Frame_Status n) st t = t)
   \<and> tab_message False from_frame m st t = t \<and> tab_message same_origin False m st t = t
   \<and> rd_token (on_init True True (Some (last (tb_sent (tab_message True True Frame_Ready st t)))) p)
     = or_else (get_item st client_token_key) []"
proof -
  have "status_of_name (status_name s) = Some s"
    by (cases s) (simp_all add: status_of_name_def status_name_def)
  then show ?thesis
    by (cases "status_of_name n") (simp_all add: tab_message_def tab_send_def on_init_def Let_def)
qed

text \<open>
  A configuration that cannot be built locks the form: the builder runs outside the \<open>try\<close>, so
  when it raises the page says it is connecting, keeps the password in its field, and ignores every
  later submit; no attempt is under way whose end could change that.
\<close>

lemma failed_builder_locks_the_form:
  assumes "rd_server p = Some s" and "rd_ready p" and "\<not> rd_connecting p" and "\<not> rd_connected p"
  shows "rd_connecting (rdp_step p (Rdp_Submit loc False))
    \<and> password_input (rdp_step p (Rdp_Submit loc False)) = password_input p
    \<and> engine (rdp_step p (Rdp_Submit loc False)) = engine p
    \<and> rdp_step (rdp_step p (Rdp_Submit loc False)) (Rdp_Submit loc' builds)
      = rdp_step p (Rdp_Submit loc False)"
  using assms by (auto simp: on_submit_def Let_def split: option.split)

lemma failed_builder_locks_the_form_witness:
  "\<exists>s. rd_connecting (rdp_step ((init_rdp 800 600)\<lparr>rd_server := Some s, rd_ready := True\<rparr>)
     (Rdp_Submit \<lparr>loc_protocol = [], loc_host = []\<rparr> False))"
  by (intro exI conjunct1 [OF failed_builder_locks_the_form]) (simp_all add: init_rdp_def)


end
