(* ===== verification/Jump_Host.thy ===== *)
theory Jump_Host
  imports Gateway
begin

text \<open>
  Jump servers from end to end: what the dialog offers, what the server stores, and what is dialed
  (\<open>components/ServerFormModal.tsx\<close>, \<open>internal/api/server_handler.go\<close>, \<open>internal/api/connection.go\<close>).
\<close>

section \<open>Listed servers\<close>

text \<open>What the form knows of a listed server follows from what the server knows of its row.\<close>

lemma listed_row_ok: "row_ok r \<Longrightarrow> 0 < rw_id r \<Longrightarrow> int64 (rw_id r) \<Longrightarrow>
    (\<And>j. rw_jump_server_id r = Some j \<Longrightarrow> int64 j) \<Longrightarrow> listed_ok (list_item r)"
  by (auto simp: listed_ok_def list_item_def auth_known_def key_choice_def password_choice_def row_ok_def
      ssh_row_ok_def rdp_row_ok_def positive_id_def split: option.splits)

section \<open>Dialing through the chosen server\<close>

lemma jump_row:
  assumes "db_ok d" "rows d j = Some jump" "rw_jump_server_id jump = Some k"
  shows "0 < k \<and> rw_protocol jump \<noteq> js ''rdp'' \<and> 0 < j"
proof -
  have j: "row_ok jump" "0 < j"
    using assms(1,2) by (auto simp: db_ok_def)
  then have "ssh_row_ok jump"
    using assms(3) by (simp add: row_ok_def rdp_row_ok_def)
  then show ?thesis
    using j assms(3) protocol_names(1) by (simp add: ssh_row_ok_def)
qed

lemma second_jump:
  assumes "rw_jump_server_id r = Some j" "0 < j" "j \<noteq> rw_id r" "load j = Some (Some jump)"
    and "rw_jump_server_id jump = Some k" "0 < k" "connection_config dec r = Inr cfg"
  shows "dial_server dec signer load hs net (Some r)
    = (Inl (if request_over net 0 then Cancelled else Second_Jump), [])"
  using assms by (simp add: dial_server_def)

text \<open>
  Claim C40. A jump server that itself jumps is stored but never dialed. When the server chosen in the
  dialog as jump server has a jump server of its own, the form is submitted, the server finds the
  chosen row and writes the new one; from then on every attempt to reach the new server, whatever the
  network, the SSH library and the keys do, ends with the refusal of a second jump (or with the request
  cancelled before), and nothing was opened or sent. Neither the dialog nor the save warns of it.
\<close>

theorem second_jump_is_stored_and_refused:
  assumes "\<And>k n p. length n = nonce_size \<Longrightarrow> unseal k n (seal k n p) = Some p"
    and "aes_key hex_key \<noteq> None"
    and "f = run offered_step init_form es" and "allowed f (Form_Submitted v)"
    and "submitted_form f v = Inr w" and "form_protocol f \<noteq> Rdp" and "\<not> is_edit f"
    and "reuse_server_id f = None" and "jump_server f = Some j"
    and "db_ok d" and "rows d j = Some jump" and "rw_jump_server_id jump = Some k"
  shows "\<exists>job r. start_save (with_key seal rnd hex_key) (server_form_json w) None = Inl job
    \<and> save_step (with_key seal rnd hex_key) True now job d = (Inl (Write_Row False r), d)
    \<and> (\<forall>i signer hs net. i \<noteq> j \<longrightarrow>
         dial_server (\<lambda>c. decrypt unseal c hex_key) signer (\<lambda>i. Some (rows d i)) hs net (Some (r\<lparr>rw_id := i\<rparr>))
         = (Inl (if request_over net 0 then Cancelled else Second_Jump), []))"
proof -
  let ?enc = "with_key seal rnd hex_key" and ?dec = "\<lambda>c. decrypt unseal c hex_key"
  let ?q = "usable (request_of w)"
  obtain r cfg where s: "start_save ?enc (server_form_json w) None = after_current ?enc ?q 0 None"
      "after_jump ?enc ?q 0 None = Inl (Write_Row False r)" "cr_jump_server_id ?q = Some j"
      "rw_jump_server_id r = Some j" "connection_config ?dec r = Inr cfg"
    using typed_form_saved [where unseal = unseal and seal = seal and rnd = rnd, OF assms(1-8)] assms(9) by metis
  note j = jump_row [OF assms(10-12)]
  have c: "\<exists>c. connection_config ?dec (r\<lparr>rw_id := i\<rparr>) = Inr c" for i
    using s(5) by (auto simp: connection_config_def Let_def split: if_splits option.splits)
  have "dial_server ?dec signer (\<lambda>i. Some (rows d i)) hs net (Some (r\<lparr>rw_id := i\<rparr>))
      = (Inl (if request_over net 0 then Cancelled else Second_Jump), [])" if "i \<noteq> j" for i signer hs net
  proof -
    obtain c where "connection_config ?dec (r\<lparr>rw_id := i\<rparr>) = Inr c"
      using c by blast
    then show ?thesis
      using s(4) j that assms(11,12) by (intro second_jump [where j = j and jump = jump and k = k]) auto
  qed
  moreover have "start_save ?enc (server_form_json w) None = Inl (Load_Jump ?q 0 None j)"
    using s(1,3) j by (simp add: after_current_def)
  moreover have "save_step ?enc True now (Load_Jump ?q 0 None j) d = (Inl (Write_Row False r), d)"
    using s(2) assms(11) j by (simp add: save_step_def)
  ultimately show ?thesis
    by blast
qed

section \<open>An example\<close>

definition hop_row :: row where
  "hop_row = sample_row\<lparr>rw_id := 2, rw_jump_server_id := Some 1\<rparr>"

definition hop_db :: database where
  "hop_db = \<lparr>rows = [1 \<mapsto> sample_row, 2 \<mapsto> hop_row], next_id = 3\<rparr>"

lemma hop_rows: "rw_id hop_row = 2" "rw_jump_server_id hop_row = Some 1" "row_ok hop_row"
proof -
  show "rw_id hop_row = 2" "rw_jump_server_id hop_row = Some 1"
    by (simp_all add: hop_row_def)
  have "rw_protocol sample_row = js ''ssh''"
    by (simp add: sample_row_def row_of_def request_of_def sample_server_form_def protocol_names)
  then show "row_ok hop_row"
    using sample_row_ok protocol_names(1) by (simp add: hop_row_def row_ok_def ssh_row_ok_def rdp_row_ok_def)
qed

lemma hop_db_ok: "db_ok hop_db"
  using sample_row_ok hop_rows by (simp add: db_ok_def hop_db_def)

definition hop_form :: form_state where
  "hop_form = run offered_step init_form
     [Form_Opened None, Existing_Reply 1 (Inr (Some [list_item hop_row])), Key_Typed (js ''k''),
      Jump_Chosen (Some 2)]"

lemma jump_offered:
  assumes "fs_open f" "form_protocol f = Ssh" "s \<in> set (reuse_options f)"
  shows "allowed f (Jump_Chosen (Some (sv_id s)))"
proof -
  have "button (option_label s) True (Jump_Chosen (Some (sv_id s))) \<in> set (form_controls f)"
    using assms by (auto simp: form_controls_def render_form_def ssh_part_of_def part_controls_def
        jump_select_def select_offers Let_def)
  then show ?thesis
    by (force simp: allowed_def list_ex_iff)
qed

text \<open>The dialog before the jump server is chosen.\<close>

definition hop_start :: form_state where
  "hop_start = run offered_step init_form
     [Form_Opened None, Existing_Reply 1 (Inr (Some [list_item hop_row])), Key_Typed (js ''k'')]"

lemma hop_start_fields:
  "fs_open hop_start" "form_protocol hop_start = Ssh" "\<not> fs_loading hop_start" "edited hop_start = None"
  "existing_servers hop_start = [list_item hop_row]" "auth_choice hop_start = key_choice"
  "key_source hop_start = New_Key" "reuse_server_id hop_start = None" "private_key_field hop_start = Some (js ''k'')"
proof -
  have "listed_ok (list_item hop_row)"
    by (rule listed_row_ok [OF hop_rows(3)]) (auto simp: hop_rows int64_def)
  then show "fs_open hop_start" "form_protocol hop_start = Ssh" "\<not> fs_loading hop_start" "edited hop_start = None"
    "existing_servers hop_start = [list_item hop_row]" "auth_choice hop_start = key_choice"
    "key_source hop_start = New_Key" "reuse_server_id hop_start = None" "private_key_field hop_start = Some (js ''k'')"
    by (simp_all add: hop_start_def offered_step_def allowed_def init_form_def open_form_def on_existing_def
        type_private_key_def protocol_or_ssh_def Let_def)
qed

lemma hop_form_step: "hop_form = hop_start\<lparr>jump_server := Some 2\<rparr>"
proof -
  have "sv_protocol (list_item hop_row) \<noteq> Some Rdp"
    using jump_row [OF hop_db_ok, of 2 hop_row] hop_rows by (simp add: hop_db_def list_item_def)
  then have "list_item hop_row \<in> set (reuse_options hop_start)"
    by (simp add: reuse_options_def hop_start_fields)
  then have "allowed hop_start (Jump_Chosen (Some (sv_id (list_item hop_row))))"
    using jump_offered hop_start_fields by blast
  then have "allowed hop_start (Jump_Chosen (Some 2))"
    by (simp add: list_item_def hop_rows)
  then have "offered_step hop_start (Jump_Chosen (Some 2)) = hop_start\<lparr>jump_server := Some 2\<rparr>"
    by (simp add: offered_step_def)
  then show ?thesis
    by (simp add: hop_form_def hop_start_def)
qed

lemma hop_form_ok:
  "allowed hop_form (Form_Submitted typed_fields)" "form_protocol hop_form \<noteq> Rdp" "\<not> is_edit hop_form"
  "reuse_server_id hop_form = None" "jump_server hop_form = Some 2"
  "\<exists>w. submitted_form hop_form typed_fields = Inr w"
proof -
  note h = hop_form_step hop_start_fields
  show "form_protocol hop_form \<noteq> Rdp" "\<not> is_edit hop_form" "reuse_server_id hop_form = None"
    "jump_server hop_form = Some 2"
    by (simp_all add: h is_edit_def)
  have "form_rules hop_form typed_fields"
    by (simp add: form_rules_iff h typed_fields_def empty_form_def js_def)
  then show "allowed hop_form (Form_Submitted typed_fields)"
    by (simp add: allowed_def) (simp add: h)
  show "\<exists>w. submitted_form hop_form typed_fields = Inr w"
    using choices_differ
    by (simp add: h submitted_form_def credentials_of_def or_else_Some truthy_def js_def Let_def)
qed

theorem second_jump_is_stored_and_refused_witness:
  "\<exists>w job r. submitted_form hop_form typed_fields = Inr w
    \<and> start_save (with_key sample_seal (\<lambda>i. 7) sample_key) (server_form_json w) None = Inl job
    \<and> save_step (with_key sample_seal (\<lambda>i. 7) sample_key) True [] job hop_db = (Inl (Write_Row False r), hop_db)
    \<and> dial_server (\<lambda>c. decrypt sample_unseal c sample_key) (\<lambda>k. True) (\<lambda>i. Some (rows hop_db i))
        sample_handshake open_network (Some (r\<lparr>rw_id := 3\<rparr>)) = (Inl Second_Jump, [])"
proof -
  obtain w where w: "submitted_form hop_form typed_fields = Inr w"
    using hop_form_ok by blast
  have k: "aes_key sample_key \<noteq> None"
    by code_simp
  have d: "rows hop_db 2 = Some hop_row" "\<not> request_over open_network 0"
    by (simp_all add: hop_db_def open_network_def)
  obtain job r where "start_save (with_key sample_seal (\<lambda>i. 7) sample_key) (server_form_json w) None = Inl job"
    "save_step (with_key sample_seal (\<lambda>i. 7) sample_key) True [] job hop_db = (Inl (Write_Row False r), hop_db)"
    and r: "\<And>i signer hs net. i \<noteq> 2 \<Longrightarrow>
      dial_server (\<lambda>c. decrypt sample_unseal c sample_key) signer (\<lambda>i. Some (rows hop_db i)) hs net (Some (r\<lparr>rw_id := i\<rparr>))
       = (Inl (if request_over net 0 then Cancelled else Second_Jump), [])"
    using second_jump_is_stored_and_refused [of sample_unseal sample_seal, OF sample_cipher k hop_form_def
        hop_form_ok(1) w hop_form_ok(2-5) hop_db_ok d(1) hop_rows(2), of "\<lambda>i. 7" "[]"] by blast
  then show ?thesis
    using w r [of 3 "\<lambda>k. True" sample_handshake open_network] d(2) by auto
qed

end
