(* ===== verification/Accounts.thy ===== *)
theory Accounts
  imports Terminal_Server Auth
begin

text \<open>
  The account of the administrator (\<open>internal/api/auth_handler.go\<close>, \<open>internal/models/user.go\<close>), its tokens
  and the middleware that asks for them (\<open>internal/auth/auth.go\<close>, \<open>internal/auth/middleware.go\<close>).

  The database serves one query at a time, and those of several requests may come in any order: a setup
  or login is a job that advances by one query per step. bcrypt and the JWT library are the parameters
  \<open>check\<close>, \<open>sign\<close> and \<open>parse\<close>, with the server's secret in them; the salted hash of a password
  comes with the request. Times are in nanoseconds.
\<close>

section \<open>Requests\<close>

text \<open>A Go string made from JSON text: a lone surrogate becomes U+FFFD.\<close>

definition go_json_text :: "js_string \<Rightarrow> js_string" where
  "go_json_text t = concat (map units_of (code_points t))"

definition rune_count :: "js_string \<Rightarrow> nat" where
  "rune_count s = length (code_points s)"

text \<open>The members of \<open>loginRequest\<close> and \<open>setupRequest\<close>; of equal members the last wins.\<close>

fun bind_sign_in :: "(js_string \<times> json) list \<Rightarrow> js_string \<times> js_string \<Rightarrow> (js_string \<times> js_string) option" where
  "bind_sign_in [] r = Some r"
| "bind_sign_in ((k, v) # ms) (u, p) =
     (if names_field k (js ''username'') \<or> names_field k (js ''password'') then
        (case v of
           JNull \<Rightarrow> bind_sign_in ms (u, p)
         | JStr t \<Rightarrow>
             bind_sign_in ms
               (if names_field k (js ''username'') then (go_json_text t, p) else (u, go_json_text t))
         | _ \<Rightarrow> None)
      else bind_sign_in ms (u, p))"

definition decode_sign_in :: "json \<Rightarrow> (js_string \<times> js_string) option" where
  "decode_sign_in body =
     (case body of JObj ms \<Rightarrow> bind_sign_in ms ([], []) | JNull \<Rightarrow> Some ([], []) | _ \<Rightarrow> None)"

definition bind_login :: "json \<Rightarrow> (js_string \<times> js_string) option" where
  "bind_login body =
     (case decode_sign_in body of
        Some (u, p) \<Rightarrow> if u = [] \<or> p = [] then None else Some (u, p)
      | None \<Rightarrow> None)"

text \<open>The validator counts runes.\<close>

definition bind_setup :: "json \<Rightarrow> (js_string \<times> js_string) option" where
  "bind_setup body =
     (case bind_login body of
        Some (u, p) \<Rightarrow>
          if rune_count u < 3 \<or> 64 < rune_count u \<or> rune_count p < 12 then None else Some (u, p)
      | None \<Rightarrow> None)"

text \<open>The body of the frontend's two requests, as it is bound.\<close>

definition sign_in_json :: "js_string \<Rightarrow> js_string \<Rightarrow> json" where
  "sign_in_json user pass = JObj [(js ''username'', JStr user), (js ''password'', JStr pass)]"

lemma sign_in_names [simp]:
  "names_field (js ''username'') (js ''username'')" "names_field (js ''password'') (js ''password'')"
  "\<not> names_field (js ''password'') (js ''username'')"
  by (simp_all add: names_field_def fold_unit_def js_def of_char_def)

lemma code_points_plain:
  "\<not> high_surrogate u \<Longrightarrow> \<not> low_surrogate u \<Longrightarrow> code_points (u # s) = unat u # code_points s"
  by (cases s) auto

lemma replacement_plain: "\<not> high_surrogate 0xFFFD" "\<not> low_surrogate 0xFFFD"
  by (simp_all add: high_surrogate_def low_surrogate_def)

lemma units_of_replacement: "units_of 0xFFFD = [0xFFFD]"
  by (simp add: units_of_def)

lemma code_points_go [simp]: "code_points (go_json_text t) = code_points t"
proof -
  have "code_points (concat (map units_of (code_points t))) = code_points t"
    by (induction t rule: code_points.induct)
      (auto simp: units_of_pair units_of_unit units_of_replacement code_points_plain replacement_plain)
  then show ?thesis
    by (simp add: go_json_text_def)
qed

lemma go_json_text_simps [simp]:
  "rune_count (go_json_text t) = rune_count t" "text_encode (go_json_text t) = text_encode t"
  by (simp_all add: rune_count_def text_encode_def)

lemma go_json_text_empty [simp]: "go_json_text t = [] \<longleftrightarrow> t = []"
proof
  assume "go_json_text t = []"
  then have "code_points t = []"
    using code_points_go [of t] by simp
  then show "t = []"
    by (cases t rule: code_points.cases) (auto split: if_splits)
qed (simp add: go_json_text_def)

lemma go_json_text_id: "well_formed t \<Longrightarrow> go_json_text t = t"
  by (simp add: go_json_text_def units_code_points)

lemma rune_count_ascii: "ascii t \<Longrightarrow> rune_count t = length t"
proof -
  have "ascii t \<Longrightarrow> code_points t = map unat t"
    by (induction t)
      (auto simp: ascii_def code_points_plain high_surrogate_def low_surrogate_def word_le_nat_alt word_less_nat_alt)
  then show "ascii t \<Longrightarrow> rune_count t = length t"
    by (simp add: rune_count_def)
qed

lemma bind_login_body:
  "bind_login (sign_in_json u p) = (if u = [] \<or> p = [] then None else Some (go_json_text u, go_json_text p))"
  by (simp add: bind_login_def decode_sign_in_def sign_in_json_def)

section \<open>Tokens\<close>

record claims =
  cl_user :: int
  cl_name :: js_string
  cl_issuer :: js_string
  cl_issued_at :: int
  cl_expires_at :: "int option"
  cl_not_before :: "int option"

definition seconds :: int where "seconds = 10 ^ 9"

definition numeric_date :: "int \<Rightarrow> int" where
  "numeric_date t = t - t mod seconds"

definition token_life :: int where "token_life = 24 * 60 * 60 * seconds"

definition issuer_name :: js_string where "issuer_name = js ''opsup''"

text \<open>The claims of \<open>GenerateToken\<close>, which reads the clock twice.\<close>

definition token_claims :: "int \<Rightarrow> js_string \<Rightarrow> int \<Rightarrow> int \<Rightarrow> claims" where
  "token_claims i name now now2 =
     \<lparr>cl_user = i, cl_name = name, cl_issuer = issuer_name, cl_issued_at = numeric_date now2,
      cl_expires_at = Some (numeric_date (now + token_life)), cl_not_before = None\<rparr>"

text \<open>\<open>parse\<close> gives the algorithm a token names and its claims, when its signature is that of the secret.\<close>

type_synonym jwt_parser = "js_string \<Rightarrow> (js_string \<times> claims) option"

definition validate_token :: "jwt_parser \<Rightarrow> int \<Rightarrow> js_string \<Rightarrow> claims option" where
  "validate_token parse now t =
     (case parse t of
        None \<Rightarrow> None
      | Some (alg, c) \<Rightarrow>
          if alg = js ''HS256'' \<and> cl_issuer c = issuer_name
            \<and> (case cl_expires_at c of None \<Rightarrow> False | Some e \<Rightarrow> now < e)
            \<and> (case cl_not_before c of None \<Rightarrow> True | Some b \<Rightarrow> b \<le> now)
          then Some c else None)"

text \<open>\<open>JWTAuthMiddleware\<close>: the header's value is split at its first space.\<close>

datatype admission = Rejected js_string | Admitted claims

definition jwt_middleware :: "jwt_parser \<Rightarrow> int \<Rightarrow> js_string option \<Rightarrow> admission" where
  "jwt_middleware parse now header =
     (let h = (case header of None \<Rightarrow> [] | Some v \<Rightarrow> v) in
      if h = [] then Rejected (js ''missing authorization header'')
      else if 0x20 \<notin> set h \<or> takeWhile (\<lambda>u. u \<noteq> 0x20) h \<noteq> js ''Bearer'' then
        Rejected (js ''invalid authorization format'')
      else (case validate_token parse now (tl (dropWhile (\<lambda>u. u \<noteq> 0x20) h)) of
          None \<Rightarrow> Rejected (js ''invalid token'')
        | Some c \<Rightarrow> Admitted c))"

section \<open>The table of users\<close>

record user =
  us_id :: int
  us_name :: js_string
  us_hash :: js_string

text \<open>The insert of \<open>CreateFirstUser\<close> is one statement: nothing when there is a user.\<close>

definition create_first_user :: "js_string \<Rightarrow> js_string \<Rightarrow> user list \<Rightarrow> user option \<times> user list" where
  "create_first_user name hash us =
     (if us \<noteq> [] then (None, us)
      else (let u = \<lparr>us_id = 1, us_name = name, us_hash = hash\<rparr> in (Some u, [u])))"

definition user_by_name :: "js_string \<Rightarrow> user list \<Rightarrow> user option" where
  "user_by_name name us = find (\<lambda>u. us_name u = name) us"

section \<open>Handlers\<close>

datatype auth_reply =
    Initialized bool
  | Token_Reply js_string int js_string
  | Auth_Error nat js_string

datatype auth_job =
    Count_Users json "js_string option"
  | Create_User js_string js_string
  | Find_User js_string js_string

type_synonym signer = "claims \<Rightarrow> js_string option"

definition respond_with_token :: "signer \<Rightarrow> int \<Rightarrow> int \<Rightarrow> user \<Rightarrow> auth_reply" where
  "respond_with_token sign now now2 u =
     (case sign (token_claims (us_id u) (us_name u) now now2) of
        None \<Rightarrow> Auth_Error 500 (js ''failed to create session'')
      | Some t \<Rightarrow> Token_Reply t (now + token_life) (us_name u))"

definition auth_status_reply :: "bool \<Rightarrow> user list \<Rightarrow> auth_reply" where
  "auth_status_reply ok us =
     (if ok then Initialized (us \<noteq> []) else Auth_Error 500 (js ''failed to read initialization status''))"

text \<open>\<open>AuthSetup\<close> after its first query; \<open>hash\<close> is the hash of the password, if bcrypt gives one.\<close>

definition setup_counted :: "json \<Rightarrow> js_string option \<Rightarrow> user list \<Rightarrow> auth_job + auth_reply" where
  "setup_counted body hash us =
     (if us \<noteq> [] then Inr (Auth_Error 403 (js ''already initialized''))
      else (case bind_setup body of
          None \<Rightarrow> Inr (Auth_Error 400 (js ''invalid request''))
        | Some (name, pass) \<Rightarrow>
            if 72 < length (text_encode pass) then
              Inr (Auth_Error 400 (js ''password must not exceed 72 UTF-8 bytes''))
            else (case hash of
                None \<Rightarrow> Inr (Auth_Error 500 (js ''failed to hash password''))
              | Some h \<Rightarrow> Inl (Create_User name h))))"

definition login_found :: "(js_string \<Rightarrow> js_string \<Rightarrow> bool) \<Rightarrow> signer \<Rightarrow> int \<Rightarrow> int \<Rightarrow> js_string \<Rightarrow> user option \<Rightarrow> auth_reply" where
  "login_found check sign now now2 pass found =
     (case found of
        None \<Rightarrow> Auth_Error 401 (js ''invalid credentials'')
      | Some u \<Rightarrow>
          if \<not> check pass (us_hash u) then Auth_Error 401 (js ''invalid credentials'')
          else respond_with_token sign now now2 u)"

text \<open>One query of a job; \<open>ok\<close> says whether it succeeds.\<close>

definition auth_query ::
    "(js_string \<Rightarrow> js_string \<Rightarrow> bool) \<Rightarrow> signer \<Rightarrow> bool \<Rightarrow> int \<Rightarrow> int \<Rightarrow> auth_job \<Rightarrow> user list \<Rightarrow>
      (auth_job + auth_reply) \<times> user list" where
  "auth_query check sign ok now now2 j us =
     (case j of
        Count_Users body hash \<Rightarrow>
          (if ok then setup_counted body hash us
           else Inr (Auth_Error 500 (js ''failed to read initialization status'')), us)
      | Create_User name hash \<Rightarrow>
          if \<not> ok then (Inr (Auth_Error 500 (js ''failed to create administrator'')), us)
          else (case create_first_user name hash us of
              (None, us') \<Rightarrow> (Inr (Auth_Error 403 (js ''already initialized'')), us')
            | (Some u, us') \<Rightarrow> (Inr (respond_with_token sign now now2 u), us'))
      | Find_User name pass \<Rightarrow>
          (if ok then Inr (login_found check sign now now2 pass (user_by_name name us))
           else Inr (Auth_Error 500 (js ''failed to authenticate'')), us))"

section \<open>The server\<close>

record accounts =
  users :: "user list"
  auth_jobs :: "nat \<rightharpoonup> auth_job"
  auth_replies :: "(nat \<times> auth_reply) list"

datatype auth_call =
    Ask_Status nat bool
  | Ask_Setup nat json "js_string option"
  | Ask_Login nat json
  | Next_Query nat bool int int

definition no_accounts :: accounts where
  "no_accounts = \<lparr>users = [], auth_jobs = Map.empty, auth_replies = []\<rparr>"

definition give :: "nat \<Rightarrow> auth_reply \<Rightarrow> accounts \<Rightarrow> accounts" where
  "give n a s = s\<lparr>auth_replies := auth_replies s @ [(n, a)]\<rparr>"

definition continue_with :: "nat \<Rightarrow> auth_job + auth_reply \<Rightarrow> accounts \<Rightarrow> accounts" where
  "continue_with n o1 s =
     (case o1 of
        Inl j \<Rightarrow> s\<lparr>auth_jobs := (auth_jobs s)(n \<mapsto> j)\<rparr>
      | Inr a \<Rightarrow> give n a (s\<lparr>auth_jobs := (auth_jobs s)(n := None)\<rparr>))"

definition accounts_step ::
    "(js_string \<Rightarrow> js_string \<Rightarrow> bool) \<Rightarrow> signer \<Rightarrow> accounts \<Rightarrow> auth_call \<Rightarrow> accounts" where
  "accounts_step check sign s e =
     (case e of
        Ask_Status n ok \<Rightarrow> give n (auth_status_reply ok (users s)) s
      | Ask_Setup n body hash \<Rightarrow>
          if auth_jobs s n = None then continue_with n (Inl (Count_Users body hash)) s else s
      | Ask_Login n body \<Rightarrow>
          if auth_jobs s n = None then
            continue_with n (case bind_login body of
                None \<Rightarrow> Inr (Auth_Error 400 (js ''invalid request''))
              | Some (u, p) \<Rightarrow> Inl (Find_User u p)) s
          else s
      | Next_Query n ok now now2 \<Rightarrow>
          (case auth_jobs s n of
             None \<Rightarrow> s
           | Some j \<Rightarrow>
               (case auth_query check sign ok now now2 j (users s) of
                  (o1, us) \<Rightarrow> continue_with n o1 (s\<lparr>users := us\<rparr>))))"

section \<open>One administrator\<close>

definition token_for :: "signer \<Rightarrow> user \<Rightarrow> js_string \<Rightarrow> bool" where
  "token_for sign u t \<longleftrightarrow> (\<exists>now now2. sign (token_claims (us_id u) (us_name u) now now2) = Some t)"

definition reply_ok :: "signer \<Rightarrow> user list \<Rightarrow> auth_reply \<Rightarrow> bool" where
  "reply_ok sign us a \<longleftrightarrow>
     (case a of Token_Reply t e name \<Rightarrow> (\<exists>u \<in> set us. name = us_name u \<and> token_for sign u t) | _ \<Rightarrow> True)"

definition accounts_ok :: "signer \<Rightarrow> accounts \<Rightarrow> bool" where
  "accounts_ok sign s \<longleftrightarrow>
     length (users s) \<le> 1 \<and> list_all (reply_ok sign (users s)) (map snd (auth_replies s))"

lemma respond_ok: "u \<in> set us \<Longrightarrow> reply_ok sign us (respond_with_token sign now now2 u)"
  by (auto simp: respond_with_token_def reply_ok_def token_for_def split: option.split)

lemma user_by_name_mem: "user_by_name name us = Some u \<Longrightarrow> u \<in> set us \<and> us_name u = name"
  by (auto simp: user_by_name_def find_Some_iff in_set_conv_nth)

lemma login_ok: "reply_ok sign us (login_found check sign now now2 pass (user_by_name name us))"
  using user_by_name_mem [of name us] respond_ok [of _ us sign now now2]
  by (auto simp: login_found_def reply_ok_def split: option.split)

lemma continue_ok:
  "accounts_ok sign s \<Longrightarrow> (case o1 of Inl j \<Rightarrow> True | Inr a \<Rightarrow> reply_ok sign (users s) a) \<Longrightarrow>
   accounts_ok sign (continue_with n o1 s)"
  by (auto simp: accounts_ok_def continue_with_def give_def split: sum.splits)

text \<open>A query leaves the users alone, or it creates the first.\<close>

lemma auth_query_users:
  assumes "auth_query check sign ok now now2 j us = (o1, us')"
  shows "us' = us \<or> us = [] \<and> length us' = 1"
  using assms
  by (cases j) (auto simp: auth_query_def create_first_user_def Let_def split: if_splits)

lemma auth_query_ok:
  assumes "auth_query check sign ok now now2 j us = (o1, us')"
  shows "case o1 of Inl k \<Rightarrow> True | Inr a \<Rightarrow> reply_ok sign us' a"
proof (cases j)
  case (Create_User name hash)
  then show ?thesis
    using assms respond_ok [of _ us' sign now now2]
    by (cases us) (auto simp: auth_query_def create_first_user_def reply_ok_def Let_def split: if_splits)
next
  case (Find_User name pass)
  then show ?thesis
    using assms login_ok [of sign us' check now now2 pass name]
    by (auto simp: auth_query_def reply_ok_def split: if_splits)
qed (use assms in \<open>auto simp: auth_query_def setup_counted_def reply_ok_def split: option.splits if_splits\<close>)

lemma reply_ok_more: "set us \<subseteq> set us' \<Longrightarrow> reply_ok sign us a \<Longrightarrow> reply_ok sign us' a"
  by (auto simp: reply_ok_def split: auth_reply.splits)

lemma accounts_step_ok:
  assumes "accounts_ok sign s"
  shows "accounts_ok sign (accounts_step check sign s e)"
proof (cases e)
  case (Next_Query n ok now now2)
  show ?thesis
  proof (cases "auth_jobs s n")
    case (Some j)
    obtain o1 us where q: "auth_query check sign ok now now2 j (users s) = (o1, us)"
      by fastforce
    have "accounts_ok sign (s\<lparr>users := us\<rparr>)"
      using assms auth_query_users [OF q] by (auto simp: accounts_ok_def list_all_iff reply_ok_more [of "[]" us])
    then show ?thesis
      using Next_Query Some q auth_query_ok [OF q] by (auto simp: accounts_step_def intro!: continue_ok split: sum.splits)
  qed (use assms Next_Query in \<open>simp add: accounts_step_def\<close>)
qed (use assms continue_ok in \<open>auto simp: accounts_step_def accounts_ok_def give_def reply_ok_def auth_status_reply_def
    continue_with_def split: option.splits\<close>)

interpretation accounts: machine "accounts_step check sign" "accounts_ok sign"
  by unfold_locales (rule accounts_step_ok)

lemma no_accounts_ok [simp]: "accounts_ok sign no_accounts"
  by (simp add: accounts_ok_def no_accounts_def)

lemma users_continue [simp]: "users (continue_with n o1 s) = users s"
  by (simp add: continue_with_def give_def split: sum.split)

lemma users_kept:
  assumes "users s \<noteq> []"
  shows "users (run (accounts_step check sign) s es) = users s"
  using assms
proof (induction es arbitrary: s)
  case (Cons e es)
  have "users (accounts_step check sign s e) = users s"
    using Cons.prems auth_query_users
    by (cases e) (fastforce simp: accounts_step_def give_def split: option.splits prod.splits)+
  then show ?case
    using Cons by simp
qed simp

lemma one_user:
  assumes "s = run (accounts_step check sign) no_accounts es"
  shows "length (users s) \<le> 1"
    and "(n, Token_Reply t e name) \<in> set (auth_replies s) \<Longrightarrow>
      \<exists>u. users s = [u] \<and> name = us_name u \<and> token_for sign u t"
proof -
  have ok: "accounts_ok sign s"
    unfolding assms by (rule accounts.run_inv) simp
  then show l: "length (users s) \<le> 1"
    by (simp add: accounts_ok_def)
  assume "(n, Token_Reply t e name) \<in> set (auth_replies s)"
  then have "\<exists>u \<in> set (users s). name = us_name u \<and> token_for sign u t"
    using ok by (force simp: accounts_ok_def list_all_iff reply_ok_def)
  then show "\<exists>u. users s = [u] \<and> name = us_name u \<and> token_for sign u t"
    using l by (cases "users s") auto
qed

text \<open>
  Claim C20. There is one administrator. However setups and logins overlap, whatever their bodies, and
  whichever queries fail: there is never more than one user; once there is one, no later request
  replaces or changes it; and every token in a reply was signed for that user, under its name.
\<close>

theorem one_administrator:
  assumes "s = run (accounts_step check sign) no_accounts es"
  shows "length (users s) \<le> 1
    \<and> (users s = [] \<or> users (run (accounts_step check sign) s es') = users s)
    \<and> ((n, Token_Reply t e name) \<notin> set (auth_replies s)
       \<or> (\<exists>u. users s = [u] \<and> name = us_name u \<and> token_for sign u t))"
  using one_user [OF assms] users_kept by blast

section \<open>Who is let in\<close>

text \<open>What is used of the JWT library: what it signed, it parses, as HS256, to the claims that were signed.\<close>

definition jwt_contract :: "signer \<Rightarrow> jwt_parser \<Rightarrow> bool" where
  "jwt_contract sign parse \<longleftrightarrow>
     (\<forall>c t. sign c = Some t \<longrightarrow> t \<noteq> [] \<and> parse t = Some (js ''HS256'', c))"

text \<open>Nobody without the secret makes a token that verifies: those that do were given out.\<close>

definition unforged :: "jwt_parser \<Rightarrow> accounts \<Rightarrow> bool" where
  "unforged parse s \<longleftrightarrow>
     (\<forall>t c. parse t = Some (js ''HS256'', c) \<longrightarrow> (\<exists>n e name. (n, Token_Reply t e name) \<in> set (auth_replies s)))"

lemma admitted_token:
  assumes "jwt_middleware parse now header = Admitted c"
  obtains t where "header = Some (js ''Bearer '' @ t)" "parse t = Some (js ''HS256'', c)"
proof -
  obtain h where h: "header = Some h" "0x20 \<in> set h" "takeWhile (\<lambda>u. u \<noteq> 0x20) h = js ''Bearer''"
    and v: "validate_token parse now (tl (dropWhile (\<lambda>u. u \<noteq> 0x20) h)) = Some c"
    using assms by (auto simp: jwt_middleware_def Let_def split: option.splits if_splits)
  have d: "dropWhile (\<lambda>u. u \<noteq> 0x20) h \<noteq> []" "hd (dropWhile (\<lambda>u. u \<noteq> 0x20) h) = 0x20"
    using h(2) hd_dropWhile [of "\<lambda>u. u \<noteq> 0x20" h] by (auto simp: dropWhile_eq_Nil_conv)
  have "h = takeWhile (\<lambda>u. u \<noteq> 0x20) h @ [0x20] @ tl (dropWhile (\<lambda>u. u \<noteq> 0x20) h)"
    using d by (metis append_Cons append_Nil list.collapse takeWhile_dropWhile_id)
  then have "h = js ''Bearer '' @ tl (dropWhile (\<lambda>u. u \<noteq> 0x20) h)"
    unfolding h(3) by (simp add: js_def)
  moreover have "parse (tl (dropWhile (\<lambda>u. u \<noteq> 0x20) h)) = Some (js ''HS256'', c)"
    using v by (auto simp: validate_token_def split: option.splits if_splits)
  ultimately show ?thesis
    using that h(1) by blast
qed

lemma admitted_in_time:
  "jwt_middleware parse now header = Admitted c \<Longrightarrow> \<exists>e. cl_expires_at c = Some e \<and> now < e"
  by (auto simp: jwt_middleware_def validate_token_def Let_def split: option.splits if_splits)


section \<open>An example\<close>

text \<open>A library that signs the claims of one moment, with the token \<open>t\<close>.\<close>

definition sample_claims :: claims where
  "sample_claims = token_claims 1 (js ''admin'') 0 0"

definition sample_sign :: signer where
  "sample_sign c = (if c = sample_claims then Some (js ''t'') else None)"

definition sample_parse :: jwt_parser where
  "sample_parse t = (if t = js ''t'' then Some (js ''HS256'', sample_claims) else None)"

definition sample_check :: "js_string \<Rightarrow> js_string \<Rightarrow> bool" where
  "sample_check pass hash \<longleftrightarrow> hash = js ''#'' @ pass"

definition sample_body :: json where
  "sample_body = sign_in_json (js ''admin'') (js ''correct horse'')"

definition sample_setup :: "auth_call list" where
  "sample_setup = [Ask_Setup 0 sample_body (Some (js ''#correct horse'')), Next_Query 0 True 0 0, Next_Query 0 True 0 0]"

definition set_up :: accounts where
  "set_up = run (accounts_step sample_check sample_sign) no_accounts sample_setup"

lemma sample_bound:
  "bind_setup sample_body = Some (js ''admin'', js ''correct horse'')"
  "length (text_encode (js ''correct horse'')) = 13"
proof -
  have a: "ascii (js ''admin'')" "ascii (js ''correct horse'')"
    by (simp_all add: ascii_def js_def of_char_def)
  have "bind_login sample_body = Some (js ''admin'', js ''correct horse'')"
    using a [THEN ascii_well_formed, THEN go_json_text_id]
    by (simp add: sample_body_def bind_login_body)
  then show "bind_setup sample_body = Some (js ''admin'', js ''correct horse'')"
    using a by (simp add: bind_setup_def rune_count_ascii)
  show "length (text_encode (js ''correct horse'')) = 13"
    using a by (simp add: text_encode_ascii)
qed

lemma set_up_is:
  "users set_up = [\<lparr>us_id = 1, us_name = js ''admin'', us_hash = js ''#correct horse''\<rparr>]"
  "auth_replies set_up = [(0, Token_Reply (js ''t'') token_life (js ''admin''))]"
  by (simp_all add: set_up_def sample_setup_def no_accounts_def accounts_step_def continue_with_def
      auth_query_def setup_counted_def sample_bound create_first_user_def respond_with_token_def
      sample_sign_def sample_claims_def give_def Let_def)

lemma sample_jwt_contract: "jwt_contract sample_sign sample_parse"
  by (simp add: jwt_contract_def sample_sign_def sample_parse_def js_def)

lemma sample_unforged: "unforged sample_parse set_up"
  by (auto simp: unforged_def sample_parse_def set_up_is)

theorem one_administrator_witness:
  "length (users set_up) \<le> 1 \<and> users (run (accounts_step sample_check sample_sign) set_up sample_setup) = users set_up"
  using one_administrator [OF set_up_def, of sample_setup] set_up_is(1) by simp


end
