(* ===== verification/Session.thy ===== *)
theory Session
  imports Accounts
begin

text \<open>
  A session from end to end: the setup page's rules and the server's (\<open>pages/SetupPage.tsx\<close>,
  \<open>internal/api/auth_handler.go\<close>), and the way of a token from the login reply through the hook, the storage
  and the interceptor of the client to the middleware (\<open>hooks/useAuth.ts\<close>, \<open>api/client.ts\<close>,
  \<open>internal/auth/middleware.go\<close>).
\<close>

section \<open>The rules of the setup form\<close>

lemma setup_form_rules:
  assumes "\<And>s. required s \<Longrightarrow> s \<noteq> []" and "\<And>n s. at_least n s \<Longrightarrow> n \<le> rune_count s"
    and "setup_accepts required at_least user pass confirm"
  shows "user \<noteq> []" "pass \<noteq> []" "3 \<le> rune_count user" "12 \<le> rune_count pass" "length (text_encode pass) \<le> 72"
  using assms(1) assms(2) [of 3 user] assms(2) [of 12 pass] assms(3)
  by (auto simp: setup_accepts_def password_validator_def truthy_def)

lemma setup_body_bound:
  assumes "user \<noteq> []" "pass \<noteq> []" "3 \<le> rune_count user" "12 \<le> rune_count pass"
  shows "bind_setup (sign_in_json user pass)
    = (if 64 < rune_count user then None else Some (go_json_text user, go_json_text pass))"
  using assms by (simp add: bind_setup_def bind_login_body)

text \<open>
  The setup form and the server disagree on one rule only. A form that is filled in by its own
  rules is refused by a server that has no user yet just when the user name has more than 64 characters: a
  limit of the server the form does not have. Otherwise it is accepted, with the name and password as typed.
\<close>

lemma setup_form_lacks_the_name_limit:
  assumes "\<And>s. required s \<Longrightarrow> s \<noteq> []" and "\<And>n s. at_least n s \<Longrightarrow> n \<le> rune_count s"
    and "setup_accepts required at_least user pass confirm"
    and "rq_body (setup_request user pass) = Json_Body body"
  shows "setup_counted body (Some hash) []
    = (if 64 < rune_count user then Inr (Auth_Error 400 (js ''invalid request''))
       else Inl (Create_User (go_json_text user) hash))"
proof -
  note r = setup_form_rules [OF assms(1-3)]
  have "body = sign_in_json user pass"
    using assms(4) by (simp add: setup_request_def credentials_def call_def sign_in_json_def)
  then show ?thesis
    using setup_body_bound [OF r(1-4)] r(5) by (simp add: setup_counted_def)
qed

section \<open>From the setup to the middleware\<close>

text \<open>What the middleware makes of a request that leaves the client of a page.\<close>

definition served_as :: "jwt_parser \<Rightarrow> int \<Rightarrow> storage \<Rightarrow> request \<Rightarrow> admission" where
  "served_as parse at st rq =
     jwt_middleware parse at (map_of (rq_headers (request_interceptor st rq)) authorization)"

lemma bearer_split:
  "takeWhile (\<lambda>u. u \<noteq> 0x20) (js ''Bearer '' @ t) = js ''Bearer''"
  "dropWhile (\<lambda>u. u \<noteq> 0x20) (js ''Bearer '' @ t) = 0x20 # t"
  "0x20 \<in> set (js ''Bearer '' @ t)" "js ''Bearer '' @ t \<noteq> []"
  by (simp_all add: js_def)

lemma token_is_sent:
  assumes "get_item st client_token_key = Some t" "t \<noteq> []"
  shows "served_as parse at st rq
    = (case validate_token parse at t of None \<Rightarrow> Rejected (js ''invalid token'') | Some c \<Rightarrow> Admitted c)"
proof -
  have h: "map_of (rq_headers (request_interceptor st rq)) authorization = Some (js ''Bearer '' @ t)"
    using assms by (simp add: request_interceptor_def truthy_def update_conv)
  show ?thesis
    unfolding served_as_def h jwt_middleware_def Let_def option.case bearer_split list.sel
    using bearer_split(3,4) [of t] by simp
qed

lemma fresh_token_validates:
  assumes "jwt_contract sign parse" "sign (token_claims i name now now2) = Some t"
    and "at < numeric_date (now + token_life)"
  shows "t \<noteq> [] \<and> validate_token parse at t = Some (token_claims i name now now2)"
  using assms by (auto simp: jwt_contract_def validate_token_def token_claims_def)

lemma signed_in_page:
  assumes "fst (do_login (Inr lr) p) = q" "lr_token lr \<noteq> []"
  shows "is_logged_in (fst q) \<and> private_route (storage (snd q)) = Main_Page
    \<and> get_item (storage (snd q)) client_token_key = Some (lr_token lr)"
  using assms keys_distinct
  by (auto simp: do_login_def response_interceptor_def sign_in_def is_logged_in_def private_route_def
      or_else_self truthy_def)

lemma set_up_by:
  assumes "s = run (accounts_step check sign) no_accounts
      [Ask_Setup n body (Some hash), Next_Query n True a1 a2, Next_Query n True b1 b2]"
    and "setup_counted body (Some hash) [] = Inl (Create_User name hash)"
  shows "users s = [\<lparr>us_id = 1, us_name = name, us_hash = hash\<rparr>]"
  using assms
  by (simp add: no_accounts_def accounts_step_def continue_with_def auth_query_def create_first_user_def
      give_def Let_def split: sum.split)

lemma logs_in:
  assumes "users s = [u]" "us_name u = go_json_text user" "check (go_json_text pass) (us_hash u)"
    and "sign (token_claims (us_id u) (us_name u) now now2) = Some t"
    and "user \<noteq> []" "pass \<noteq> []" "auth_jobs s m = None"
  shows "auth_replies (run (accounts_step check sign) s [Ask_Login m (sign_in_json user pass), Next_Query m True now now2])
    = auth_replies s @ [(m, Token_Reply t (now + token_life) (us_name u))]"
  using assms
  by (simp add: accounts_step_def bind_login_body continue_with_def auth_query_def user_by_name_def
      login_found_def respond_with_token_def give_def)


section \<open>Witnesses\<close>

definition not_empty :: "js_string \<Rightarrow> bool" where "not_empty t \<longleftrightarrow> t \<noteq> []"

definition has_runes :: "nat \<Rightarrow> js_string \<Rightarrow> bool" where "has_runes n t \<longleftrightarrow> n \<le> rune_count t"

definition long_name :: js_string where "long_name = replicate 65 0x61"

lemma sample_texts:
  "ascii (js ''admin'')" "ascii (js ''correct horse'')" "ascii long_name"
  "rune_count (js ''admin'') = 5" "rune_count (js ''correct horse'') = 13" "rune_count long_name = 65"
proof -
  show a: "ascii (js ''admin'')" "ascii (js ''correct horse'')" "ascii long_name"
    by (simp_all add: ascii_def js_def of_char_def long_name_def)
  show "rune_count (js ''admin'') = 5" "rune_count (js ''correct horse'') = 13" "rune_count long_name = 65"
    using a [THEN rune_count_ascii] by (simp_all add: long_name_def)
qed

lemma sample_form_filled:
  assumes "user = js ''admin'' \<or> user = long_name"
  shows "setup_accepts not_empty has_runes user (js ''correct horse'') (js ''correct horse'')"
proof -
  have "user \<noteq> []" "js ''correct horse'' \<noteq> []"
    using assms by (auto simp: long_name_def js_def)
  then show ?thesis
    using assms sample_texts(4-6) sample_bound(2)
    by (auto simp: setup_accepts_def not_empty_def has_runes_def password_validator_def confirm_validator_def)
qed

lemma setup_form_lacks_the_name_limit_witness:
  "setup_counted (sign_in_json long_name (js ''correct horse'')) (Some []) []
     = Inr (Auth_Error 400 (js ''invalid request''))"
  using setup_form_lacks_the_name_limit [of not_empty has_runes long_name "js ''correct horse''" "js ''correct horse''"
      "sign_in_json long_name (js ''correct horse'')" "[]"] sample_form_filled [of long_name] sample_texts(6)
  by (simp add: not_empty_def has_runes_def setup_request_def credentials_def call_def sign_in_json_def)

definition logged_in_again :: accounts where
  "logged_in_again = run (accounts_step sample_check sample_sign) set_up
     [Ask_Login 4 sample_body, Next_Query 4 True 0 0]"


end
