(* ===== verification/Pages_View.thy ===== *)
theory Pages_View
  imports Accounts View
begin

text \<open>
  The two public pages as they are shown (\<open>pages/LoginPage.tsx\<close>, \<open>pages/SetupPage.tsx\<close>,
  \<open>components/AuthFrame.tsx\<close>), and the redirects between them. \<open>required\<close> and \<open>at_least\<close> are the form
  library's own rules, as in \<open>Auth\<close>.
\<close>

section \<open>The frame\<close>

record 'a auth_frame =
  af_brand :: js_string
  af_title :: js_string
  af_description :: js_string
  af_children :: 'a
  af_note :: js_string

definition auth_frame_of :: "js_string \<Rightarrow> js_string \<Rightarrow> 'a \<Rightarrow> 'a auth_frame" where
  "auth_frame_of title description children =
     \<lparr>af_brand = js ''>_'', af_title = title, af_description = description, af_children = children,
      af_note = js ''OpsUp '' @ [0x00B7] @ js '' Web SSH Terminal''\<rparr>"

section \<open>Forms\<close>

record page_item =
  pi_name :: js_string
  pi_label :: js_string
  pi_rules :: "((js_string \<Rightarrow> bool) \<times> js_string) list"

definition page_item_of :: "js_string \<Rightarrow> js_string \<Rightarrow> ((js_string \<Rightarrow> bool) \<times> js_string) list \<Rightarrow> page_item" where
  "page_item_of n l rs = \<lparr>pi_name = n, pi_label = l, pi_rules = rs\<rparr>"

text \<open>The messages of the rules the values break.\<close>

definition page_errors :: "page_item list \<Rightarrow> (js_string \<Rightarrow> js_string) \<Rightarrow> js_string list" where
  "page_errors its vals =
     concat (map (\<lambda>it. map snd (filter (\<lambda>r. \<not> fst r (vals (pi_name it))) (pi_rules it))) its)"

definition fld_username :: js_string where "fld_username = js ''username''"
definition fld_password :: js_string where "fld_password = js ''password''"
definition fld_confirm :: js_string where "fld_confirm = js ''confirm''"

definition pg_username :: js_string where "pg_username = [0x7528, 0x6237, 0x540D]"
definition pg_password :: js_string where "pg_password = [0x5BC6, 0x7801]"
definition pg_admin :: js_string where "pg_admin = [0x7BA1, 0x7406, 0x5458]"
definition pg_login :: js_string where "pg_login = [0x767B, 0x5F55]"
definition pg_enter :: js_string where "pg_enter = [0x8BF7, 0x8F93, 0x5165]"
definition pg_confirm :: js_string where "pg_confirm = [0x786E, 0x8BA4, 0x5BC6, 0x7801]"

record page_form =
  pf_items :: "page_item list"
  pf_submit :: js_string
  pf_loading :: bool

section \<open>The login page\<close>

definition login_items :: "(js_string \<Rightarrow> bool) \<Rightarrow> page_item list" where
  "login_items required =
     [page_item_of fld_username pg_username [(required, pg_enter @ pg_username)],
      page_item_of fld_password pg_password [(required, pg_enter @ pg_password)]]"

definition login_description :: js_string where
  "login_description =
     [0x767B, 0x5F55, 0x5DE5, 0x4F5C, 0x53F0, 0xFF0C, 0x8FDE, 0x63A5, 0x4F60, 0x7684, 0x670D, 0x52A1, 0x5668]"

definition render_login :: "(js_string \<Rightarrow> bool) \<Rightarrow> login_page \<Rightarrow> page_form auth_frame option" where
  "render_login required lp =
     (if lp_initialized lp = Some False then None
      else Some (auth_frame_of (js ''OpsUp'') login_description
        \<lparr>pf_items = login_items required, pf_submit = pg_login, pf_loading = lp_loading lp\<rparr>))"

section \<open>The setup page\<close>

definition setup_items ::
    "(js_string \<Rightarrow> bool) \<Rightarrow> (nat \<Rightarrow> js_string \<Rightarrow> bool) \<Rightarrow> js_string \<Rightarrow> page_item list" where
  "setup_items required at_least password =
     [page_item_of fld_username (pg_admin @ pg_username)
        [(\<lambda>t. required t \<and> at_least 3 t,
          pg_username @ [0x81F3, 0x5C11] @ js ''3'' @ [0x4E2A, 0x5B57, 0x7B26])],
      page_item_of fld_password pg_password
        [(\<lambda>t. required t \<and> at_least 12 t,
          pg_password @ [0x81F3, 0x5C11] @ js ''12'' @ [0x4E2A, 0x5B57, 0x7B26]),
         (password_validator,
          pg_password @ [0x6700, 0x591A] @ js ''72'' @ [0x4E2A] @ js '' UTF-8 '' @ [0x5B57, 0x8282])],
      page_item_of fld_confirm pg_confirm
        [(required, [0x8BF7] @ pg_confirm),
         (confirm_validator password, [0x4E24, 0x6B21, 0x5BC6, 0x7801, 0x4E0D, 0x4E00, 0x81F4])]]"

definition setup_title :: js_string where
  "setup_title = [0x521D, 0x59CB, 0x5316] @ js '' OpsUp''"

definition setup_description :: js_string where
  "setup_description =
     [0x521B, 0x5EFA, 0x7BA1, 0x7406, 0x5458, 0x8D26, 0x6237, 0xFF0C, 0x5F00, 0x59CB, 0x7BA1, 0x7406] @
     js '' SSH '' @ [0x8FDE, 0x63A5]"

definition render_setup ::
    "(js_string \<Rightarrow> bool) \<Rightarrow> (nat \<Rightarrow> js_string \<Rightarrow> bool) \<Rightarrow> js_string \<Rightarrow> login_page \<Rightarrow> page_form auth_frame" where
  "render_setup required at_least password lp =
     auth_frame_of setup_title setup_description
       \<lparr>pf_items = setup_items required at_least password,
        pf_submit = [0x521B, 0x5EFA] @ pg_admin, pf_loading = lp_loading lp\<rparr>"

text \<open>The values of the setup form, by the names of its fields.\<close>

definition setup_values :: "js_string \<Rightarrow> js_string \<Rightarrow> js_string \<Rightarrow> js_string \<Rightarrow> js_string" where
  "setup_values user pass confirm n =
     (if n = fld_username then user else if n = fld_password then pass else confirm)"

lemma setup_form_rendered:
  "page_errors (pf_items (af_children (render_setup required at_least pass lp))) (setup_values user pass confirm) = []
     \<longleftrightarrow> setup_accepts required at_least user pass confirm"
proof -
  have "fld_username \<noteq> fld_password" "fld_username \<noteq> fld_confirm" "fld_password \<noteq> fld_confirm"
    by (simp_all add: fld_username_def fld_password_def fld_confirm_def)
  then show ?thesis
    by (auto simp: page_errors_def render_setup_def auth_frame_of_def setup_items_def page_item_of_def
        setup_values_def setup_accepts_def split: if_splits)
qed

section \<open>Redirects\<close>

text \<open>What a public page makes of the status it asks for: the page it goes to, if any.\<close>

definition redirect_of :: "storage \<Rightarrow> route \<Rightarrow> http_error + auth_status \<Rightarrow> route option" where
  "redirect_of st r reply =
     (case r of
        Login_Page \<Rightarrow> map_option (\<lambda>p. themed_app (fst p) st) (lp_route (on_auth_status reply init_login_page))
      | Setup_Page \<Rightarrow> map_option (\<lambda>p. themed_app (fst p) st) (lp_route (on_setup_status reply init_login_page))
      | _ \<Rightarrow> None)"

fun follow :: "storage \<Rightarrow> route \<Rightarrow> (http_error + auth_status) list \<Rightarrow> route list" where
  "follow st r [] = []"
| "follow st r (a # as) =
     (case redirect_of st r a of None \<Rightarrow> [] | Some r' \<Rightarrow> r' # follow st r' as)"

text \<open>
  The answers of the server to one question after the other: before each, any requests were served, and the
  query for the answer succeeds or not.
\<close>

definition status_reply :: "bool \<Rightarrow> accounts \<Rightarrow> http_error + auth_status" where
  "status_reply ok s =
     (case auth_status_reply ok (users s) of
        Initialized i \<Rightarrow> Inr \<lparr>as_initialized = i\<rparr>
      | Auth_Error code m \<Rightarrow> Inl \<lparr>response = Some (int code, JObj [(js ''error'', JStr m)])\<rparr>
      | Token_Reply _ _ _ \<Rightarrow> Inl \<lparr>response = None\<rparr>)"

fun answers_of ::
    "(js_string \<Rightarrow> js_string \<Rightarrow> bool) \<Rightarrow> signer \<Rightarrow> accounts \<Rightarrow> (auth_call list \<times> bool) list \<Rightarrow>
      (http_error + auth_status) list" where
  "answers_of check sign s [] = []"
| "answers_of check sign s ((es, ok) # qs) =
     (let s' = run (accounts_step check sign) s es
      in status_reply ok s' # answers_of check sign s' qs)"

lemma themed_pages [simp]:
  "themed_app (js ''/setup'') st = Setup_Page" "themed_app (js ''/login'') st = Login_Page"
  by (simp_all add: themed_app_def)

lemma redirects:
  "redirect_of st Login_Page (status_reply ok s) = (if ok \<and> users s = [] then Some Setup_Page else None)"
  "redirect_of st Setup_Page (status_reply ok s) = (if ok \<and> users s \<noteq> [] then Some Login_Page else None)"
  by (simp_all add: redirect_of_def status_reply_def auth_status_reply_def on_auth_status_def on_setup_status_def
      init_login_page_def Let_def)

lemma follow_initialized:
  assumes "users s \<noteq> []"
  shows "length (follow st Login_Page (answers_of check sign s qs)) = 0"
    and "length (follow st Setup_Page (answers_of check sign s qs)) \<le> 1"
proof -
  have l: "length (follow st Login_Page (answers_of check sign s qs)) = 0" if "users s \<noteq> []" for s qs
    using that users_kept [of s check sign]
    by (cases qs) (auto simp: redirects Let_def)
  then show "length (follow st Login_Page (answers_of check sign s qs)) = 0"
    using assms by simp
  show "length (follow st Setup_Page (answers_of check sign s qs)) \<le> 1"
    using assms users_kept [of s check sign] l
    by (cases qs) (auto simp: redirects Let_def)
qed

lemma follow_setup: "length (follow st Setup_Page (answers_of check sign s qs)) \<le> 1"
proof (cases qs)
  case (Cons q qs')
  obtain es ok where "q = (es, ok)"
    by (cases q)
  then show ?thesis
    using Cons follow_initialized(1) [of "run (accounts_step check sign) s es" st check sign qs']
    by (simp add: redirects Let_def)
qed simp

lemma follow_login: "length (follow st Login_Page (answers_of check sign s qs)) \<le> 2"
proof (cases qs)
  case (Cons q qs')
  obtain es ok where "q = (es, ok)"
    by (cases q)
  then show ?thesis
    using Cons follow_setup [of st check sign "run (accounts_step check sign) s es" qs']
    by (simp add: redirects Let_def)
qed simp

text \<open>
  The redirects between the login and the setup page end: whatever requests are served between the
  questions the pages ask, and whichever of them fail, a visitor is sent on at most twice, and never from the
  page to which the second redirect led.
\<close>

lemma redirects_end:
  "length (follow st r (answers_of check sign s qs)) \<le> 2"
proof (cases r)
  case Login_Page
  then show ?thesis
    by (simp add: follow_login)
next
  case Setup_Page
  then show ?thesis
    using follow_setup [of st check sign s qs] by simp
qed (cases "answers_of check sign s qs"; simp add: redirect_of_def)+

end
