(* ===== verification/Rate_Limit.thy ===== *)
theory Rate_Limit
  imports Accounts
begin

text \<open>
  The limit on sign-in attempts (\<open>internal/api/rate_limit.go\<close>): a bucket per address, in a map that is
  guarded by a mutex, so the requests pass it one by one. The map is an association list. Times are in
  nanoseconds, as in \<open>Accounts\<close>.
\<close>

section \<open>The limiter\<close>

record bucket =
  bk_until :: int
  bk_count :: nat

type_synonym buckets = "(js_string \<times> bucket) list"

definition max_clients :: nat where "max_clients = 4096"

definition live_buckets :: "int \<Rightarrow> buckets \<Rightarrow> buckets" where
  "live_buckets now m = filter (\<lambda>(k, b). now < bk_until b) m"

text \<open>
  The decision on one request, with the value of \<open>Retry-After\<close> for one that is refused; \<open>now2\<close> is the
  second time the clock is read.
\<close>

definition auth_rate_limit ::
    "nat \<Rightarrow> int \<Rightarrow> int \<Rightarrow> int \<Rightarrow> js_string \<Rightarrow> buckets \<Rightarrow> int option \<times> buckets" where
  "auth_rate_limit limit window now now2 ip m =
     (let live = live_buckets now m;
          known = map_of live ip;
          b = (case known of Some b \<Rightarrow> b | None \<Rightarrow> \<lparr>bk_until = now + window, bk_count = 0\<rparr>)
      in if limit \<le> bk_count b \<or> (known = None \<and> max_clients \<le> length live)
         then (Some (max 1 ((bk_until b - now2) div seconds + 1)), live)
         else (None, AList.update ip (b\<lparr>bk_count := Suc (bk_count b)\<rparr>) live))"

text \<open>The requests of a run: address, and the two times; and the decisions on them.\<close>

type_synonym attempt = "js_string \<times> int \<times> int"

fun limit_all :: "nat \<Rightarrow> int \<Rightarrow> buckets \<Rightarrow> attempt list \<Rightarrow> bool list" where
  "limit_all limit window m [] = []"
| "limit_all limit window m ((ip, now, now2) # as) =
     (case auth_rate_limit limit window now now2 ip m of
        (refused, m') \<Rightarrow> (refused = None) # limit_all limit window m' as)"

section \<open>How many attempts pass\<close>

text \<open>The attempts of an address that pass, among those before a time.\<close>

fun passed :: "nat \<Rightarrow> int \<Rightarrow> buckets \<Rightarrow> js_string \<Rightarrow> attempt list \<Rightarrow> nat" where
  "passed limit window m ip [] = 0"
| "passed limit window m ip ((ip', now, now2) # as) =
     (case auth_rate_limit limit window now now2 ip' m of
        (refused, m') \<Rightarrow> (if ip' = ip \<and> refused = None then 1 else 0) + passed limit window m' ip as)"

lemma passed_limit_all:
  "passed limit window m ip as
     = length (filter (\<lambda>(a, ok). ok \<and> fst a = ip) (zip as (limit_all limit window m as)))"
  by (induction as arbitrary: m) (auto split: prod.split)

lemma live_lookup:
  "distinct (map fst m) \<Longrightarrow>
   map_of (live_buckets now m) ip = (case map_of m ip of Some b \<Rightarrow> if now < bk_until b then Some b else None | None \<Rightarrow> None)"
proof (induction m)
  case (Cons x m)
  obtain k b where x: "x = (k, b)"
    by (cases x)
  have "map_of m ip = None" if "k = ip"
    using Cons.prems x that by (auto simp: map_of_eq_None_iff)
  then show ?case
    using Cons x by (auto simp: live_buckets_def split: option.splits)
qed (simp add: live_buckets_def)

lemma live_distinct: "distinct (map fst m) \<Longrightarrow> distinct (map fst (live_buckets now m))"
  by (induction m) (auto simp: live_buckets_def)

lemma limit_distinct:
  "distinct (map fst m) \<Longrightarrow> auth_rate_limit limit window now now2 ip m = (r, m') \<Longrightarrow> distinct (map fst m')"
  using live_distinct [of m now] by (auto simp: auth_rate_limit_def Let_def distinct_update split: if_splits)

text \<open>What is left of the bucket of an address at a time.\<close>

definition bucket_at :: "int \<Rightarrow> buckets \<Rightarrow> js_string \<Rightarrow> bucket option" where
  "bucket_at now m ip =
     (case map_of m ip of Some b \<Rightarrow> if now < bk_until b then Some b else None | None \<Rightarrow> None)"

lemma limit_cases:
  assumes "distinct (map fst m)" "auth_rate_limit limit window now now2 ip m = (r, m')"
  shows "map_of m' k = (if k = ip \<and> r = None
       then Some (case bucket_at now m ip of
           Some b \<Rightarrow> b\<lparr>bk_count := Suc (bk_count b)\<rparr> | None \<Rightarrow> \<lparr>bk_until = now + window, bk_count = 1\<rparr>)
       else bucket_at now m k)"
    and "r = None \<Longrightarrow> (case bucket_at now m ip of Some b \<Rightarrow> bk_count b | None \<Rightarrow> 0) < limit"
proof -
  have l: "map_of (live_buckets now m) j = bucket_at now m j" for j
    using live_lookup [OF assms(1)] by (simp add: bucket_at_def)
  show "map_of m' k = (if k = ip \<and> r = None
       then Some (case bucket_at now m ip of
           Some b \<Rightarrow> b\<lparr>bk_count := Suc (bk_count b)\<rparr> | None \<Rightarrow> \<lparr>bk_until = now + window, bk_count = 1\<rparr>)
       else bucket_at now m k)"
    using assms(2) by (cases "bucket_at now m ip")
      (auto simp: auth_rate_limit_def Let_def update_conv l simp del: map_of_eq_None_iff split: if_splits)
  show "r = None \<Longrightarrow> (case bucket_at now m ip of Some b \<Rightarrow> bk_count b | None \<Rightarrow> 0) < limit"
    using assms(2) by (cases "bucket_at now m ip")
      (auto simp: auth_rate_limit_def Let_def l split: if_splits)
qed

text \<open>The passes an address may still have before the time \<open>e\<close>, in a state at the time \<open>now\<close>.\<close>

definition allowance :: "nat \<Rightarrow> int \<Rightarrow> int \<Rightarrow> int \<Rightarrow> buckets \<Rightarrow> js_string \<Rightarrow> nat" where
  "allowance limit window e now m ip =
     (case bucket_at now m ip of
        None \<Rightarrow> limit
      | Some b \<Rightarrow> (limit - bk_count b) + (if bk_until b < e then limit else 0))"

lemma allowance_later:
  assumes "now \<le> t" "t < e"
  shows "allowance limit window e t m ip \<le> allowance limit window e now m ip"
  using assms by (auto simp: allowance_def bucket_at_def split: option.split)

lemma allowance_step:
  assumes "distinct (map fst m)" "auth_rate_limit limit window now now2 ip' m = (r, m')"
    and "0 < window" "e \<le> now + window"
  shows "(if ip' = ip \<and> r = None then 1 else 0) + allowance limit window e now m' ip
    \<le> allowance limit window e now m ip"
proof (cases "ip' = ip \<and> r = None")
  case True
  note c = limit_cases [OF assms(1,2)]
  have b: "bucket_at now m' ip = Some (case bucket_at now m ip of
      Some b \<Rightarrow> b\<lparr>bk_count := Suc (bk_count b)\<rparr> | None \<Rightarrow> \<lparr>bk_until = now + window, bk_count = 1\<rparr>)"
    using True c(1) [of ip] assms(3)
    by (auto simp: bucket_at_def [of now m'] split: option.splits) (auto simp: bucket_at_def split: option.splits if_splits)
  have "(case bucket_at now m ip of Some b \<Rightarrow> bk_count b | None \<Rightarrow> 0) < limit"
    using True c(2) by simp
  then show ?thesis
    unfolding allowance_def b using True assms(4) by (cases "bucket_at now m ip") auto
next
  case False
  then have "map_of m' ip = bucket_at now m ip"
    using limit_cases(1) [OF assms(1,2), of ip] by auto
  then have "bucket_at now m' ip = bucket_at now m ip"
    by (auto simp: bucket_at_def split: option.splits if_splits)
  then show ?thesis
    using False by (simp add: allowance_def)
qed

lemma passed_allowance:
  assumes "distinct (map fst m)" "0 < window" "sorted (now # map (fst \<circ> snd) as)"
    and "\<forall>t \<in> set (map (fst \<circ> snd) as). t < e" "e \<le> now + window"
  shows "passed limit window m ip as \<le> allowance limit window e now m ip"
  using assms
proof (induction as arbitrary: m now)
  case (Cons x as)
  obtain ip' t t2 where x: "x = (ip', t, t2)"
    by (cases x)
  obtain r m' where r: "auth_rate_limit limit window t t2 ip' m = (r, m')"
    by fastforce
  have t: "now \<le> t" "t < e" "e \<le> t + window"
    using Cons.prems x by auto
  have "passed limit window m' ip as \<le> allowance limit window e t m' ip"
    using Cons.prems x t by (intro Cons.IH) (auto intro: limit_distinct [OF _ r])
  then have "passed limit window m ip (x # as)
      \<le> (if ip' = ip \<and> r = None then 1 else 0) + allowance limit window e t m' ip"
    using x r by simp
  also have "\<dots> \<le> allowance limit window e t m ip"
    using allowance_step [OF Cons.prems(1) r Cons.prems(2) t(3)] .
  also have "\<dots> \<le> allowance limit window e now m ip"
    using allowance_later t by blast
  finally show ?case .
qed simp

section \<open>The map of buckets\<close>

definition limiter_step :: "nat \<Rightarrow> int \<Rightarrow> buckets \<Rightarrow> attempt \<Rightarrow> buckets" where
  "limiter_step limit window m a =
     (case a of (ip, now, now2) \<Rightarrow> snd (auth_rate_limit limit window now now2 ip m))"

definition buckets_ok :: "buckets \<Rightarrow> bool" where
  "buckets_ok m \<longleftrightarrow> distinct (map fst m) \<and> length m \<le> max_clients"

lemma length_update: "length (AList.update k v m) = (if map_of m k = None then Suc (length m) else length m)"
  by (induction m) auto

lemma limiter_step_ok: "buckets_ok m \<Longrightarrow> buckets_ok (limiter_step limit window m a)"
proof -
  assume m: "buckets_ok m"
  obtain ip now now2 where a: "a = (ip, now, now2)"
    by (cases a)
  obtain r m' where r: "auth_rate_limit limit window now now2 ip m = (r, m')"
    by fastforce
  have "length (live_buckets now m) \<le> max_clients"
    using m by (auto simp: buckets_ok_def live_buckets_def intro: le_trans [OF length_filter_le])
  then have "length m' \<le> max_clients"
    using r by (auto simp: auth_rate_limit_def Let_def length_update split: if_splits option.splits)
  then show ?thesis
    using m a r limit_distinct [OF _ r] by (simp add: buckets_ok_def limiter_step_def)
qed

interpretation limiter: machine "limiter_step limit window" buckets_ok
  by unfold_locales (rule limiter_step_ok)

text \<open>
  Claim C32. Guessing is slow and memory bounded: after any history of requests, of the attempts one address
  makes within one window at most twice the limit pass, however many other addresses there are and however it
  spaces them; at most the limit when it has no live bucket at the start; and the limiter never
  remembers more than 4096 addresses. In the program that is 20 sign-in attempts in any minute.
\<close>

theorem sign_in_attempts_are_limited:
  assumes "m = run (limiter_step limit window) [] history" and "0 < window"
    and "sorted (map (fst \<circ> snd) as)" and "\<forall>t \<in> set (map (fst \<circ> snd) as). start \<le> t \<and> t < start + window"
  shows "length (filter (\<lambda>(a, ok). ok \<and> fst a = ip) (zip as (limit_all limit window m as)))
      \<le> (if bucket_at start m ip = None then limit else 2 * limit)
    \<and> length (run (limiter_step limit window) m as) \<le> max_clients"
proof -
  have m: "buckets_ok m"
    unfolding assms(1) by (rule limiter.run_inv) (simp add: buckets_ok_def)
  have "passed limit window m ip as \<le> allowance limit window (start + window) start m ip"
    using m assms(2-4) by (intro passed_allowance) (auto simp: buckets_ok_def)
  also have "\<dots> \<le> (if bucket_at start m ip = None then limit else 2 * limit)"
    by (auto simp: allowance_def split: option.split)
  finally show ?thesis
    using limiter.run_inv [OF m] unfolding passed_limit_all by (simp add: buckets_ok_def)
qed

theorem sign_in_attempts_are_limited_witness:
  "limit_all 1 5 [] [(js ''a'', 0, 0), (js ''a'', 1, 1), (js ''b'', 2, 2)] = [True, False, True]
   \<and> length (filter (\<lambda>(a, ok). ok \<and> fst a = js ''a'') (zip [(js ''a'', 0 :: int, 0 :: int), (js ''a'', 1, 1), (js ''b'', 2, 2)]
       (limit_all 1 5 [] [(js ''a'', 0, 0), (js ''a'', 1, 1), (js ''b'', 2, 2)]))) \<le> 1"
proof -
  have d: "js ''a'' \<noteq> js ''b''"
    by (simp add: js_def)
  have "limit_all 1 5 [] [(js ''a'', 0, 0), (js ''a'', 1, 1), (js ''b'', 2, 2)] = [True, False, True]"
    using d by (simp add: auth_rate_limit_def live_buckets_def max_clients_def Let_def)
  then show ?thesis
    using sign_in_attempts_are_limited [of "[]" 1 5 "[]" "[(js ''a'', 0, 0), (js ''a'', 1, 1), (js ''b'', 2, 2)]" 0 "js ''a''"]
    by (simp add: bucket_at_def)
qed

end
