(* ===== verification/Go_Path.thy ===== *)
theory Go_Path
  imports Js_Prelude
begin

text \<open>
  The functions of Go's \<open>path\<close> package that the file handlers call: \<open>Clean\<close>, \<open>Join\<close>, \<open>Base\<close> and \<open>Dir\<close>, on
  paths whose elements are separated by slashes.
\<close>

section \<open>Definitions\<close>

definition slash_unit :: "16 word" where "slash_unit = 0x2F"

abbreviation elements :: "js_string \<Rightarrow> js_string list" where
  "elements p \<equiv> js_split slash_unit p"

definition dot :: js_string where "dot = [0x2E]"
definition dotdot :: js_string where "dotdot = [0x2E, 0x2E]"

text \<open>The elements kept so far, the last first.\<close>

fun clean_elements :: "bool \<Rightarrow> js_string list \<Rightarrow> js_string list \<Rightarrow> js_string list" where
  "clean_elements rooted kept [] = rev kept"
| "clean_elements rooted kept (e # es) =
     (if e = [] \<or> e = dot then clean_elements rooted kept es
      else if e = dotdot then
        (if kept \<noteq> [] \<and> hd kept \<noteq> dotdot then clean_elements rooted (tl kept) es
         else if rooted then clean_elements rooted kept es
         else clean_elements rooted (dotdot # kept) es)
      else clean_elements rooted (e # kept) es)"

definition is_rooted :: "js_string \<Rightarrow> bool" where
  "is_rooted p \<longleftrightarrow> p \<noteq> [] \<and> hd p = slash_unit"

definition build_path :: "bool \<Rightarrow> js_string list \<Rightarrow> js_string" where
  "build_path rooted es =
     (if rooted then slash_unit # js_join [slash_unit] es
      else if es = [] then dot else js_join [slash_unit] es)"

definition path_clean :: "js_string \<Rightarrow> js_string" where
  "path_clean p = (if p = [] then dot else build_path (is_rooted p) (clean_elements (is_rooted p) [] (elements p)))"

definition path_join :: "js_string \<Rightarrow> js_string \<Rightarrow> js_string" where
  "path_join a b =
     (if a = [] \<and> b = [] then []
      else path_clean (if a = [] then b else if b = [] then a else a @ slash_unit # b))"

definition path_base :: "js_string \<Rightarrow> js_string" where
  "path_base p =
     (if p = [] then dot
      else (let q = rev (dropWhile (\<lambda>u. u = slash_unit) (rev p))
        in if q = [] then [slash_unit] else last (elements q)))"

text \<open>What is up to the last slash, cleaned.\<close>

definition path_dir :: "js_string \<Rightarrow> js_string" where
  "path_dir p = path_clean (rev (dropWhile (\<lambda>u. u \<noteq> slash_unit) (rev p)))"

section \<open>A plain name below a directory\<close>

definition plain_name :: "js_string \<Rightarrow> bool" where
  "plain_name n \<longleftrightarrow> n \<noteq> [] \<and> n \<noteq> dot \<and> n \<noteq> dotdot \<and> slash_unit \<notin> set n"

definition below :: "js_string \<Rightarrow> js_string \<Rightarrow> js_string" where
  "below d n = (if d = [slash_unit] then slash_unit # n else if d = dot then n else d @ slash_unit # n)"

lemma split_snoc: "c \<notin> set n \<Longrightarrow> js_split c (s @ c # n) = js_split c s @ [n]"
proof (induction s)
  case (Cons u s)
  then show ?case
    by (cases "js_split c s") auto
qed (simp add: js_split_plain)

lemma clean_snoc: "plain_name n \<Longrightarrow> clean_elements r k (es @ [n]) = clean_elements r k es @ [n]"
  by (induction es arbitrary: k) (auto simp: plain_name_def)

lemma join_snoc: "es \<noteq> [] \<Longrightarrow> js_join c (es @ [n]) = js_join c es @ c @ n"
proof (induction es)
  case (Cons e es)
  then show ?case
    by (cases "es = []") (simp_all add: js_join_Cons)
qed simp

definition kept_element :: "js_string \<Rightarrow> bool" where
  "kept_element e \<longleftrightarrow> e \<noteq> [] \<and> e \<noteq> dot \<and> slash_unit \<notin> set e"

lemma kept_dotdot: "kept_element dotdot"
  by (simp add: kept_element_def dotdot_def dot_def slash_unit_def)

lemma elements_no_slash: "e \<in> set (elements p) \<Longrightarrow> slash_unit \<notin> set e"
  by (rule js_split_pieces)

lemma join_not_dot:
  assumes "es \<noteq> []" "list_all kept_element es"
  shows "js_join [slash_unit] es \<noteq> dot" "js_join [slash_unit] es \<noteq> [slash_unit]" "js_join [slash_unit] es \<noteq> []"
proof -
  have s: "js_split slash_unit (js_join [slash_unit] es) = es"
    using assms by (intro js_split_join) (auto simp: list_all_iff kept_element_def)
  have d: "js_split slash_unit dot = [dot]" "js_split slash_unit [slash_unit] = [[], []]" "js_split slash_unit [] = [[]]"
    by (simp_all add: dot_def slash_unit_def)
  have n: "\<not> kept_element dot" "\<not> kept_element []"
    by (simp_all add: kept_element_def)
  show "js_join [slash_unit] es \<noteq> dot" "js_join [slash_unit] es \<noteq> [slash_unit]" "js_join [slash_unit] es \<noteq> []"
    using s d n assms(2) by (metis list.pred_inject(2))+
qed

lemma clean_elements_kept:
  "list_all kept_element kept \<Longrightarrow> list_all (\<lambda>e. slash_unit \<notin> set e) es \<Longrightarrow>
   list_all kept_element (clean_elements r kept es)"
proof (induction es arbitrary: kept)
  case Nil
  then show ?case
    by (simp add: list_all_iff)
next
  case (Cons e es)
  have t: "list_all kept_element (tl kept)"
    using Cons.prems(1) by (cases kept) simp_all
  have s: "list_all (\<lambda>e. slash_unit \<notin> set e) es" "slash_unit \<notin> set e"
    using Cons.prems(2) by simp_all
  show ?case
    using Cons.IH [OF Cons.prems(1) s(1)] Cons.IH [OF t s(1)] Cons.IH [of "dotdot # kept"]
      Cons.IH [of "e # kept"] Cons.prems(1) s kept_dotdot
    by (cases "kept = []"; cases r) (auto simp: kept_element_def [of e])
qed

text \<open>Joining a plain name gives the child of that name of the cleaned directory.\<close>

lemma join_plain:
  assumes "plain_name n" "d \<noteq> []"
  shows "path_join d n = below (path_clean d) n"
proof -
  let ?es = "clean_elements (is_rooted d) [] (elements d)"
  have n: "n \<noteq> []" "slash_unit \<notin> set n"
    using assms(1) by (auto simp: plain_name_def)
  have r: "is_rooted (d @ slash_unit # n) = is_rooted d"
    using assms(2) by (simp add: is_rooted_def)
  have c: "clean_elements (is_rooted d) [] (elements (d @ slash_unit # n)) = ?es @ [n]"
    using split_snoc [OF n(2), of d] clean_snoc [OF assms(1)] by simp
  have k: "list_all kept_element ?es"
    by (rule clean_elements_kept) (auto simp: list_all_iff dest: elements_no_slash)
  have j: "path_join d n = build_path (is_rooted d) (?es @ [n])"
    using assms(2) n(1) c r by (simp add: path_join_def path_clean_def)
  show ?thesis
  proof (cases "?es = []")
    case True
    then show ?thesis
      using assms(2) j by (cases "is_rooted d") (auto simp: below_def path_clean_def build_path_def dot_def slash_unit_def)
  next
    case False
    note jd = join_not_dot [OF False k]
    have "slash_unit # js_join [slash_unit] ?es \<noteq> [slash_unit]" "slash_unit # js_join [slash_unit] ?es \<noteq> dot"
      using jd(3) by (auto simp: dot_def slash_unit_def)
    then show ?thesis
      using False assms(2) j jd join_snoc [OF False]
      by (cases "is_rooted d") (auto simp: below_def path_clean_def build_path_def)
  qed
qed

section \<open>Cleaned paths\<close>

text \<open>What \<open>Clean\<close> leaves: dots to the parent only at the front, and none under a root.\<close>

definition tidy :: "bool \<Rightarrow> js_string list \<Rightarrow> bool" where
  "tidy r es \<longleftrightarrow>
     list_all kept_element es \<and>
     dotdot \<notin> set (if r then es else dropWhile (\<lambda>e. e = dotdot) es)"

lemma tidy_snoc:
  "tidy r (es @ [e]) \<longleftrightarrow> tidy r es \<and> kept_element e \<and> (e = dotdot \<longrightarrow> \<not> r \<and> (\<forall>x \<in> set es. x = dotdot))"
proof (cases "\<forall>x \<in> set es. x = dotdot")
  case True
  then have d: "dropWhile (\<lambda>e. e = dotdot) es = []" "dropWhile (\<lambda>e. e = dotdot) (es @ [e]) = dropWhile (\<lambda>e. e = dotdot) [e]"
    by (simp_all add: dropWhile_eq_Nil_conv dropWhile_append2)
  then show ?thesis
    using True unfolding tidy_def d by (auto simp: tidy_def)
next
  case False
  then have "dropWhile (\<lambda>e. e = dotdot) (es @ [e]) = dropWhile (\<lambda>e. e = dotdot) es @ [e]"
    by (simp add: dropWhile_append dropWhile_eq_Nil_conv)
  then show ?thesis
    using False by (auto simp: tidy_def)
qed

lemma tidy_rev:
  "tidy r (rev (e # k)) \<longleftrightarrow> tidy r (rev k) \<and> kept_element e \<and> (e = dotdot \<longrightarrow> \<not> r \<and> (\<forall>x \<in> set k. x = dotdot))"
  by (simp add: tidy_snoc)

lemma clean_is_tidy:
  "tidy r (rev kept) \<Longrightarrow> list_all (\<lambda>e. slash_unit \<notin> set e) es \<Longrightarrow> tidy r (clean_elements r kept es)"
proof (induction es arbitrary: kept)
  case (Cons e es)
  have s: "list_all (\<lambda>e. slash_unit \<notin> set e) es" "slash_unit \<notin> set e"
    using Cons.prems(2) by simp_all
  have t: "tidy r (rev (tl kept))"
    using Cons.prems(1) by (cases kept) (simp_all add: tidy_snoc)
  have d: "tidy r (rev (dotdot # kept))" if "\<not> r" "kept = [] \<or> hd kept = dotdot"
  proof (cases kept)
    case (Cons k ks)
    then have "tidy r (rev (k # ks))" "k = dotdot"
      using Cons.prems(1) that(2) \<open>tidy r (rev kept)\<close> by auto
    then have "\<forall>x \<in> set kept. x = dotdot"
      using Cons unfolding tidy_rev by simp
    then show ?thesis
      using \<open>tidy r (rev kept)\<close> that(1) kept_dotdot unfolding tidy_rev by blast
  qed (use that(1) kept_dotdot in \<open>simp add: tidy_def\<close>)
  have p: "tidy r (rev (e # kept))" if "e \<noteq> []" "e \<noteq> dot" "e \<noteq> dotdot"
    using Cons.prems(1) that s(2) unfolding tidy_rev by (simp add: kept_element_def)
  consider "e = [] \<or> e = dot" | "e = dotdot" "kept \<noteq> [] \<and> hd kept \<noteq> dotdot"
    | "e = dotdot" "kept = [] \<or> hd kept = dotdot" | "e \<noteq> []" "e \<noteq> dot" "e \<noteq> dotdot"
    by blast
  then show ?case
  proof cases
    case 1
    then show ?thesis
      using Cons.IH [OF Cons.prems(1) s(1)] by simp
  next
    case 2
    then show ?thesis
      using Cons.IH [OF t s(1)] kept_dotdot by (simp add: kept_element_def)
  next
    case 3
    have "tidy r (clean_elements r (dotdot # kept) es)" if "\<not> r"
      using Cons.IH [OF d [OF that 3(2)] s(1)] .
    then show ?thesis
      using 3 Cons.IH [OF Cons.prems(1) s(1)] kept_dotdot
      by (cases r) (auto simp: kept_element_def)
  next
    case 4
    then show ?thesis
      using Cons.IH [OF p s(1)] by simp
  qed
qed simp

lemma tidy_prefix: "tidy r (es @ fs) \<Longrightarrow> tidy r es"
proof (induction fs rule: rev_induct)
  case (snoc f fs)
  then show ?case
    using tidy_snoc [of r "es @ fs" f] by simp
qed simp

lemma clean_tidy: "tidy r (rev kept @ es) \<Longrightarrow> clean_elements r kept es = rev kept @ es"
proof (induction es arbitrary: kept)
  case (Cons e es)
  have t: "tidy r (rev (e # kept) @ es)"
    using Cons.prems by simp
  then have e: "kept_element e" "e = dotdot \<longrightarrow> \<not> r \<and> (\<forall>x \<in> set kept. x = dotdot)"
    using tidy_prefix [OF t] unfolding tidy_rev by blast+
  then have "clean_elements r kept (e # es) = clean_elements r (e # kept) es"
    by (cases "e = dotdot"; cases kept) (simp_all add: kept_element_def)
  then show ?case
    using Cons.IH [OF t] by simp
qed simp

lemma elements_clean: "tidy (is_rooted d) (clean_elements (is_rooted d) [] (elements d))"
  by (rule clean_is_tidy) (auto simp: tidy_def list_all_iff dest: elements_no_slash)

text \<open>The elements of a cleaned path, with or without slash at its end.\<close>

lemma build_elements:
  assumes "tidy r es"
  shows "clean_elements r [] (elements (build_path r es)) = es" "is_rooted (build_path r es) = r" "build_path r es \<noteq> []"
proof -
  have k: "list_all kept_element es"
    using assms by (simp add: tidy_def)
  have j: "es \<noteq> [] \<Longrightarrow> elements (js_join [slash_unit] es) = es"
    using k by (intro js_split_join) (auto simp: list_all_iff kept_element_def)
  have c: "clean_elements r [] es = es"
    using clean_tidy [of r "[]" es] assms by simp
  have d: "elements dot = [dot]" "elements [] = [[]]" "dot \<noteq> []" "hd dot \<noteq> slash_unit"
    by (simp_all add: dot_def slash_unit_def)
  have h: "js_join [slash_unit] es \<noteq> []" "hd (js_join [slash_unit] es) \<noteq> slash_unit" if ne: "es \<noteq> []"
  proof -
    obtain u us fs where "es = (u # us) # fs" "u \<noteq> slash_unit"
      using ne k by (cases es) (auto simp: kept_element_def neq_Nil_conv)
    then show "js_join [slash_unit] es \<noteq> []" "hd (js_join [slash_unit] es) \<noteq> slash_unit"
      by (cases fs; simp)+
  qed
  show "clean_elements r [] (elements (build_path r es)) = es"
    using c d j by (cases "es = []") (auto simp: build_path_def)
  show "is_rooted (build_path r es) = r" "build_path r es \<noteq> []"
    using d h by (auto simp: build_path_def is_rooted_def)
qed

lemma clean_trailing: "clean_elements r k (es @ [[]]) = clean_elements r k es"
  by (induction es arbitrary: k) auto

lemma path_clean_slash:
  assumes "d \<noteq> []"
  shows "path_clean (path_clean d @ [slash_unit]) = path_clean d"
proof -
  define es where "es = clean_elements (is_rooted d) [] (elements d)"
  have d: "path_clean d = build_path (is_rooted d) es"
    using assms by (simp add: path_clean_def es_def)
  have t: "tidy (is_rooted d) es"
    unfolding es_def by (rule elements_clean)
  let ?p = "build_path (is_rooted d) es"
  note b = build_elements [OF t]
  have "elements (?p @ [slash_unit]) = elements ?p @ [[]]"
    using split_snoc [of slash_unit "[]" ?p] by simp
  moreover have "is_rooted (?p @ [slash_unit]) = is_rooted d"
    using b(2,3) by (cases ?p) (auto simp: is_rooted_def)
  ultimately show ?thesis
    unfolding d using b(1,3) by (simp add: path_clean_def clean_trailing)
qed

lemma path_clean_nonempty: "d \<noteq> [] \<Longrightarrow> path_clean d \<noteq> []"
  using build_elements(3) [OF elements_clean [of d]] by (simp add: path_clean_def)

lemma path_clean_twice: "d \<noteq> [] \<Longrightarrow> path_clean (path_clean d) = path_clean d"
  using build_elements [OF elements_clean [of d]] by (simp add: path_clean_def)

text \<open>The parent and the name of a child.\<close>

lemma last_part:
  assumes "slash_unit \<notin> set n"
  shows "rev (dropWhile (\<lambda>u. u \<noteq> slash_unit) (rev (d @ slash_unit # n))) = d @ [slash_unit]"
    and "rev (dropWhile (\<lambda>u. u \<noteq> slash_unit) (rev n)) = []"
proof -
  have "dropWhile (\<lambda>u. u \<noteq> slash_unit) (rev n) = []"
    using assms by (auto simp: dropWhile_eq_Nil_conv)
  then show "rev (dropWhile (\<lambda>u. u \<noteq> slash_unit) (rev (d @ slash_unit # n))) = d @ [slash_unit]"
    and "rev (dropWhile (\<lambda>u. u \<noteq> slash_unit) (rev n)) = []"
    by (simp_all add: dropWhile_append)
qed

lemma not_below_slash: "n \<noteq> [] \<Longrightarrow> slash_unit \<notin> set n \<Longrightarrow>
    rev (dropWhile (\<lambda>u. u = slash_unit) (rev (d @ n))) = d @ n"
  by (cases n rule: rev_cases) auto

lemma path_of_child:
  assumes "plain_name n" "d \<noteq> []"
  shows "path_dir (below (path_clean d) n) = path_clean d" "path_base (below (path_clean d) n) = n"
proof -
  have n: "n \<noteq> []" "slash_unit \<notin> set n"
    using assms(1) by (auto simp: plain_name_def)
  have c: "path_clean [slash_unit] = [slash_unit]" "path_clean [] = dot" "dot \<noteq> [slash_unit]"
    by (simp_all add: path_clean_def build_path_def is_rooted_def slash_unit_def dot_def)
  have b: "last (elements (x @ slash_unit # n)) = n" "last (elements n) = n" for x
    using split_snoc [OF n(2), of x] js_split_plain [OF n(2)] by simp_all
  let ?c = "path_clean d"
  consider "?c = [slash_unit]" | "?c = dot" | "?c \<noteq> [slash_unit]" "?c \<noteq> dot"
    by blast
  then show "path_dir (below ?c n) = ?c"
  proof cases
    case 1
    then show ?thesis
      using last_part(1) [OF n(2), of "[]"] c(1) by (simp add: below_def path_dir_def)
  next
    case 2
    then show ?thesis
      unfolding path_dir_def below_def using last_part(2) [OF n(2)] c(2,3) by (simp only: if_True if_False simp_thms)
  next
    case 3
    then show ?thesis
      using last_part(1) [OF n(2), of ?c] path_clean_slash [OF assms(2)] by (simp add: below_def path_dir_def)
  qed
  have e: "path_base (x @ n) = last (elements (x @ n))" for x
    using n(1) not_below_slash [OF n, of x] by (simp add: path_base_def)
  show "path_base (below ?c n) = n"
    using e [of "[]"] e [of "[slash_unit]"] e [of "?c @ [slash_unit]"] b(1) [of "[]"] b(1) [of ?c] b(2)
    by (auto simp: below_def)
qed

text \<open>The parent of a child, as \<open>Clean\<close> sees it.\<close>

lemma clean_snoc_parent: "plain_name n \<Longrightarrow> clean_elements r k (es @ [n, dotdot]) = clean_elements r k es"
  by (induction es arbitrary: k) (auto simp: plain_name_def dotdot_def dot_def)

lemma clean_parent:
  assumes "plain_name n" "d \<noteq> []"
  shows "path_clean (d @ slash_unit # n @ slash_unit # dotdot) = path_clean d"
proof -
  have "slash_unit \<notin> set dotdot" "slash_unit \<notin> set n"
    using assms(1) by (simp_all add: dotdot_def slash_unit_def plain_name_def)
  then have "elements (d @ slash_unit # n @ slash_unit # dotdot) = elements d @ [n, dotdot]"
    using split_snoc [of slash_unit dotdot "d @ slash_unit # n"] split_snoc [of slash_unit n d] by simp
  moreover have "is_rooted (d @ slash_unit # n @ slash_unit # dotdot) = is_rooted d"
    using assms(2) by (simp add: is_rooted_def)
  ultimately show ?thesis
    using assms by (simp add: path_clean_def clean_snoc_parent)
qed

lemma clean_parent_below:
  assumes "plain_name n" "d \<noteq> []" "path_clean d = d"
  shows "path_clean (below d n @ slash_unit # dotdot) = d"
proof -
  have u: "slash_unit \<notin> set dotdot" "slash_unit \<notin> set n" "n \<noteq> []"
    using assms(1) by (simp_all add: dotdot_def slash_unit_def plain_name_def)
  have e: "elements (n @ slash_unit # dotdot) = [n, dotdot]"
    using split_snoc [of slash_unit dotdot n] u js_split_plain [of slash_unit n] by simp
  have c: "clean_elements r [] [n, dotdot] = []" for r
    using clean_snoc_parent [OF assms(1), of r "[]" "[]"] by simp
  have r: "is_rooted (slash_unit # x)" "\<not> is_rooted (n @ slash_unit # dotdot)" for x
    using u(2,3) by (simp add: is_rooted_def, cases n) (auto simp: is_rooted_def)
  consider "d = [slash_unit]" | "d = dot" | "d \<noteq> [slash_unit]" "d \<noteq> dot"
    by blast
  then show ?thesis
  proof cases
    case 1
    then show ?thesis
      using e c [of True] r by (simp add: below_def path_clean_def build_path_def)
  next
    case 2
    have "dot \<noteq> [slash_unit]"
      by (simp add: dot_def slash_unit_def)
    then show ?thesis
      using 2 e c [of False] r u(3) by (simp add: below_def path_clean_def build_path_def)
  next
    case 3
    then show ?thesis
      using clean_parent [OF assms(1,2)] assms(3) by (simp add: below_def)
  qed
qed

end
