(* ===== verification/Remote_Upload.thy ===== *)
theory Remote_Upload
  imports Go_Path Server_Store
begin

text \<open>
  Uploads on the server (\<open>internal/api/sftp_handler.go\<close>, \<open>internal/sftpclient/client.go\<close>): where a file
  goes, and \<open>Client.Upload\<close> as a sequence of SFTP operations on a remote file system that others
  change in between.

  An operation that reports an error may still have taken effect, as its answer can be lost. The name of the
  temporary file is random; others are taken not to touch it.
\<close>

section \<open>Where a file goes\<close>

definition backslash :: "16 word" where "backslash = 0x5C"

definition upload_name :: "js_string \<Rightarrow> js_string" where
  "upload_name header = path_base (map (\<lambda>u. if u = backslash then slash_unit else u) header)"

definition invalid_name :: "js_string \<Rightarrow> bool" where
  "invalid_name n \<longleftrightarrow> n = dot \<or> n = [slash_unit] \<or> n = dotdot \<or> 0 \<in> set n"

text \<open>The path of the file, from the form's \<open>path\<close> and the file's name; nothing when the name is refused.\<close>

definition upload_target :: "js_string \<Rightarrow> js_string \<Rightarrow> js_string option" where
  "upload_target form_path header =
     (if invalid_name (upload_name header) then None
      else Some (path_join (if form_path = [] then [slash_unit] else form_path) (upload_name header)))"

definition temp_path :: "js_string \<Rightarrow> bytes \<Rightarrow> js_string" where
  "temp_path dest nonce = path_join (path_dir dest) (js ''.opsup-upload-'' @ hex_encode nonce)"

section \<open>The upload\<close>

record node =
  nd_regular :: bool
  nd_mode :: nat
  nd_owner :: "int \<times> int"
  nd_data :: bytes

type_synonym remote = "js_string \<rightharpoonup> node"

datatype upload_error =
    Not_Regular | Check_Failed | No_Random | Create_Failed | Secure_Failed | Write_Failed | Close_Failed
  | No_Overwrite | Publish_Failed

datatype upload_stage =
    Look_Up | Draw | Create | Secure | Copying bytes | Change_Owner | Change_Mode
  | Close_File "upload_error option" | Look_Again | Publish | Discard upload_error
  | Ended "upload_error option"

text \<open>The mode 600, in octal digits.\<close>

definition private_mode :: nat where "private_mode = 6 * 64"

text \<open>\<open>up_posix\<close> says whether the server has \<open>posix-rename@openssh.com\<close>.\<close>

record upload_run =
  remote_files :: remote
  up_dest :: js_string
  up_temp :: js_string
  up_source :: bytes
  up_posix :: bool
  up_mode :: nat
  up_owner :: "(int \<times> int) option"
  up_stage :: upload_stage

definition start_upload :: "remote \<Rightarrow> js_string \<Rightarrow> js_string \<Rightarrow> bytes \<Rightarrow> bool \<Rightarrow> upload_run" where
  "start_upload fs dest temp src posix =
     \<lparr>remote_files = fs, up_dest = dest, up_temp = temp, up_source = src, up_posix = posix,
      up_mode = private_mode, up_owner = None, up_stage = Look_Up\<rparr>"

text \<open>
  What an operation meets: whether it succeeds, whether it has its effect when it does not, how many bytes a
  write takes, and the attributes the server gives to a new file.
\<close>

record op_result =
  op_ok :: bool
  op_effect :: bool
  op_bytes :: nat
  op_attrs :: node

definition goes_to :: "upload_stage \<Rightarrow> upload_run \<Rightarrow> upload_run" where
  "goes_to st u = u\<lparr>up_stage := st\<rparr>"

definition on_temp :: "op_result \<Rightarrow> (node \<Rightarrow> node) \<Rightarrow> upload_run \<Rightarrow> upload_run" where
  "on_temp o1 f u =
     (if op_ok o1 \<or> op_effect o1
      then u\<lparr>remote_files := (remote_files u)(up_temp u := map_option f (remote_files u (up_temp u)))\<rparr>
      else u)"

definition after_copy :: "upload_run \<Rightarrow> upload_stage" where
  "after_copy u = (if up_owner u \<noteq> None then Change_Owner else Change_Mode)"

definition look_up :: "op_result \<Rightarrow> upload_run \<Rightarrow> upload_run" where
  "look_up o1 u =
     (if \<not> op_ok o1 then goes_to (Ended (Some Check_Failed)) u
      else (case remote_files u (up_dest u) of
          None \<Rightarrow> goes_to Draw u
        | Some nd \<Rightarrow>
            if \<not> nd_regular nd then goes_to (Ended (Some Not_Regular)) u
            else goes_to Draw (u\<lparr>up_mode := nd_mode nd mod 512, up_owner := Some (nd_owner nd)\<rparr>)))"

definition create_temp :: "op_result \<Rightarrow> upload_run \<Rightarrow> upload_run" where
  "create_temp o1 u =
     (let free = (remote_files u (up_temp u) = None);
          u1 = (if free \<and> (op_ok o1 \<or> op_effect o1)
                then u\<lparr>remote_files := (remote_files u)(up_temp u \<mapsto> (op_attrs o1)\<lparr>nd_regular := True, nd_data := []\<rparr>)\<rparr>
                else u)
      in if free \<and> op_ok o1 then goes_to Secure u1 else goes_to (Ended (Some Create_Failed)) u1)"

text \<open>
  \<open>Rename\<close> of SFTP version 3 never replaces a file, the POSIX extension does. Either takes the temporary file
  away.
\<close>

definition publish :: "op_result \<Rightarrow> upload_run \<Rightarrow> upload_run" where
  "publish o1 u =
     (case remote_files u (up_temp u) of
        None \<Rightarrow> goes_to (Discard Publish_Failed) u
      | Some nd \<Rightarrow>
          (let possible = (up_posix u \<or> remote_files u (up_dest u) = None);
               u1 = (if possible \<and> (op_ok o1 \<or> op_effect o1)
                     then u\<lparr>remote_files := (remote_files u)(up_temp u := None, up_dest u \<mapsto> nd)\<rparr> else u)
           in if possible \<and> op_ok o1 then goes_to (Ended None) u1 else goes_to (Discard Publish_Failed) u1))"

definition upload_op :: "op_result \<Rightarrow> upload_run \<Rightarrow> upload_run" where
  "upload_op o1 u =
     (case up_stage u of
        Look_Up \<Rightarrow> look_up o1 u
      | Draw \<Rightarrow> goes_to (if op_ok o1 then Create else Ended (Some No_Random)) u
      | Create \<Rightarrow> create_temp o1 u
      | Secure \<Rightarrow>
          goes_to (if op_ok o1 then Copying (up_source u) else Discard Secure_Failed)
            (on_temp o1 (\<lambda>nd. nd\<lparr>nd_mode := private_mode\<rparr>) u)
      | Copying rest \<Rightarrow>
          if rest = [] then goes_to (after_copy u) u
          else goes_to (if op_ok o1 then Copying (drop (op_bytes o1) rest) else Close_File (Some Write_Failed))
                 (on_temp o1 (\<lambda>nd. nd\<lparr>nd_data := nd_data nd @ take (op_bytes o1) rest\<rparr>) u)
      | Change_Owner \<Rightarrow>
          goes_to (if op_ok o1 then Change_Mode else Close_File (Some Write_Failed))
            (on_temp o1 (\<lambda>nd. nd\<lparr>nd_owner := the (up_owner u)\<rparr>) u)
      | Change_Mode \<Rightarrow>
          goes_to (Close_File (if op_ok o1 then None else Some Write_Failed))
            (on_temp o1 (\<lambda>nd. nd\<lparr>nd_mode := up_mode u\<rparr>) u)
      | Close_File e \<Rightarrow>
          goes_to (case e of
              Some err \<Rightarrow> Discard err
            | None \<Rightarrow>
                if \<not> op_ok o1 then Discard Close_Failed else if up_posix u then Publish else Look_Again) u
      | Look_Again \<Rightarrow>
          goes_to (if \<not> op_ok o1 then Discard Check_Failed
                   else if remote_files u (up_dest u) \<noteq> None then Discard No_Overwrite else Publish) u
      | Publish \<Rightarrow> publish o1 u
      | Discard e \<Rightarrow>
          goes_to (Ended (Some e))
            (if op_ok o1 \<or> op_effect o1
             then u\<lparr>remote_files := (remote_files u)(up_temp u := None)\<rparr> else u)
      | Ended r \<Rightarrow> u)"

datatype upload_event = Operation op_result | Others "remote \<Rightarrow> remote"

fun upload_step :: "upload_run \<Rightarrow> upload_event \<Rightarrow> upload_run" where
  "upload_step u (Operation o1) = upload_op o1 u"
| "upload_step u (Others g) =
     u\<lparr>remote_files := (g (remote_files u))(up_temp u := remote_files u (up_temp u))\<rparr>"

section \<open>What is in the temporary file\<close>

definition temp_has :: "upload_run \<Rightarrow> (node \<Rightarrow> bool) \<Rightarrow> bool" where
  "temp_has u P \<longleftrightarrow> (\<exists>nd. remote_files u (up_temp u) = Some nd \<and> nd_regular nd \<and> P nd)"

definition upload_inv :: "upload_run \<Rightarrow> bool" where
  "upload_inv u \<longleftrightarrow>
     (case up_stage u of
        Secure \<Rightarrow> temp_has u (\<lambda>nd. nd_data nd = [])
      | Copying rest \<Rightarrow> temp_has u (\<lambda>nd. nd_data nd @ rest = up_source u)
      | Change_Owner \<Rightarrow> temp_has u (\<lambda>nd. nd_data nd = up_source u) \<and> up_owner u \<noteq> None
      | Change_Mode \<Rightarrow>
          temp_has u (\<lambda>nd. nd_data nd = up_source u \<and> (up_owner u = None \<or> up_owner u = Some (nd_owner nd)))
      | Close_File None \<Rightarrow>
          temp_has u (\<lambda>nd. nd_data nd = up_source u \<and> nd_mode nd = up_mode u \<and>
            (up_owner u = None \<or> up_owner u = Some (nd_owner nd)))
      | Look_Again \<Rightarrow>
          temp_has u (\<lambda>nd. nd_data nd = up_source u \<and> nd_mode nd = up_mode u \<and>
            (up_owner u = None \<or> up_owner u = Some (nd_owner nd)))
      | Publish \<Rightarrow>
          temp_has u (\<lambda>nd. nd_data nd = up_source u \<and> nd_mode nd = up_mode u \<and>
            (up_owner u = None \<or> up_owner u = Some (nd_owner nd)))
      | _ \<Rightarrow> True)"

lemma goes_to_simps [simp]:
  "up_stage (goes_to st u) = st" "remote_files (goes_to st u) = remote_files u" "up_temp (goes_to st u) = up_temp u"
  "up_dest (goes_to st u) = up_dest u" "up_source (goes_to st u) = up_source u" "up_mode (goes_to st u) = up_mode u"
  "up_owner (goes_to st u) = up_owner u" "up_posix (goes_to st u) = up_posix u"
  by (simp_all add: goes_to_def)

lemma on_temp_simps [simp]:
  "up_stage (on_temp o1 f u) = up_stage u" "up_temp (on_temp o1 f u) = up_temp u"
  "up_dest (on_temp o1 f u) = up_dest u" "up_source (on_temp o1 f u) = up_source u"
  "up_mode (on_temp o1 f u) = up_mode u" "up_owner (on_temp o1 f u) = up_owner u"
  "up_posix (on_temp o1 f u) = up_posix u"
  by (simp_all add: on_temp_def)

lemma temp_has_simps [simp]:
  "temp_has (goes_to st u) P = temp_has u P"
  "op_ok o1 \<Longrightarrow> temp_has (on_temp o1 f u) P \<longleftrightarrow>
     (\<exists>nd. remote_files u (up_temp u) = Some nd \<and> nd_regular (f nd) \<and> P (f nd))"
  by (auto simp: temp_has_def on_temp_def)

lemma upload_op_inv:
  assumes "upload_inv u"
  shows "upload_inv (upload_op o1 u)"
proof (cases "up_stage u")
  case (Copying rest)
  then show ?thesis
    using assms by (cases "rest = []"; cases "op_ok o1"; cases "up_owner u")
      (auto simp: upload_inv_def upload_op_def after_copy_def temp_has_def on_temp_def)
next
  case (Close_File e)
  then show ?thesis
    using assms by (cases e) (auto simp: upload_inv_def upload_op_def temp_has_def)
next
  case Look_Up
  then show ?thesis
    by (auto simp: upload_inv_def upload_op_def look_up_def split: option.split)
next
  case Create
  then show ?thesis
    by (auto simp: upload_inv_def upload_op_def create_temp_def temp_has_def Let_def)
next
  case Publish
  then show ?thesis
    by (auto simp: upload_inv_def upload_op_def publish_def Let_def split: option.split)
qed (use assms in \<open>auto simp: upload_inv_def upload_op_def temp_has_def on_temp_def\<close>)

lemma upload_step_inv: "upload_inv u \<Longrightarrow> upload_inv (upload_step u e)"
proof (cases e)
  case (Others g)
  assume "upload_inv u"
  then show ?thesis
    using Others by (auto simp: upload_inv_def temp_has_def split: upload_stage.splits option.splits)
qed (simp add: upload_op_inv)

interpretation uploads: machine upload_step upload_inv
  by unfold_locales (rule upload_step_inv)

lemma start_upload_inv [simp]: "upload_inv (start_upload fs dest temp src posix)"
  by (simp add: upload_inv_def start_upload_def)

section \<open>All or nothing\<close>

lemma upload_op_fields [simp]:
  "up_dest (upload_op o1 u) = up_dest u" "up_temp (upload_op o1 u) = up_temp u"
  "up_source (upload_op o1 u) = up_source u" "up_posix (upload_op o1 u) = up_posix u"
  by (auto simp: upload_op_def look_up_def create_temp_def publish_def goes_to_def on_temp_def Let_def
      split: upload_stage.split option.split)

lemma upload_step_fields [simp]:
  "up_dest (upload_step u e) = up_dest u" "up_temp (upload_step u e) = up_temp u"
  "up_source (upload_step u e) = up_source u" "up_posix (upload_step u e) = up_posix u"
  by (cases e; simp)+

lemma upload_fields:
  "up_dest (run upload_step u es) = up_dest u \<and> up_temp (run upload_step u es) = up_temp u \<and>
   up_source (run upload_step u es) = up_source u \<and> up_posix (run upload_step u es) = up_posix u"
  by (induction es arbitrary: u) (simp_all del: upload_step.simps)

text \<open>Only the publication touches anything but the temporary file.\<close>

lemma operation_touches:
  "up_stage u \<noteq> Publish \<Longrightarrow> p \<noteq> up_temp u \<Longrightarrow> remote_files (upload_op o1 u) p = remote_files u p"
  by (auto simp: upload_op_def look_up_def create_temp_def on_temp_def Let_def split: upload_stage.split option.split)

lemma publication:
  assumes "up_stage u = Publish"
  shows "upload_op o1 u = publish o1 u"
  using assms by (simp add: upload_op_def)

lemma publish_cases:
  assumes "remote_files u (up_temp u) = Some nd"
  shows "remote_files (publish o1 u) = remote_files u \<and> up_stage (publish o1 u) = Discard Publish_Failed
    \<or> (up_posix u \<or> remote_files u (up_dest u) = None)
      \<and> remote_files (publish o1 u) = (remote_files u)(up_temp u := None, up_dest u \<mapsto> nd)"
  by (cases "up_posix u \<or> remote_files u (up_dest u) = None"; cases "op_ok o1"; cases "op_effect o1")
    (simp_all add: publish_def assms Let_def)

lemma ends_by_publishing:
  "up_stage (upload_op o1 u) = Ended None \<Longrightarrow> up_stage u \<noteq> Ended None \<Longrightarrow> up_stage u = Publish \<and> op_ok o1"
  by (auto simp: upload_op_def look_up_def create_temp_def publish_def after_copy_def Let_def
      split: upload_stage.splits option.splits if_splits)

lemma published_file:
  assumes "upload_inv u" "up_temp u \<noteq> up_dest u"
    and "up_stage u \<noteq> Ended None" "up_stage (upload_op o1 u) = Ended None"
  shows "\<exists>nd. remote_files (upload_op o1 u) (up_dest u) = Some nd \<and> nd_regular nd \<and> nd_data nd = up_source u"
proof -
  have p: "up_stage u = Publish"
    using ends_by_publishing [OF assms(4,3)] by simp
  then obtain nd where nd: "remote_files u (up_temp u) = Some nd" "nd_regular nd" "nd_data nd = up_source u"
    using assms(1) by (auto simp: upload_inv_def temp_has_def)
  have "up_stage (publish o1 u) \<noteq> Discard Publish_Failed"
    using assms(4) by (simp add: publication [OF p])
  then have "remote_files (publish o1 u) = (remote_files u)(up_temp u := None, up_dest u \<mapsto> nd)"
    using publish_cases [OF nd(1), of o1] by blast
  then show ?thesis
    using nd(2,3) by (simp add: publication [OF p])
qed

text \<open>
  Claim C23. An upload is all or nothing. Whatever else happens to the remote file system in between, whichever operations
  fail, and even when a failed one took effect after all, each operation of an upload leaves the destination as it
  was, or puts there the whole uploaded file, with the mode and owner of the file it replaces; without the POSIX
  extension it never replaces a file at all. Nothing but the destination and the temporary file is touched;
  success is reported only when the whole file is there; and an end that succeeds leaves no temporary file.
\<close>

theorem an_upload_is_all_or_nothing:
  assumes "u = run upload_step (start_upload fs dest temp src posix) es" and "temp \<noteq> dest"
    and "u' = upload_step u (Operation o1)"
  shows "(remote_files u' dest = remote_files u dest
      \<or> up_stage u = Publish \<and> (posix \<or> remote_files u dest = None)
        \<and> (\<exists>nd. remote_files u' dest = Some nd \<and> nd_regular nd \<and> nd_data nd = src \<and> nd_mode nd = up_mode u
            \<and> (up_owner u = None \<or> up_owner u = Some (nd_owner nd))))
    \<and> (\<forall>p. p = dest \<or> p = temp \<or> remote_files u' p = remote_files u p)
    \<and> (up_stage u' = Ended None \<longrightarrow> up_stage u = Ended None
        \<or> (\<exists>nd. remote_files u' dest = Some nd \<and> nd_data nd = src) \<and> remote_files u' temp = None)
    \<and> (\<forall>e. up_stage u = Discard e \<and> op_ok o1 \<longrightarrow> remote_files u' temp = None)"
proof -
  have f: "up_dest u = dest" "up_temp u = temp" "up_source u = src" "up_posix u = posix"
    unfolding assms(1) using upload_fields [of "start_upload fs dest temp src posix" es]
    by (simp_all add: start_upload_def)
  have inv: "upload_inv u"
    unfolding assms(1) by (rule uploads.run_inv) simp
  have u': "u' = upload_op o1 u"
    using assms(3) by simp
  show ?thesis
  proof (cases "up_stage u = Publish")
    case True
    then obtain nd where nd: "remote_files u temp = Some nd" "nd_regular nd" "nd_data nd = src" "nd_mode nd = up_mode u"
      "up_owner u = None \<or> up_owner u = Some (nd_owner nd)"
      using inv f by (auto simp: upload_inv_def temp_has_def)
    consider (kept) "remote_files u' = remote_files u" "up_stage u' = Discard Publish_Failed"
      | (put) "posix \<or> remote_files u dest = None" "remote_files u' = (remote_files u)(temp := None, dest \<mapsto> nd)"
      using publish_cases [of u nd o1, unfolded f] nd(1) unfolding u' publication [OF True] by metis
    then show ?thesis
    proof cases
      case kept
      then show ?thesis
        using True by simp
    next
      case put
      have "remote_files u' dest = Some nd" "remote_files u' temp = None" "p = dest \<or> p = temp \<or> remote_files u' p = remote_files u p" for p
        using assms(2) unfolding put(2) by simp_all
      then show ?thesis
        using True nd put(1) by blast
    qed
  next
    case False
    have "\<forall>p. p = dest \<or> p = temp \<or> remote_files u' p = remote_files u p" "remote_files u' dest = remote_files u dest"
      using operation_touches [OF False] assms(2) f unfolding u' by auto
    moreover have "up_stage u' = Ended None \<longrightarrow> up_stage u = Ended None"
      using ends_by_publishing [of o1 u] False unfolding u' by blast
    moreover have "\<forall>e. up_stage u = Discard e \<and> op_ok o1 \<longrightarrow> remote_files u' temp = None"
      using f unfolding u' by (auto simp: upload_op_def)
    ultimately show ?thesis
      by simp
  qed
qed

definition good_op :: op_result where
  "good_op = \<lparr>op_ok = True, op_effect = True, op_bytes = 2,
     op_attrs = \<lparr>nd_regular = True, nd_mode = 0, nd_owner = (0, 0), nd_data = []\<rparr>\<rparr>"

lemma good_op_simps [simp]: "op_ok good_op" "op_bytes good_op = 2"
  by (simp_all add: good_op_def)

theorem an_upload_is_all_or_nothing_witness:
  "let u = run upload_step (start_upload Map.empty [1] [2] [7, 8, 9] True) (replicate 9 (Operation good_op));
       u' = upload_step u (Operation good_op)
   in up_stage u = Publish \<and> up_stage u' = Ended None
    \<and> (\<exists>nd. remote_files u' [1] = Some nd \<and> nd_data nd = [7, 8, 9]) \<and> remote_files u' [2] = None"
proof -
  let ?u = "run upload_step (start_upload Map.empty [1] [2] [7, 8, 9] True) (replicate 9 (Operation good_op))"
  let ?v = "upload_step ?u (Operation good_op)"
  have s: "up_stage ?u = Publish" "up_stage ?v = Ended None"
    by (simp_all add: start_upload_def upload_op_def look_up_def create_temp_def on_temp_def after_copy_def
        publish_def goes_to_def eval_nat_numeral Let_def)
  then show ?thesis
    using an_upload_is_all_or_nothing [of ?u Map.empty "[1]" "[2]" "[7, 8, 9]" True
        "replicate 9 (Operation good_op)" ?v good_op]
    by (simp del: upload_step.simps add: Let_def)
qed

section \<open>An upload ends\<close>

fun stage_rank :: "nat \<Rightarrow> upload_stage \<Rightarrow> nat" where
  "stage_rank n Look_Up = n + 12"
| "stage_rank n Draw = n + 11"
| "stage_rank n Create = n + 10"
| "stage_rank n Secure = n + 9"
| "stage_rank n (Copying rest) = length rest + 8"
| "stage_rank n Change_Owner = 7"
| "stage_rank n Change_Mode = 6"
| "stage_rank n (Close_File e) = 5"
| "stage_rank n Look_Again = 4"
| "stage_rank n Publish = 3"
| "stage_rank n (Discard e) = 2"
| "stage_rank n (Ended r) = 0"

definition left_to_do :: "upload_run \<Rightarrow> nat" where
  "left_to_do u = stage_rank (length (up_source u)) (up_stage u)"

lemma operation_progress:
  assumes "0 < op_bytes o1"
  shows "left_to_do (upload_op o1 u) \<le> left_to_do u - 1"
  using assms
proof (cases "up_stage u")
  case (Copying rest)
  then show ?thesis
    using assms by (cases rest) (auto simp: left_to_do_def upload_op_def after_copy_def)
qed (auto simp: left_to_do_def upload_op_def look_up_def create_temp_def publish_def Let_def
    split: option.split)

definition progresses :: "upload_event \<Rightarrow> bool" where
  "progresses e \<longleftrightarrow> (case e of Operation o1 \<Rightarrow> 0 < op_bytes o1 | Others g \<Rightarrow> True)"

definition operations :: "upload_event list \<Rightarrow> nat" where
  "operations es = length (filter (\<lambda>e. case e of Operation o1 \<Rightarrow> True | Others g \<Rightarrow> False) es)"

lemma operations_progress:
  "list_all progresses es \<Longrightarrow> left_to_do (run upload_step u es) \<le> left_to_do u - operations es"
proof (induction es arbitrary: u)
  case (Cons e es)
  have "left_to_do (upload_step u e) \<le> left_to_do u - operations [e]"
  proof (cases e)
    case (Operation o1)
    then show ?thesis
      using Cons.prems operation_progress [of o1 u] by (simp add: progresses_def operations_def)
  qed (simp add: left_to_do_def operations_def)
  moreover have "operations (e # es) = operations [e] + operations es"
    by (simp add: operations_def)
  ultimately show ?case
    using Cons.IH [of "upload_step u e"] Cons.prems by simp
qed (simp add: operations_def)

text \<open>
  An upload ends, in success or failure, after at most twelve operations more than the file has bytes,
  as long as a write that succeeds takes at least one byte, whatever fails and whatever others do.
\<close>

lemma an_upload_ends:
  assumes "u = run upload_step (start_upload fs dest temp src posix) es"
    and "list_all progresses es" and "length src + 12 \<le> operations es"
  shows "\<exists>r. up_stage u = Ended r"
proof -
  have "left_to_do u = 0"
    using operations_progress [OF assms(2), of "start_upload fs dest temp src posix"] assms(1,3)
    by (simp add: left_to_do_def start_upload_def)
  then show ?thesis
    by (cases "up_stage u") (auto simp: left_to_do_def)
qed

lemma an_upload_ends_witness:
  "\<exists>r. up_stage (run upload_step (start_upload Map.empty [1] [2] [7, 8, 9] True) (replicate 15 (Operation good_op))) = Ended r"
  by (rule an_upload_ends [OF refl]) (simp_all add: progresses_def operations_def eval_nat_numeral)

section \<open>Where uploads may go\<close>

lemma base_has_no_slash: "path_base p = [slash_unit] \<or> slash_unit \<notin> set (path_base p)"
proof (cases "p = [] \<or> rev (dropWhile (\<lambda>u. u = slash_unit) (rev p)) = []")
  case True
  then show ?thesis
    by (auto simp: path_base_def dot_def slash_unit_def)
next
  case False
  let ?q = "rev (dropWhile (\<lambda>u. u = slash_unit) (rev p))"
  have "elements ?q \<noteq> []"
    by simp
  then have "last (elements ?q) \<in> set (elements ?q)"
    by (rule last_in_set)
  then show ?thesis
    using False js_split_pieces [of "last (elements ?q)" slash_unit ?q] by (simp add: path_base_def Let_def)
qed

lemma base_not_empty: "path_base p \<noteq> []"
proof (cases "p = [] \<or> rev (dropWhile (\<lambda>u. u = slash_unit) (rev p)) = []")
  case True
  then show ?thesis
    by (auto simp: path_base_def dot_def)
next
  case False
  let ?d = "dropWhile (\<lambda>u. u = slash_unit) (rev p)"
  have ne: "?d \<noteq> []" "hd ?d \<noteq> slash_unit"
    using False hd_dropWhile [of "\<lambda>u. u = slash_unit" "rev p"] by auto
  then obtain q u where q: "rev ?d = q @ [u]" "u \<noteq> slash_unit"
    by (cases ?d) auto
  have "last (js_split c (x @ [v])) \<noteq> []" if "v \<noteq> c" for x v and c :: "16 word"
  proof (induction x)
    case (Cons y ys)
    then show ?case
      by (cases "js_split c (ys @ [v])") auto
  qed (use that in simp)
  then show ?thesis
    using False q by (simp add: path_base_def Let_def)
qed

lemma accepted_name_is_plain: "\<not> invalid_name (path_base p) \<Longrightarrow> plain_name (path_base p)"
  using base_has_no_slash [of p] base_not_empty [of p] by (auto simp: invalid_name_def plain_name_def)

lemma hex_has_no_slash: "slash_unit \<notin> set (hex_encode bs)"
proof -
  have "list_all (\<lambda>n. hex_char n \<noteq> slash_unit) [0..<16]"
    by code_simp
  then have h: "hex_char n \<noteq> slash_unit" if "n < 16" for n
    using that by (simp add: list_all_iff del: upt_rec_numeral)
  have "unat b < 256" for b :: "8 word"
    using unsigned_less [of b] by simp
  then have "unat b div 16 < 16" for b :: "8 word"
    by (simp add: less_mult_imp_div_less)
  then have "slash_unit \<notin> set [hex_char (unat b div 16), hex_char (unat b mod 16)]" for b :: "8 word"
    using h [of "unat b div 16"] h [of "unat b mod 16"] by auto
  then show ?thesis
    by (auto simp: hex_encode_def)
qed

lemma temp_name_is_plain: "plain_name (js ''.opsup-upload-'' @ hex_encode nonce)"
  using hex_has_no_slash [of nonce] by (simp add: plain_name_def slash_unit_def dot_def dotdot_def js_def)

text \<open>
  Claim C27. Whatever name the browser sends for a file, with slashes, backslashes and dots to the parent, the
  upload is refused or its destination is a child of the chosen directory, cleaned, with the accepted name;
  and its temporary file is a child of the same directory.
\<close>

theorem uploads_stay_in_their_directory:
  assumes "upload_target form_path header = Some dest"
  shows "path_dir dest = path_clean (if form_path = [] then [slash_unit] else form_path)
    \<and> path_base dest = upload_name header \<and> plain_name (upload_name header)
    \<and> path_dir (temp_path dest nonce) = path_dir dest"
proof -
  let ?d = "if form_path = [] then [slash_unit] else form_path"
  let ?t = "js ''.opsup-upload-'' @ hex_encode nonce"
  have a: "\<not> invalid_name (upload_name header)" "dest = path_join ?d (upload_name header)"
    using assms by (auto simp: upload_target_def split: if_splits)
  then have n: "plain_name (upload_name header)"
    unfolding upload_name_def by (blast intro: accepted_name_is_plain)
  have d: "?d \<noteq> []"
    by simp
  have p: "path_dir dest = path_clean ?d" "path_base dest = upload_name header"
    using path_of_child [OF n d] join_plain [OF n d] a(2) by simp_all
  have c: "path_clean ?d \<noteq> []" "path_clean (path_clean ?d) = path_clean ?d"
    using path_clean_nonempty [OF d] path_clean_twice [OF d] by blast+
  have "path_dir (temp_path dest nonce) = path_clean ?d"
    using path_of_child(1) [OF temp_name_is_plain c(1)] join_plain [OF temp_name_is_plain c(1)] c(2) p(1)
    unfolding temp_path_def by simp
  then show ?thesis
    using p n by simp
qed

theorem uploads_stay_in_their_directory_witness:
  "upload_target (js ''/srv/../etc'') (js ''../../root'' @ backslash # js ''passwd'') = Some (js ''/etc/passwd'')
    \<and> path_dir (js ''/etc/passwd'') = path_clean (js ''/srv/../etc'')
    \<and> path_dir (temp_path (js ''/etc/passwd'') [1, 255]) = path_dir (js ''/etc/passwd'')"
proof -
  have t: "upload_target (js ''/srv/../etc'') (js ''../../root'' @ backslash # js ''passwd'') = Some (js ''/etc/passwd'')"
    by code_simp
  moreover have "js ''/srv/../etc'' \<noteq> []"
    by code_simp
  ultimately show ?thesis
    using uploads_stay_in_their_directory [OF t, of "[1, 255]"] by simp
qed

end
