(* ===== verification/Remote_Files.thy ===== *)
theory Remote_Files
  imports Remote_Upload Gateway
begin

text \<open>
  The other file handlers (\<open>internal/api/sftp_handler.go\<close>): connecting, listing, downloading, making and
  deleting, and the two ends of an upload, whose middle is \<open>Remote_Upload\<close>.

  Parameters: \<open>load\<close> is the query of a row, \<open>reach\<close> what \<open>dialServer\<close> returns, \<open>init\<close> whether the SFTP subsystem
  starts, and \<open>ops\<close> the operations of the SFTP library on the remote files, whose type is a parameter too.
\<close>

section \<open>Connecting\<close>

datatype connect_error = Invalid_Id | Load_Failure | Server_Missing | Dial_Failed dial_error | Init_Failed

definition connect_sftp ::
    "(int \<Rightarrow> row option option) \<Rightarrow> (row \<Rightarrow> dial_error + client) \<Rightarrow> bool \<Rightarrow> js_string \<Rightarrow> connect_error + client" where
  "connect_sftp load reach init param =
     (case go_parse_int param of
        None \<Rightarrow> Inl Invalid_Id
      | Some i \<Rightarrow>
          if i \<le> 0 then Inl Invalid_Id
          else (case load i of
              None \<Rightarrow> Inl Load_Failure
            | Some None \<Rightarrow> Inl Server_Missing
            | Some (Some r) \<Rightarrow>
                (case reach r of
                   Inl e \<Rightarrow> Inl (Dial_Failed e)
                 | Inr c \<Rightarrow> if init then Inr c else Inl Init_Failed)))"

section \<open>The operations on remote files\<close>

record listed =
  ls_name :: js_string
  ls_size :: nat
  ls_mode :: js_string
  ls_mod_time :: js_string
  ls_is_dir :: bool

record 'fs sftp_ops =
  read_dir :: "js_string \<Rightarrow> 'fs \<Rightarrow> js_string + listed list"
  stat_is_dir :: "js_string \<Rightarrow> 'fs \<Rightarrow> js_string + bool"
  open_file :: "js_string \<Rightarrow> 'fs \<Rightarrow> js_string + bytes"
  file_stat :: "js_string \<Rightarrow> 'fs \<Rightarrow> js_string + nat"
  make_all :: "js_string \<Rightarrow> 'fs \<Rightarrow> js_string option \<times> 'fs"
  remove_file :: "js_string \<Rightarrow> 'fs \<Rightarrow> js_string option \<times> 'fs"
  remove_directory :: "js_string \<Rightarrow> 'fs \<Rightarrow> js_string option \<times> 'fs"

datatype sftp_failure =
    No_Connection connect_error | Library_Error js_string | Upload_Error upload_error
  | Path_Missing | Bad_Form | Body_Too_Large | No_File | Bad_Name | Bad_Json

datatype sftp_answer =
    Failed nat sftp_failure
  | Listed "file_entry list"
  | Uploaded js_string
  | Attachment js_string nat bytes
  | Created
  | Deleted

section \<open>The handlers\<close>

definition dir_of_query :: "js_string \<Rightarrow> js_string" where
  "dir_of_query q = (if q = [] then [slash_unit] else q)"

definition file_info :: "js_string \<Rightarrow> listed \<Rightarrow> file_entry" where
  "file_info d e =
     \<lparr>fe_name = ls_name e, fe_size = ls_size e, fe_mode = ls_mode e, fe_mod_time = ls_mod_time e,
      fe_is_dir = ls_is_dir e, fe_path = path_join d (ls_name e)\<rparr>"

definition sftp_list :: "'fs sftp_ops \<Rightarrow> connect_error + client \<Rightarrow> js_string \<Rightarrow> 'fs \<Rightarrow> sftp_answer" where
  "sftp_list ops conn query fs =
     (case conn of
        Inl e \<Rightarrow> Failed 500 (No_Connection e)
      | Inr c \<Rightarrow>
          (case read_dir ops (dir_of_query query) fs of
             Inl e \<Rightarrow> Failed 500 (Library_Error e)
           | Inr es \<Rightarrow> Listed (map (file_info (dir_of_query query)) es)))"

definition max_upload_body :: nat where "max_upload_body = 256 * 1024 * 1024"

text \<open>
  A request to upload: how many bytes of its body the parser reads, whether they are a form, the field \<open>path\<close>
  and the file. Until the upload starts it is an answer; then it is where the file goes, and what it holds.
\<close>

record upload_request =
  ub_read :: nat
  ub_well_formed :: bool
  ub_path :: js_string
  ub_file :: "(js_string \<times> bytes) option"

definition sftp_upload ::
    "connect_error + client \<Rightarrow> upload_request \<Rightarrow> sftp_answer + js_string \<times> bytes" where
  "sftp_upload conn rq =
     (if max_upload_body < ub_read rq then Inl (Failed 413 Body_Too_Large)
      else if \<not> ub_well_formed rq then Inl (Failed 400 Bad_Form)
      else (case ub_file rq of
          None \<Rightarrow> Inl (Failed 400 No_File)
        | Some (header, content) \<Rightarrow>
            (case upload_target (ub_path rq) header of
               None \<Rightarrow> Inl (Failed 400 Bad_Name)
             | Some dest \<Rightarrow>
                 (case conn of
                    Inl e \<Rightarrow> Inl (Failed 500 (No_Connection e))
                  | Inr c \<Rightarrow> Inr (dest, content)))))"

definition upload_answer :: "js_string \<Rightarrow> upload_error option \<Rightarrow> sftp_answer" where
  "upload_answer dest r =
     (case r of Some e \<Rightarrow> Failed 500 (Upload_Error e) | None \<Rightarrow> Uploaded dest)"

definition sftp_download :: "'fs sftp_ops \<Rightarrow> connect_error + client \<Rightarrow> js_string \<Rightarrow> 'fs \<Rightarrow> sftp_answer" where
  "sftp_download ops conn query fs =
     (if query = [] then Failed 400 Path_Missing
      else (case conn of
          Inl e \<Rightarrow> Failed 500 (No_Connection e)
        | Inr c \<Rightarrow>
            (case open_file ops query fs of
               Inl e \<Rightarrow> Failed 500 (Library_Error e)
             | Inr content \<Rightarrow>
                 (case file_stat ops query fs of
                    Inl e \<Rightarrow> Failed 500 (Library_Error e)
                  | Inr len \<Rightarrow> Attachment (path_base query) len content))))"

text \<open>The body of a request to make a directory is a JSON object with a path, or it is refused.\<close>

definition sftp_mkdir ::
    "'fs sftp_ops \<Rightarrow> connect_error + client \<Rightarrow> js_string option \<Rightarrow> 'fs \<Rightarrow> sftp_answer \<times> 'fs" where
  "sftp_mkdir ops conn body fs =
     (case body of
        None \<Rightarrow> (Failed 400 Bad_Json, fs)
      | Some p \<Rightarrow>
          if p = [] then (Failed 400 Bad_Json, fs)
          else (case conn of
              Inl e \<Rightarrow> (Failed 500 (No_Connection e), fs)
            | Inr c \<Rightarrow>
                (case make_all ops p fs of
                   (Some e, fs1) \<Rightarrow> (Failed 500 (Library_Error e), fs1)
                 | (None, fs1) \<Rightarrow> (Created, fs1))))"

definition sftp_delete ::
    "'fs sftp_ops \<Rightarrow> connect_error + client \<Rightarrow> js_string \<Rightarrow> 'fs \<Rightarrow> sftp_answer \<times> 'fs" where
  "sftp_delete ops conn query fs =
     (if query = [] then (Failed 400 Path_Missing, fs)
      else (case conn of
          Inl e \<Rightarrow> (Failed 500 (No_Connection e), fs)
        | Inr c \<Rightarrow>
            (case stat_is_dir ops query fs of
               Inl e \<Rightarrow> (Failed 500 (Library_Error e), fs)
             | Inr d \<Rightarrow>
                 (case (if d then remove_directory ops query fs else remove_file ops query fs) of
                    (Some e, fs1) \<Rightarrow> (Failed 500 (Library_Error e), fs1)
                  | (None, fs1) \<Rightarrow> (Deleted, fs1)))))"

section \<open>Requests of the browser\<close>

definition query_path :: "request \<Rightarrow> js_string" where
  "query_path rq = (case map_of (rq_params rq) (js ''path'') of None \<Rightarrow> [] | Some p \<Rightarrow> p)"

definition form_text :: "form_part option \<Rightarrow> js_string" where
  "form_text part = (case part of Some (Text_Part t) \<Rightarrow> t | _ \<Rightarrow> [])"

definition form_file :: "form_part option \<Rightarrow> (js_string \<times> bytes) option" where
  "form_file part = (case part of Some (File_Part f) \<Rightarrow> Some (up_name f, up_content f) | _ \<Rightarrow> None)"

text \<open>What the parser makes of a request whose body takes \<open>n\<close> bytes.\<close>

definition upload_request_of :: "nat \<Rightarrow> request \<Rightarrow> upload_request" where
  "upload_request_of n rq =
     (case rq_body rq of
        Form_Body parts \<Rightarrow>
          \<lparr>ub_read = n, ub_well_formed = True, ub_path = form_text (map_of parts (js ''path'')),
           ub_file = form_file (map_of parts (js ''file''))\<rparr>
      | _ \<Rightarrow> \<lparr>ub_read = n, ub_well_formed = False, ub_path = [], ub_file = None\<rparr>)"

lemma browser_upload:
  "upload_request_of n (upload_file sid dir f) =
     \<lparr>ub_read = n, ub_well_formed = True, ub_path = dir, ub_file = Some (up_name f, up_content f)\<rparr>"
  by (simp add: upload_request_of_def upload_file_def call_def form_text_def form_file_def js_def)

lemma browser_paths [simp]:
  "query_path (list_files sid p) = p" "query_path (download_file sid p) = p" "query_path (delete_file sid p) = p"
  by (simp_all add: query_path_def list_files_def download_file_def delete_file_def call_def)

section \<open>Listings\<close>

lemma listed_paths:
  assumes "plain_name (ls_name e)"
  shows "fe_path (file_info (dir_of_query q) e) = below (path_clean (dir_of_query q)) (ls_name e)"
  using join_plain [OF assms, of "dir_of_query q"] by (simp add: file_info_def dir_of_query_def)

text \<open>
  A listing gives each entry the path that is the child of the listed directory, cleaned, with the name of the
  entry; so entries of different names have different paths, by which the table of the browser tells its rows
  and its buttons their files.
\<close>

lemma listed_entries_have_their_own_paths:
  assumes "sftp_list ops conn query fs = Listed files"
    and "read_dir ops (dir_of_query query) fs = Inr es"
    and "list_all plain_name (map ls_name es)" and "distinct (map ls_name es)"
  shows "map fe_name files = map ls_name es \<and> distinct (map fe_path files)
    \<and> list_all (\<lambda>f. path_dir (fe_path f) = path_clean (dir_of_query query) \<and> path_base (fe_path f) = fe_name f) files"
proof -
  let ?d = "dir_of_query query"
  have files: "files = map (file_info ?d) es"
    using assms(1,2) by (auto simp: sftp_list_def split: sum.splits)
  have d: "?d \<noteq> []"
    by (simp add: dir_of_query_def)
  have p: "path_dir (fe_path (file_info ?d e)) = path_clean ?d \<and> path_base (fe_path (file_info ?d e)) = ls_name e"
    if "e \<in> set es" for e
  proof -
    have "plain_name (ls_name e)"
      using assms(3) that by (auto simp: list_all_iff)
    then show ?thesis
      using listed_paths path_of_child [OF _ d] by simp
  qed
  have "map path_base (map fe_path files) = map ls_name es"
    using p by (simp add: files)
  then have "distinct (map fe_path files)"
    using assms(4) by (metis distinct_map)
  then show ?thesis
    using p by (simp add: files file_info_def list_all_iff)
qed

section \<open>From the browser to the remote machine and back\<close>

text \<open>
  What the SFTP library answers about files that are there: a directory lists its children, and a regular file
  can be read, whole.
\<close>

definition answers_truly :: "remote sftp_ops \<Rightarrow> remote \<Rightarrow> bool" where
  "answers_truly ops fs \<longleftrightarrow>
     (\<forall>d n nd. d \<noteq> [] \<and> plain_name n \<and> fs (below (path_clean d) n) = Some nd \<longrightarrow>
        (\<exists>es. read_dir ops d fs = Inr es \<and> n \<in> ls_name ` set es))
   \<and> (\<forall>p nd. fs p = Some nd \<and> nd_regular nd \<longrightarrow>
        open_file ops p fs = Inr (nd_data nd) \<and> file_stat ops p fs = Inr (length (nd_data nd)))"


section \<open>Links\<close>

text \<open>
  Claim C39. Below a link the paths of a listing name other files. A link \<open>m\<close> in \<open>p\<close> leads to a directory whose parent is \<open>t\<close>, so
  that \<open>p/m/..\<close> lists what \<open>t\<close> does; the browser that goes there gets the names of \<open>t\<close>, but with paths in \<open>p\<close>, which
  are not those the listing of \<open>t\<close> gives, and deleting what it shows removes the file of this name in \<open>p\<close>.
\<close>

theorem a_listing_through_a_link_names_other_files:
  assumes "p \<noteq> []" and "path_clean p = p" and "plain_name m" and "query = below p m @ slash_unit # dotdot"
    and "t \<noteq> []" and "path_clean t \<noteq> p"
    and "read_dir ops t fs = Inr es" and "read_dir ops query fs = read_dir ops t fs"
    and "e \<in> set es" and "plain_name (ls_name e)" and "stat_is_dir ops (below p (ls_name e)) fs = Inr False"
  shows "\<exists>files fe files_of_t ft. sftp_list ops (Inr c) query fs = Listed files \<and> fe \<in> set files
    \<and> sftp_list ops (Inr c) t fs = Listed files_of_t \<and> ft \<in> set files_of_t
    \<and> fe_name fe = ls_name e \<and> fe_name ft = ls_name e \<and> fe_path fe \<noteq> fe_path ft
    \<and> sftp_delete ops (Inr c) (query_path (delete_file sid (fe_path fe))) fs
      = (case remove_file ops (below p (ls_name e)) fs of
           (Some x, fs1) \<Rightarrow> (Failed 500 (Library_Error x), fs1) | (None, fs1) \<Rightarrow> (Deleted, fs1))"
proof -
  have q: "dir_of_query query = query" "dir_of_query t = t"
    using assms(4,5) by (simp_all add: dir_of_query_def)
  have "path_clean query = p"
    using clean_parent_below [OF assms(3,1,2)] assms(4) by simp
  then have p: "fe_path (file_info query e) = below p (ls_name e)"
    using listed_paths [OF assms(10), of query] q by simp
  have "path_dir (fe_path (file_info t e)) = path_clean t" "path_dir (below p (ls_name e)) = p"
    using listed_paths [OF assms(10), of t] q path_of_child(1) [OF assms(10) assms(5)]
      path_of_child(1) [OF assms(10) assms(1)] assms(2) by simp_all
  then have d: "fe_path (file_info query e) \<noteq> fe_path (file_info t e)"
    using assms(6) p by metis
  have "below p (ls_name e) \<noteq> []"
    using assms(1,10) by (simp add: below_def plain_name_def)
  then have "sftp_delete ops (Inr c) (query_path (delete_file sid (fe_path (file_info query e)))) fs
      = (case remove_file ops (below p (ls_name e)) fs of
           (Some x, fs1) \<Rightarrow> (Failed 500 (Library_Error x), fs1) | (None, fs1) \<Rightarrow> (Deleted, fs1))"
    using assms(11) p by (simp add: sftp_delete_def)
  moreover have "sftp_list ops (Inr c) query fs = Listed (map (file_info query) es)"
    "sftp_list ops (Inr c) t fs = Listed (map (file_info t) es)"
    using assms(7,8) q by (simp_all add: sftp_list_def)
  moreover have "file_info d e \<in> set (map (file_info d) es)" "fe_name (file_info d e) = ls_name e" for d
    using assms(9) by (simp_all add: file_info_def)
  ultimately show ?thesis
    using d by blast
qed

text \<open>A link to a directory is not a directory to \<open>RMDIR\<close>, but it is one to \<open>Stat\<close>: it cannot be deleted.\<close>

lemma a_link_to_a_directory_stays:
  assumes "stat_is_dir ops l fs = Inr True" and "remove_directory ops l fs = (Some x, fs)"
  shows "\<exists>e. sftp_delete ops conn l fs = (Failed 500 e, fs) \<or> l = []"
  using assms by (auto simp: sftp_delete_def split: sum.split)

section \<open>Instances\<close>

text \<open>A library on a machine without links, that knows the names there are.\<close>

definition sample_ops :: "js_string list \<Rightarrow> remote sftp_ops" where
  "sample_ops names =
     \<lparr>read_dir = \<lambda>d fs. Inr (map (\<lambda>n. \<lparr>ls_name = n, ls_size = 0, ls_mode = [], ls_mod_time = [], ls_is_dir = False\<rparr>)
          (filter (\<lambda>n. fs (below (path_clean d) n) \<noteq> None) names)),
      stat_is_dir = \<lambda>p fs. (case fs p of None \<Rightarrow> Inl [] | Some nd \<Rightarrow> Inr (\<not> nd_regular nd)),
      open_file = \<lambda>p fs. (case fs p of None \<Rightarrow> Inl [] | Some nd \<Rightarrow> Inr (nd_data nd)),
      file_stat = \<lambda>p fs. (case fs p of None \<Rightarrow> Inl [] | Some nd \<Rightarrow> Inr (length (nd_data nd))),
      make_all = \<lambda>p fs. (None, fs),
      remove_file = \<lambda>p fs. (None, fs(p := None)),
      remove_directory = \<lambda>p fs. (None, fs(p := None))\<rparr>"

lemma sample_answers:
  assumes "\<And>d n. d \<noteq> [] \<Longrightarrow> plain_name n \<Longrightarrow> fs (below (path_clean d) n) \<noteq> None \<Longrightarrow> n \<in> set names"
  shows "answers_truly (sample_ops names) fs"
  using assms by (fastforce simp: answers_truly_def sample_ops_def image_iff)

definition notes_file :: upload where
  "notes_file = \<lparr>up_name = js ''..'' @ backslash # js ''notes'', up_content = [7, 8, 9]\<rparr>"

lemma notes_target:
  "sftp_upload (Inr c) (upload_request_of 300 (upload_file 4 (js ''/srv'') notes_file)) = Inr (js ''/srv/notes'', [7, 8, 9])"
proof -
  have "upload_target (js ''/srv'') (js ''..'' @ backslash # js ''notes'') = Some (js ''/srv/notes'')"
    by code_simp
  then show ?thesis
    by (simp add: sftp_upload_def browser_upload notes_file_def max_upload_body_def)
qed


lemma listed_entries_have_their_own_paths_witness:
  "\<exists>f g. sftp_list (sample_ops [[1], [2]]) (Inr (Direct [])) [] (\<lambda>p. Some \<lparr>nd_regular = True, nd_mode = 0, nd_owner = (0, 0), nd_data = []\<rparr>)
      = Listed [f, g] \<and> fe_path f \<noteq> fe_path g"
proof -
  let ?fs = "\<lambda>p. Some \<lparr>nd_regular = True, nd_mode = 0, nd_owner = (0, 0), nd_data = []\<rparr>"
  let ?e = "\<lambda>n. \<lparr>ls_name = n, ls_size = 0, ls_mode = [], ls_mod_time = [], ls_is_dir = False\<rparr>"
  have r: "read_dir (sample_ops [[1], [2]]) (dir_of_query []) ?fs = Inr [?e [1], ?e [2]]"
    by (simp add: sample_ops_def)
  then have l: "sftp_list (sample_ops [[1], [2]]) (Inr (Direct [])) [] ?fs
      = Listed [file_info [slash_unit] (?e [1]), file_info [slash_unit] (?e [2])]"
    by (simp add: sftp_list_def dir_of_query_def)
  have "list_all plain_name (map ls_name [?e [1], ?e [2]])"
    by (simp add: plain_name_def dot_def dotdot_def slash_unit_def)
  then show ?thesis
    using listed_entries_have_their_own_paths [OF l r] l by simp
qed

theorem a_listing_through_a_link_names_other_files_witness:
  "let fs = [js ''/a/x'' \<mapsto> \<lparr>nd_regular = True, nd_mode = 0, nd_owner = (0, 0), nd_data = [5]\<rparr>];
       ops = (sample_ops [])\<lparr>read_dir := \<lambda>d fs. Inr [\<lparr>ls_name = js ''x'', ls_size = 1, ls_mode = [], ls_mod_time = [], ls_is_dir = False\<rparr>]\<rparr>
   in \<exists>files fe. sftp_list ops (Inr (Direct [])) (js ''/a/link/..'') fs = Listed files \<and> fe \<in> set files
      \<and> sftp_delete ops (Inr (Direct [])) (query_path (delete_file 4 (fe_path fe))) fs = (Deleted, Map.empty)"
proof -
  let ?fs = "[js ''/a/x'' \<mapsto> \<lparr>nd_regular = True, nd_mode = 0, nd_owner = (0, 0), nd_data = [5]\<rparr>]"
  let ?e = "\<lparr>ls_name = js ''x'', ls_size = 1, ls_mode = [], ls_mod_time = [], ls_is_dir = False\<rparr>"
  let ?ops = "(sample_ops [])\<lparr>read_dir := \<lambda>d fs. Inr [?e]\<rparr>"
  have p: "js ''/a'' \<noteq> []" "path_clean (js ''/a'') = js ''/a''" "plain_name (js ''link'')"
    "js ''/a/link/..'' = below (js ''/a'') (js ''link'') @ slash_unit # dotdot"
    "js ''/b'' \<noteq> []" "path_clean (js ''/b'') \<noteq> js ''/a''" "plain_name (ls_name ?e)"
    "below (js ''/a'') (ls_name ?e) = js ''/a/x''"
    by code_simp+
  have r: "read_dir ?ops (js ''/b'') ?fs = Inr [?e]" "read_dir ?ops (js ''/a/link/..'') ?fs = read_dir ?ops (js ''/b'') ?fs"
    "stat_is_dir ?ops (below (js ''/a'') (ls_name ?e)) ?fs = Inr False"
    "remove_file ?ops (below (js ''/a'') (ls_name ?e)) ?fs = (None, Map.empty)"
    using p(8) by (simp_all add: sample_ops_def)
  have "?e \<in> set [?e]"
    by simp
  then show ?thesis
    using a_listing_through_a_link_names_other_files [OF p(1-6) r(1,2) _ p(7) r(3), of "Direct []" 4] r(4)
    unfolding Let_def by auto
qed

end
