(* ===== verification/Rdp_Wire.thy ===== *)
theory Rdp_Wire
  imports Codec "HOL-Library.Word"
begin

text \<open>
  What the RDP gateway and the browser say to each other first (\<open>internal/api/rdp_handler.go\<close>): the RDCleanPath
  messages in DER, and the X.224 request inside. \<open>unmarshal_request\<close> is \<open>asn1.Unmarshal\<close> on them. That function
  tolerates more, fields that follow or containers that are longer than what they hold, but whatever it makes of
  such data, encoding it again does not give the data back, so that \<open>parse_rdp_request\<close> refuses it all the same.
\<close>

unbundle bit_operations_syntax

section \<open>DER\<close>

fun len_bytes :: "nat \<Rightarrow> bytes" where
  "len_bytes n = (if n < 256 then [byte n] else len_bytes (n div 256) @ [byte (n mod 256)])"

declare len_bytes.simps [simp del]

definition bytes_value :: "bytes \<Rightarrow> nat" where
  "bytes_value bs = foldl (\<lambda>v b. v * 256 + unat b) 0 bs"

definition der_length :: "nat \<Rightarrow> bytes" where
  "der_length n = (if n < 128 then [byte n] else byte (128 + length (len_bytes n)) # len_bytes n)"

definition der :: "8 word \<Rightarrow> bytes \<Rightarrow> bytes" where
  "der tag body = tag # der_length (length body) @ body"

text \<open>Two's complement, in as few bytes as possible.\<close>

function int_bytes :: "int \<Rightarrow> bytes" where
  "int_bytes i =
     (if - 128 \<le> i \<and> i < 128 then [byte (nat (i mod 256))] else int_bytes (i div 256) @ [byte (nat (i mod 256))])"
  by auto
termination
  by (relation "measure (\<lambda>i. nat \<bar>i\<bar>)") auto

declare int_bytes.simps [simp del]

definition int_value :: "bytes \<Rightarrow> int" where
  "int_value bs =
     (if bs \<noteq> [] \<and> 128 \<le> unat (hd bs) then int (bytes_value bs) - 256 ^ length bs else int (bytes_value bs))"

text \<open>The length at the front, and what follows; at least one byte of length, the shortest form, less than \<open>2 ^ 31\<close>.\<close>

fun read_length :: "bytes \<Rightarrow> (nat \<times> bytes) option" where
  "read_length [] = None"
| "read_length (b # bs) =
     (if unat b < 128 then Some (unat b, bs)
      else (let k = unat b - 128; n = bytes_value (take k bs)
        in if k = 0 \<or> length bs < k \<or> hd bs = 0 \<or> n < 128 \<or> 2 ^ 31 \<le> n then None else Some (n, drop k bs)))"

definition der_read :: "8 word \<Rightarrow> bytes \<Rightarrow> (bytes \<times> bytes) option" where
  "der_read tag bs =
     (if bs = [] \<or> hd bs \<noteq> tag then None
      else (case read_length (tl bs) of
          None \<Rightarrow> None
        | Some (n, rest) \<Rightarrow> if length rest < n then None else Some (take n rest, drop n rest)))"

text \<open>An explicit field: a container with the field in it.\<close>

definition der_field :: "8 word \<Rightarrow> 8 word \<Rightarrow> bytes \<Rightarrow> bytes" where
  "der_field outer inner body = der outer (der inner body)"

definition read_field :: "8 word \<Rightarrow> 8 word \<Rightarrow> bytes \<Rightarrow> (bytes \<times> bytes) option" where
  "read_field outer inner bs =
     (case der_read outer bs of
        None \<Rightarrow> None
      | Some (c, rest) \<Rightarrow> (case der_read inner c of None \<Rightarrow> None | Some (body, _) \<Rightarrow> Some (body, rest)))"

section \<open>The messages\<close>

record rdp_request =
  rr_version :: int
  rr_destination :: bytes
  rr_proxy_auth :: bytes
  rr_x224 :: bytes

definition utf8_valid :: "bytes \<Rightarrow> bool" where
  "utf8_valid bs \<longleftrightarrow> concat (map utf8 (utf8_points 0 0 0 0 bs)) = bs"

definition marshal_request :: "rdp_request \<Rightarrow> bytes" where
  "marshal_request r =
     der 0x30 (der_field 0xA0 0x02 (int_bytes (rr_version r)) @ der_field 0xA2 0x0C (rr_destination r)
       @ der_field 0xA3 0x0C (rr_proxy_auth r) @ der_field 0xA6 0x04 (rr_x224 r))"

definition marshal_response :: "int \<Rightarrow> bytes \<Rightarrow> bytes list \<Rightarrow> bytes \<Rightarrow> bytes" where
  "marshal_response version x224 certs host =
     der 0x30 (der_field 0xA0 0x02 (int_bytes version) @ der_field 0xA6 0x04 x224
       @ der_field 0xA7 0x30 (concat (map (der 0x04) certs)) @ der_field 0xA9 0x0C host)"

definition unmarshal_request :: "bytes \<Rightarrow> (rdp_request \<times> bytes) option" where
  "unmarshal_request data =
     (case der_read 0x30 data of
        None \<Rightarrow> None
      | Some (body, rest) \<Rightarrow>
          (case read_field 0xA0 0x02 body of
             None \<Rightarrow> None
           | Some (v, b1) \<Rightarrow>
               (case read_field 0xA2 0x0C b1 of
                  None \<Rightarrow> None
                | Some (d, b2) \<Rightarrow>
                    (case read_field 0xA3 0x0C b2 of
                       None \<Rightarrow> None
                     | Some (t, b3) \<Rightarrow>
                         (case read_field 0xA6 0x04 b3 of
                            None \<Rightarrow> None
                          | Some (x, b4) \<Rightarrow>
                              if \<not> utf8_valid d \<or> \<not> utf8_valid t then None
                              else Some (\<lparr>rr_version = int_value v, rr_destination = d, rr_proxy_auth = t, rr_x224 = x\<rparr>,
                                  rest))))))"

definition be16 :: "bytes \<Rightarrow> nat" where "be16 bs = unat (bs ! 0) * 256 + unat (bs ! 1)"
definition le16 :: "bytes \<Rightarrow> nat" where "le16 bs = unat (bs ! 0) + unat (bs ! 1) * 256"

definition le32 :: "bytes \<Rightarrow> 32 word" where
  "le32 bs = word_of_nat (le16 bs + le16 (drop 2 bs) * 65536)"

definition x224_ok :: "bytes \<Rightarrow> bool" where
  "x224_ok p \<longleftrightarrow>
     19 \<le> length p \<and> length p \<le> 4096 \<and> p ! 0 = 3 \<and> p ! 1 = 0 \<and> be16 (drop 2 p) = length p \<and>
     unat (p ! 4) + 5 = length p \<and> p ! 5 = 0xE0 \<and>
     (let n = drop (length p - 8) p in n ! 0 = 1 \<and> le16 (drop 2 n) = 8 \<and> le32 (drop 4 n) AND 2 \<noteq> 0)"

definition rdp_version :: int where "rdp_version = 3390"

definition parse_rdp_request :: "bytes \<Rightarrow> rdp_request option" where
  "parse_rdp_request data =
     (case unmarshal_request data of
        None \<Rightarrow> None
      | Some (r, rest) \<Rightarrow>
          if rest \<noteq> [] \<or> rr_version r \<noteq> rdp_version \<or> rr_proxy_auth r = [] then None
          else if marshal_request r \<noteq> data then None
          else if \<not> x224_ok (rr_x224 r) then None
          else Some r)"

section \<open>Numbers\<close>

lemma bytes_value_snoc [simp]: "bytes_value [] = 0" "bytes_value (bs @ [b]) = bytes_value bs * 256 + unat b"
  by (simp_all add: bytes_value_def)

lemma len_bytes_value [simp]: "bytes_value (len_bytes n) = n"
proof (induction n rule: len_bytes.induct)
  case (1 n)
  then show ?case
    using bytes_value_snoc(2) [of "[]" "byte n"] by (subst len_bytes.simps) (simp split: if_split)
qed

lemma len_bytes_not_empty [simp]: "len_bytes n \<noteq> []"
  by (subst len_bytes.simps) simp

lemma len_bytes_hd: "0 < n \<Longrightarrow> hd (len_bytes n) \<noteq> 0"
proof (induction n rule: len_bytes.induct)
  case (1 n)
  have "byte n \<noteq> 0" if "n < 256"
    using that 1(2) unat_byte [OF that] by (metis less_numeral_extra(3) unat_0)
  then show ?case
    using 1 by (subst len_bytes.simps) (simp add: hd_append)
qed

lemma len_bytes_length: "n < 256 ^ Suc k \<Longrightarrow> length (len_bytes n) \<le> Suc k"
proof (induction k arbitrary: n)
  case 0
  then show ?case
    by (subst len_bytes.simps) simp
next
  case (Suc k)
  have "n div 256 < 256 ^ Suc k"
    using Suc.prems by (simp add: less_mult_imp_div_less mult.commute)
  then show ?case
    using Suc.IH by (subst len_bytes.simps) simp
qed

lemma length_ends:
  assumes "n < 2 ^ 31"
  shows "read_length (der_length n @ bs) = Some (n, bs)"
proof (cases "n < 128")
  case True
  then show ?thesis
    by (simp add: der_length_def)
next
  case False
  let ?b = "len_bytes n"
  have l: "length ?b \<le> 4"
    using len_bytes_length [of n 3] assms by simp
  then have u: "unat (byte (128 + length ?b)) = 128 + length ?b"
    by simp
  have h: "hd (?b @ bs) \<noteq> 0"
    using len_bytes_hd [of n] False by (simp add: hd_append)
  show ?thesis
    using False assms u h by (simp add: der_length_def Let_def)
qed

lemma read_der:
  assumes "length body < 2 ^ 31"
  shows "der_read tag (der tag body @ rest) = Some (body, rest)"
  using assms by (simp add: der_read_def der_def length_ends)

lemma read_der_field:
  assumes "length (der inner body) < 2 ^ 31"
  shows "read_field outer inner (der_field outer inner body @ rest) = Some (body, rest)"
proof -
  have "length body < 2 ^ 31"
    using assms by (simp add: der_def)
  then show ?thesis
    using read_der [OF assms, of outer rest] read_der [of body inner "[]"]
    by (simp add: read_field_def der_field_def)
qed

lemma version_bytes: "int_bytes rdp_version = [0x0D, 0x3E]" "int_value [0x0D, 0x3E] = rdp_version"
  by code_simp+

section \<open>Requests\<close>

lemma utf8_valid_text: "utf8_valid (text_encode s)"
  by (simp add: utf8_valid_def text_encode_def utf8_points_encode [OF code_points_scalar])

lemma der_longer: "length body < length (der tag body)"
  by (simp add: der_def)

lemma field_longer: "length (der inner body) < length (der_field outer inner body)"
  by (simp add: der_field_def der_longer)

lemma unmarshal_marshal:
  assumes "length (marshal_request r) < 2 ^ 31"
    and "rr_version r = rdp_version" "utf8_valid (rr_destination r)" "utf8_valid (rr_proxy_auth r)"
  shows "unmarshal_request (marshal_request r) = Some (r, [])"
proof -
  let ?v = "der_field 0xA0 0x02 (int_bytes (rr_version r))" and ?d = "der_field 0xA2 0x0C (rr_destination r)"
  let ?t = "der_field 0xA3 0x0C (rr_proxy_auth r)" and ?x = "der_field 0xA6 0x04 (rr_x224 r)"
  have "length (?v @ ?d @ ?t @ ?x) < 2 ^ 31"
    using assms(1) der_longer [of "?v @ ?d @ ?t @ ?x" "0x30"] unfolding marshal_request_def by linarith
  then have f: "length ?v < 2 ^ 31" "length ?d < 2 ^ 31" "length ?t < 2 ^ 31" "length ?x < 2 ^ 31"
    and b: "der_read 0x30 (marshal_request r) = Some (?v @ ?d @ ?t @ ?x, [])"
    using read_der [of "?v @ ?d @ ?t @ ?x" "0x30" "[]"] by (simp_all add: marshal_request_def)
  have r: "read_field 0xA0 0x02 (?v @ bs) = Some (int_bytes (rr_version r), bs)"
    "read_field 0xA2 0x0C (?d @ bs) = Some (rr_destination r, bs)"
    "read_field 0xA3 0x0C (?t @ bs) = Some (rr_proxy_auth r, bs)"
    "read_field 0xA6 0x04 (?x @ bs) = Some (rr_x224 r, bs)" for bs
    using f by (auto intro!: read_der_field less_trans [OF field_longer])
  show ?thesis
    using b r(1-3) r(4) [of "[]"] assms(2-4) version_bytes by (simp add: unmarshal_request_def)
qed

lemma unmarshal_utf8:
  "unmarshal_request data = Some (r, rest) \<Longrightarrow> utf8_valid (rr_destination r) \<and> utf8_valid (rr_proxy_auth r)"
  by (auto simp: unmarshal_request_def split: option.splits if_splits)

lemma rdp_request_accepted:
  assumes "length (marshal_request r) \<le> 65536" "rr_version r = rdp_version" "utf8_valid (rr_destination r)"
    "utf8_valid (rr_proxy_auth r)" "rr_proxy_auth r \<noteq> []" "x224_ok (rr_x224 r)"
  shows "parse_rdp_request (marshal_request r) = Some r"
  using unmarshal_marshal [of r] assms by (simp add: parse_rdp_request_def)

text \<open>
  Claim C28. The gateway accepts a message just when it is the encoding of a request of the version of the protocol, with
  texts in UTF-8, a token, and an X.224 request that has its own length and offers network level authentication,
  and then it reads this request. So nothing can be appended, left out or written in another way.
\<close>

theorem rdp_requests_are_canonical:
  assumes "length data \<le> 65536"
  shows "parse_rdp_request data = Some r
    \<longleftrightarrow> data = marshal_request r \<and> rr_version r = 3390 \<and> utf8_valid (rr_destination r) \<and> utf8_valid (rr_proxy_auth r)
      \<and> rr_proxy_auth r \<noteq> [] \<and> x224_ok (rr_x224 r)" (is "?parsed \<longleftrightarrow> ?canonical")
proof
  assume ?parsed
  then obtain rest where "unmarshal_request data = Some (r, rest)" "rest = []" "rr_version r = rdp_version"
    "rr_proxy_auth r \<noteq> []" "marshal_request r = data" "x224_ok (rr_x224 r)"
    by (auto simp: parse_rdp_request_def split: option.splits if_splits)
  then show ?canonical
    using unmarshal_utf8 by (auto simp: rdp_version_def)
next
  assume ?canonical
  then show ?parsed
    using assms rdp_request_accepted [of r] by (simp add: rdp_version_def)
qed

text \<open>The request and the response that the tests of the code exchange.\<close>

definition test_x224 :: bytes where
  "test_x224 = [3, 0, 0, 19, 14, 0xE0, 0, 0, 0, 0, 0, 1, 0, 8, 0, 3, 0, 0, 0]"

definition test_request :: rdp_request where
  "test_request = \<lparr>rr_version = 3390, rr_destination = [0x68], rr_proxy_auth = [0x74, 0x6B], rr_x224 = test_x224\<rparr>"

lemma test_x224_ok: "x224_ok test_x224"
  by (simp add: x224_ok_def test_x224_def be16_def le16_def le32_def)

lemma test_request_ok: "utf8_valid [0x68]" "utf8_valid [0x74, 0x6B]"
  by code_simp+

theorem rdp_requests_are_canonical_witness:
  "parse_rdp_request (marshal_request test_request) = Some test_request \<and> length (marshal_request test_request) = 42"
proof -
  have l: "length (marshal_request test_request) = 42"
    by code_simp
  then show ?thesis
    using rdp_requests_are_canonical [of "marshal_request test_request" test_request] test_x224_ok test_request_ok
    by (simp add: test_request_def)
qed

lemma test_response:
  "marshal_response 3390 [0xDE, 0xAD, 0xBE, 0xFF] (replicate 3 [0xDE, 0xAD, 0xBE, 0xFF])
      [0x31, 0x39, 0x32, 0x2E, 0x31, 0x36, 0x38, 0x2E, 0x37, 0x2E, 0x39, 0x35]
    = [0x30, 0x34, 0xA0, 0x04, 0x02, 0x02, 0x0D, 0x3E, 0xA6, 0x06, 0x04, 0x04, 0xDE, 0xAD, 0xBE, 0xFF,
       0xA7, 0x14, 0x30, 0x12, 0x04, 0x04, 0xDE, 0xAD, 0xBE, 0xFF, 0x04, 0x04, 0xDE, 0xAD, 0xBE, 0xFF,
       0x04, 0x04, 0xDE, 0xAD, 0xBE, 0xFF, 0xA9, 0x0E, 0x0C, 0x0C, 0x31, 0x39, 0x32, 0x2E, 0x31, 0x36,
       0x38, 0x2E, 0x37, 0x2E, 0x39, 0x35]"
  by code_simp

end
