(* ===== verification/Rdp_Gateway.thy ===== *)
theory Rdp_Gateway
  imports Rdp_Wire Rdp Server_Properties Gateway
begin

text \<open>
  The gateway for remote desktops (\<open>internal/api/rdp_handler.go\<close>): from the first message of the browser to the
  TLS connection with the desktop, as a list of acts, and then the relay between the two, its goroutines as
  events.

  Parameters: \<open>valid\<close> is \<open>auth.ValidateToken\<close>, \<open>load\<close> the query of a row, \<open>sha\<close> is SHA-256, \<open>pki\<close> the
  verification of a chain for a host name, and a \<open>desktop\<close> says what the machine at an address does.
\<close>

unbundle bit_operations_syntax

section \<open>The certificate of the desktop\<close>

record tls_config =
  tc_server_name :: js_string
  tc_pin :: "bytes option"

definition rdp_tls_config :: "row \<Rightarrow> tls_config option" where
  "rdp_tls_config r =
     (if rw_rdp_cert_fingerprint r = [] then Some \<lparr>tc_server_name = rw_host r, tc_pin = None\<rparr>
      else (case hex_decode (rw_rdp_cert_fingerprint r) of
          None \<Rightarrow> None
        | Some b \<Rightarrow> if length b \<noteq> 32 then None else Some \<lparr>tc_server_name = rw_host r, tc_pin = Some b\<rparr>))"

text \<open>What the TLS library accepts with a configuration: a pin replaces the verification of the chain.\<close>

definition peer_accepted ::
    "(js_string \<Rightarrow> bytes list \<Rightarrow> bool) \<Rightarrow> (bytes \<Rightarrow> bytes) \<Rightarrow> tls_config \<Rightarrow> bytes list \<Rightarrow> bool" where
  "peer_accepted pki sha cfg certs =
     (case tc_pin cfg of
        None \<Rightarrow> pki (tc_server_name cfg) certs
      | Some p \<Rightarrow> certs \<noteq> [] \<and> sha (hd certs) = p)"

section \<open>Negotiation\<close>

text \<open>
  A desktop: whether it accepts the connection and the request, all it sends before TLS, the handshake
  of the TLS library with it, which is given what to accept and returns the certificates, and its address as
  the socket knows it.
\<close>

record desktop =
  dk_opens :: bool
  dk_takes :: bool
  dk_reply :: bytes
  dk_tls :: "(bytes list \<Rightarrow> bool) \<Rightarrow> bytes list option"
  dk_host :: bytes

definition tls_contract :: "((bytes list \<Rightarrow> bool) \<Rightarrow> bytes list option) \<Rightarrow> bool" where
  "tls_contract tls \<longleftrightarrow> (\<forall>acc certs. tls acc = Some certs \<longrightarrow> acc certs)"

datatype rdp_act = Dialed js_string | Wrote bytes | Handshake tls_config | Hung_Up

definition reply_header_ok :: "bytes \<Rightarrow> bool" where
  "reply_header_ok reply \<longleftrightarrow> 4 \<le> length reply \<and> reply ! 0 = 3 \<and> reply ! 1 = 0 \<and> be16 (drop 2 reply) = 19"

definition selects_nla :: "bytes \<Rightarrow> bool" where
  "selects_nla rsp \<longleftrightarrow>
     rsp ! 4 = 14 \<and> rsp ! 5 = 0xD0 \<and> rsp ! 11 = 2 \<and> le16 (drop 13 rsp) = 8 \<and>
     (le32 (drop 15 rsp) = 2 \<or> le32 (drop 15 rsp) = 8)"

definition negotiate_rdp ::
    "(js_string \<Rightarrow> bytes list \<Rightarrow> bool) \<Rightarrow> (bytes \<Rightarrow> bytes) \<Rightarrow> desktop \<Rightarrow> bytes \<Rightarrow> tls_config \<Rightarrow>
      (bytes list \<times> bytes) option \<times> rdp_act list" where
  "negotiate_rdp pki sha dk request cfg =
     (if \<not> dk_takes dk then (None, [Wrote request])
      else if \<not> reply_header_ok (dk_reply dk) \<or> length (dk_reply dk) < 19 then (None, [Wrote request])
      else (let rsp = take 19 (dk_reply dk)
        in if \<not> selects_nla rsp then (None, [Wrote request])
           else (case dk_tls dk (peer_accepted pki sha cfg) of
               None \<Rightarrow> (None, [Wrote request, Handshake cfg])
             | Some certs \<Rightarrow> (Some (certs, rsp), [Wrote request, Handshake cfg]))))"

section \<open>The handler\<close>

datatype rdp_refusal =
    Bad_Frame | Bad_Handshake | Not_Authenticated | Unavailable | Bad_Pin | Unreachable | No_Negotiation

text \<open>
  How it ends: with a status before the upgrade, without an upgrade, with a close frame and its reason, because the
  answer cannot be written, or in the relay, with the certificates and the response.
\<close>

datatype rdp_result =
    Rdp_Status nat
  | Not_Upgraded
  | Rdp_Refused rdp_refusal
  | Unanswered
  | Relaying bytes "bytes list" bytes

definition max_rdp_message :: nat where "max_rdp_message = 64 * 1024"

text \<open>The first message, when one within the limit comes in time.\<close>

definition first_message :: "(ws_kind \<times> bytes) option \<Rightarrow> bytes option" where
  "first_message frame =
     (case frame of
        Some (Ws_Binary, data) \<Rightarrow> if length data \<le> max_rdp_message then Some data else None
      | _ \<Rightarrow> None)"

definition managed_desktop :: "(int \<Rightarrow> row option option) \<Rightarrow> int \<Rightarrow> row option" where
  "managed_desktop load i =
     (case load i of
        Some (Some r) \<Rightarrow> if rw_protocol r = js ''rdp'' \<and> rw_jump_server_id r = None then Some r else None
      | _ \<Rightarrow> None)"

definition open_desktop ::
    "(js_string \<Rightarrow> bytes list \<Rightarrow> bool) \<Rightarrow> (bytes \<Rightarrow> bytes) \<Rightarrow> (js_string \<Rightarrow> desktop) \<Rightarrow> bool \<Rightarrow> row \<Rightarrow> rdp_request \<Rightarrow>
      rdp_result \<times> rdp_act list" where
  "open_desktop pki sha machines answered r rq =
     (let a = join_host_port (rw_host r) (rw_port r); dk = machines a
      in case rdp_tls_config r of
           None \<Rightarrow> (Rdp_Refused Bad_Pin, [])
         | Some cfg \<Rightarrow>
             if \<not> dk_opens dk then (Rdp_Refused Unreachable, [])
             else (case negotiate_rdp pki sha dk (rr_x224 rq) cfg of
                 (None, acts) \<Rightarrow> (Rdp_Refused No_Negotiation, Dialed a # acts @ [Hung_Up])
               | (Some (certs, rsp), acts) \<Rightarrow>
                   if \<not> answered then (Unanswered, Dialed a # acts @ [Hung_Up])
                   else (Relaying (marshal_response rdp_version rsp certs (dk_host dk)) certs rsp,
                         Dialed a # acts)))"

definition rdp_handler ::
    "(js_string \<Rightarrow> bytes list \<Rightarrow> bool) \<Rightarrow> (bytes \<Rightarrow> bytes) \<Rightarrow> (bytes \<Rightarrow> bool) \<Rightarrow> (int \<Rightarrow> row option option) \<Rightarrow>
      (js_string \<Rightarrow> desktop) \<Rightarrow> bool \<Rightarrow> bool \<Rightarrow> js_string \<Rightarrow> (ws_kind \<times> bytes) option \<Rightarrow> rdp_result \<times> rdp_act list" where
  "rdp_handler pki sha valid load machines upgraded answered param frame =
     (case go_parse_int param of
        None \<Rightarrow> (Rdp_Status 400, [])
      | Some i \<Rightarrow>
          if i \<le> 0 then (Rdp_Status 400, [])
          else if \<not> upgraded then (Not_Upgraded, [])
          else (case first_message frame of
              None \<Rightarrow> (Rdp_Refused Bad_Frame, [])
            | Some data \<Rightarrow>
                (case parse_rdp_request data of
                   None \<Rightarrow> (Rdp_Refused Bad_Handshake, [])
                 | Some rq \<Rightarrow>
                     if \<not> valid (rr_proxy_auth rq) then (Rdp_Refused Not_Authenticated, [])
                     else (case managed_desktop load i of
                         None \<Rightarrow> (Rdp_Refused Unavailable, [])
                       | Some r \<Rightarrow> open_desktop pki sha machines answered r rq))))"

section \<open>Who is reached\<close>

lemma parsed_request_nla: "parse_rdp_request data = Some rq \<Longrightarrow> x224_ok (rr_x224 rq)"
  by (auto simp: parse_rdp_request_def split: option.splits if_splits)

lemma managed_desktop_row:
  "managed_desktop load i = Some r \<Longrightarrow> load i = Some (Some r) \<and> rw_protocol r = js ''rdp'' \<and> rw_jump_server_id r = None"
  by (auto simp: managed_desktop_def split: option.splits if_splits)

lemma negotiated:
  assumes "tls_contract (dk_tls dk)"
    and "negotiate_rdp pki sha dk request cfg = (res, acts)"
  shows "set acts \<subseteq> {Wrote request, Handshake cfg}"
    and "res = Some (certs, rsp) \<Longrightarrow> peer_accepted pki sha cfg certs \<and> selects_nla rsp \<and> length rsp = 19"
  using assms by (auto simp: negotiate_rdp_def tls_contract_def Let_def split: if_splits option.splits)


section \<open>From the page to the desktop\<close>

lemma hex_val_digit: "hex_digit u \<Longrightarrow> hex_val u \<noteq> None"
  by (auto simp: hex_digit_def hex_val_def)

lemma hex_decode_digits: "length s = 2 * n \<Longrightarrow> list_all hex_digit s \<Longrightarrow> \<exists>b. hex_decode s = Some b \<and> length b = n"
proof (induction s arbitrary: n rule: hex_decode.induct)
  case (3 u v s)
  then obtain k where k: "n = Suc k" "length s = 2 * k"
    by (cases n) auto
  obtain a b c where "hex_val u = Some a" "hex_val v = Some b" "hex_decode s = Some c" "length c = k"
    using 3 k(2) hex_val_digit [of u] hex_val_digit [of v] by fastforce
  then show ?case
    using k(1) by simp
qed auto

lemma stored_pin: "rdp_row_ok r \<Longrightarrow> \<exists>cfg. rdp_tls_config r = Some cfg \<and> tc_server_name cfg = rw_host r"
  using hex_decode_digits [of "rw_rdp_cert_fingerprint r" 32]
  by (auto simp: rdp_row_ok_def rdp_tls_config_def hex_bytes_def)

lemma bracketed_address: "bracketed host @ js '':'' @ int_digits port = join_host_port host port"
  by (simp add: bracketed_def join_host_port_def js_includes_iff js_def sublist_def in_set_conv_decomp)

text \<open>
  What the engine does with a configuration: its first message is a request for the destination, with the token, and
  with an X.224 request that offers network level authentication.
\<close>

definition engine_request :: "rdp_config \<Rightarrow> bytes \<Rightarrow> rdp_request" where
  "engine_request cf x =
     \<lparr>rr_version = rdp_version, rr_destination = text_encode (cf_destination cf),
      rr_proxy_auth = text_encode (cf_token cf), rr_x224 = x\<rparr>"


section \<open>Instances\<close>

text \<open>A stored desktop with a pin, and machines that all show one certificate, of this fingerprint.\<close>

definition pin :: bytes where "pin = replicate 32 7"

definition desktop_row :: row where
  "desktop_row = sample_row\<lparr>rw_id := 4, rw_protocol := js ''rdp'', rw_auth_type := js ''password'', rw_private_key := [],
     rw_password := [], rw_host_key := [], rw_jump_server_id := None, rw_host := js ''pc'', rw_port := 3389,
     rw_rdp_cert_fingerprint := hex_encode pin\<rparr>"

definition desktop_db :: database where
  "desktop_db = \<lparr>rows = [4 \<mapsto> desktop_row], next_id = 5\<rparr>"

definition desktop_reply :: bytes where
  "desktop_reply = [3, 0, 0, 19, 14, 0xD0, 0, 0, 0, 0, 0, 2, 0, 8, 0, 2, 0, 0, 0]"

definition sample_desktop :: desktop where
  "sample_desktop = \<lparr>dk_opens = True, dk_takes = True, dk_reply = desktop_reply,
     dk_tls = (\<lambda>acc. if acc [[1]] then Some [[1]] else None), dk_host = [0x31]\<rparr>"

lemma sample_desktop_contract: "tls_contract (dk_tls sample_desktop)"
  by (simp add: tls_contract_def sample_desktop_def)

lemma desktop_config: "rdp_tls_config desktop_row = Some \<lparr>tc_server_name = js ''pc'', tc_pin = Some pin\<rparr>"
proof -
  have "hex_encode pin \<noteq> []" "length pin = 32"
    by (simp_all add: pin_def hex_encode_def)
  then show ?thesis
    by (simp add: rdp_tls_config_def desktop_row_def)
qed

lemma desktop_reply_ok: "reply_header_ok desktop_reply" "length desktop_reply = 19" "selects_nla desktop_reply"
  by (simp_all add: reply_header_ok_def desktop_reply_def selects_nla_def be16_def le16_def le32_def)

lemma desktop_number: "go_parse_int (js ''4'') = Some 4"
  by code_simp

lemma desktop_reached:
  "\<exists>m acts. rdp_handler pki (\<lambda>c. pin) (\<lambda>t. t = [0x74, 0x6B]) (\<lambda>i. Some (if i = 4 then Some desktop_row else None))
      (\<lambda>a. sample_desktop) True True (js ''4'') (Some (Ws_Binary, marshal_request test_request))
    = (Relaying m [[1]] desktop_reply, acts)"
proof -
  have l: "length (marshal_request test_request) = 42"
    by code_simp
  have rq: "parse_rdp_request (marshal_request test_request) = Some test_request"
    using rdp_request_accepted [of test_request] l test_x224_ok test_request_ok
    by (simp add: test_request_def rdp_version_def)
  have f: "first_message (Some (Ws_Binary, marshal_request test_request)) = Some (marshal_request test_request)"
    using l by (simp add: first_message_def max_rdp_message_def)
  have m: "managed_desktop (\<lambda>i. Some (if i = 4 then Some desktop_row else None)) 4 = Some desktop_row"
    by (simp add: managed_desktop_def desktop_row_def)
  have "\<exists>m acts. open_desktop pki (\<lambda>c. pin) (\<lambda>a. sample_desktop) True desktop_row test_request
      = (Relaying m [[1]] desktop_reply, acts)"
    using desktop_reply_ok
    by (simp add: open_desktop_def desktop_config negotiate_rdp_def sample_desktop_def peer_accepted_def Let_def)
  then show ?thesis
    using rq f m desktop_number by (simp add: rdp_handler_def test_request_def)
qed


lemma desktop_db_ok: "db_ok desktop_db"
proof -
  have "hex_digit (hex_char 0) \<and> hex_digit (hex_char 7) \<and> lower_unit (hex_char 0) = hex_char 0 \<and> lower_unit (hex_char 7) = hex_char 7"
    by code_simp
  then have "hex_bytes (hex_encode pin) 32" "map lower_unit (hex_encode pin) = hex_encode pin"
    by (simp_all add: hex_bytes_def hex_encode_def pin_def map_concat length_concat list_all_iff sum_list_replicate)
  then have "row_ok desktop_row"
    using sample_row_ok by (simp add: desktop_row_def row_ok_def rdp_row_ok_def js_def)
  then show ?thesis
    by (simp add: db_ok_def desktop_db_def desktop_row_def)
qed

definition desktop_page :: rdp_page where
  "desktop_page = (init_rdp 800 600)\<lparr>rd_server := Some (list_item desktop_row), rd_ready := True, rd_token := js ''t''\<rparr>"


end
