(* ===== verification/Rdp_Relay.thy ===== *)
theory Rdp_Relay
  imports Rdp_Gateway "HOL-Library.Sublist"
begin

text \<open>
  The relay of the RDP gateway (\<open>relayRDP\<close> in \<open>internal/api/rdp_handler.go\<close>): the goroutine that reads the browser,
  the one that pings it, the loop that reads the desktop, and the callback that closes both connections when
  the context ends. Each move of one of them is an event; a deadline that passes is a failed operation.
\<close>

section \<open>State\<close>

datatype relay_main = Pumping | Waiting | Relay_Returned

text \<open>\<open>taken\<close> is what was read from one side, \<open>given\<close> what was written to the other.\<close>

record relay =
  main_loop :: relay_main
  reader_on :: bool
  pinger_on :: bool
  ctx_done :: bool
  target_open :: bool
  browser_open :: bool
  browser_taken :: bytes
  target_given :: bytes
  target_taken :: bytes
  browser_given :: "bytes list"

definition start_relay :: relay where
  "start_relay =
     \<lparr>main_loop = Pumping, reader_on = True, pinger_on = True, ctx_done = False, target_open = True,
      browser_open = True, browser_taken = [], target_given = [], target_taken = [], browser_given = []\<rparr>"

definition max_relay_message :: nat where "max_relay_message = 4 * 1024 * 1024"
definition relay_buffer :: nat where "relay_buffer = 64 * 1024"

section \<open>Moves\<close>

text \<open>The reader returns: its deferred calls end the context.\<close>

definition reader_returns :: "relay \<Rightarrow> relay" where
  "reader_returns r = r\<lparr>reader_on := False, ctx_done := True\<rparr>"

text \<open>The main loop returns: its deferred call closes both sides and waits for the goroutines.\<close>

definition main_returns :: "relay \<Rightarrow> relay" where
  "main_returns r = r\<lparr>main_loop := Waiting, ctx_done := True, target_open := False, browser_open := False\<rparr>"

text \<open>A message of the browser, of which the connection takes at most \<open>n\<close> bytes.\<close>

definition browser_message :: "ws_kind \<Rightarrow> bytes \<Rightarrow> nat \<Rightarrow> relay \<Rightarrow> relay" where
  "browser_message kind data n r =
     (if \<not> reader_on r then r
      else if kind \<noteq> Ws_Binary \<or> max_relay_message < length data then reader_returns r
      else (let r1 = r\<lparr>browser_taken := browser_taken r @ data,
                target_given := target_given r @ (if target_open r then take n data else [])\<rparr>
        in if target_open r \<and> length data \<le> n then r1 else reader_returns r1))"

text \<open>One read of the desktop: what came, whether it came with an error, and whether the frame could be written.\<close>

definition desktop_read :: "bytes \<Rightarrow> bool \<Rightarrow> bool \<Rightarrow> relay \<Rightarrow> relay" where
  "desktop_read data broken out r =
     (if main_loop r \<noteq> Pumping then r
      else (let bs = take relay_buffer data; sent = out \<and> browser_open r;
                r1 = r\<lparr>target_taken := target_taken r @ bs,
                  browser_given := browser_given r @ (if bs \<noteq> [] \<and> sent then [bs] else [])\<rparr>
        in if bs \<noteq> [] \<and> \<not> sent \<or> broken then main_returns r1 else r1))"

definition ping :: "bool \<Rightarrow> relay \<Rightarrow> relay" where
  "ping out r =
     (if \<not> pinger_on r then r
      else if ctx_done r then r\<lparr>pinger_on := False\<rparr>
      else if out \<and> browser_open r then r else r\<lparr>pinger_on := False, ctx_done := True\<rparr>)"

definition close_both :: "relay \<Rightarrow> relay" where
  "close_both r = (if ctx_done r then r\<lparr>target_open := False, browser_open := False\<rparr> else r)"

definition relay_returns :: "relay \<Rightarrow> relay" where
  "relay_returns r =
     (if main_loop r = Waiting \<and> \<not> reader_on r \<and> \<not> pinger_on r then r\<lparr>main_loop := Relay_Returned\<rparr> else r)"

datatype relay_event =
    Browser_Message ws_kind bytes nat
  | Browser_Fails
  | Desktop_Read bytes bool bool
  | Ping bool
  | Context_Callback
  | Both_Ended

fun relay_step :: "relay \<Rightarrow> relay_event \<Rightarrow> relay" where
  "relay_step r (Browser_Message kind data n) = browser_message kind data n r"
| "relay_step r Browser_Fails = (if reader_on r then reader_returns r else r)"
| "relay_step r (Desktop_Read data broken out) = desktop_read data broken out r"
| "relay_step r (Ping out) = ping out r"
| "relay_step r Context_Callback = close_both r"
| "relay_step r Both_Ended = relay_returns r"

section \<open>The invariant\<close>

definition relay_inv :: "relay \<Rightarrow> bool" where
  "relay_inv r \<longleftrightarrow>
     prefix (target_given r) (browser_taken r) \<and> (reader_on r \<longrightarrow> target_given r = browser_taken r) \<and>
     prefix (concat (browser_given r)) (target_taken r) \<and>
     (main_loop r = Pumping \<longrightarrow> concat (browser_given r) = target_taken r) \<and>
     list_all (\<lambda>f. f \<noteq> [] \<and> length f \<le> relay_buffer) (browser_given r) \<and>
     (main_loop r \<noteq> Pumping \<longrightarrow> ctx_done r \<and> \<not> target_open r \<and> \<not> browser_open r) \<and>
     (\<not> reader_on r \<or> \<not> pinger_on r \<longrightarrow> ctx_done r) \<and>
     (main_loop r = Relay_Returned \<longrightarrow> \<not> reader_on r \<and> \<not> pinger_on r)"

lemmas relay_moves = browser_message_def reader_returns_def desktop_read_def main_returns_def ping_def
  close_both_def relay_returns_def

lemma start_relay_inv [simp]: "relay_inv start_relay"
  by (simp add: relay_inv_def start_relay_def)

lemma browser_message_inv: "relay_inv r \<Longrightarrow> relay_inv (browser_message kind data n r)"
  by (auto simp: relay_inv_def browser_message_def reader_returns_def Let_def take_is_prefix)

lemma desktop_read_inv: "relay_inv r \<Longrightarrow> relay_inv (desktop_read data broken out r)"
  by (auto simp: relay_inv_def desktop_read_def main_returns_def Let_def)

lemma relay_step_inv: "relay_inv r \<Longrightarrow> relay_inv (relay_step r e)"
proof (cases e)
  case (Browser_Message kind data n)
  then show "relay_inv r \<Longrightarrow> ?thesis"
    by (simp add: browser_message_inv)
next
  case (Desktop_Read data broken out)
  then show "relay_inv r \<Longrightarrow> ?thesis"
    by (simp add: desktop_read_inv)
qed (auto simp: relay_inv_def relay_moves)

interpretation relays: machine relay_step relay_inv
  by unfold_locales (rule relay_step_inv)

text \<open>Once the context is done, one turn of each of the others ends the relay.\<close>

lemma relay_winds_up:
  assumes "relay_inv r" "ctx_done r"
  shows "main_loop (run relay_step r [Context_Callback, Desktop_Read data True w, Browser_Fails, Ping w', Both_Ended])
    = Relay_Returned"
  using assms by (cases "main_loop r"; cases "reader_on r"; cases "pinger_on r")
    (auto simp: relay_inv_def relay_moves Let_def)

text \<open>
  Claim C25. The relay is a pipe, and it closes. Whatever browser and desktop do, the desktop gets a prefix of the bytes
  the browser sent, in order, all of them as long as the reader runs; the browser gets what the desktop sent, in
  frames of at most 64 KiB that are never empty; when one side ends, a turn of each goroutine ends the
  relay; and when it has ended, no goroutine runs and both connections are closed.
\<close>

theorem the_relay_is_a_pipe_that_closes:
  assumes "r = run relay_step start_relay es"
  shows "prefix (target_given r) (browser_taken r) \<and> (reader_on r \<longrightarrow> target_given r = browser_taken r)
    \<and> prefix (concat (browser_given r)) (target_taken r)
    \<and> (main_loop r = Pumping \<longrightarrow> concat (browser_given r) = target_taken r)
    \<and> list_all (\<lambda>f. f \<noteq> [] \<and> length f \<le> 65536) (browser_given r)
    \<and> (\<not> reader_on r \<or> \<not> pinger_on r \<or> main_loop r \<noteq> Pumping \<longrightarrow>
        main_loop (run relay_step r [Context_Callback, Desktop_Read data True w, Browser_Fails, Ping w', Both_Ended])
        = Relay_Returned)
    \<and> (main_loop r = Relay_Returned \<longrightarrow> \<not> reader_on r \<and> \<not> pinger_on r \<and> \<not> target_open r \<and> \<not> browser_open r)"
proof -
  have inv: "relay_inv r"
    unfolding assms by (rule relays.run_inv) simp
  then have "ctx_done r" if "\<not> reader_on r \<or> \<not> pinger_on r \<or> main_loop r \<noteq> Pumping"
    using that by (auto simp: relay_inv_def)
  then show ?thesis
    using inv relay_winds_up [OF inv] by (simp add: relay_inv_def relay_buffer_def)
qed

theorem the_relay_is_a_pipe_that_closes_witness:
  "let r = run relay_step start_relay [Browser_Message Ws_Binary [1, 2] 9, Desktop_Read [3] False True, Browser_Message Ws_Binary [4, 5] 1]
   in target_given r = [1, 2, 4] \<and> browser_given r = [[3]] \<and> prefix (target_given r) (browser_taken r)
    \<and> main_loop (run relay_step r [Context_Callback, Desktop_Read [] True False, Browser_Fails, Ping False, Both_Ended]) = Relay_Returned"
proof -
  let ?r = "run relay_step start_relay [Browser_Message Ws_Binary [1, 2] 9, Desktop_Read [3] False True, Browser_Message Ws_Binary [4, 5] 1]"
  have "target_given ?r = [1, 2, 4]" "browser_given ?r = [[3]]" "\<not> reader_on ?r"
    by (simp_all add: start_relay_def relay_moves Let_def max_relay_message_def relay_buffer_def)
  then show ?thesis
    using the_relay_is_a_pipe_that_closes [OF refl [of ?r], of "[]" False False] unfolding Let_def by blast
qed

end
