(* ===== verification/Router.thy ===== *)
theory Router
  imports Accounts Rdp
begin

text \<open>
  The router (\<open>internal/api/router.go\<close>): which handler serves a request, behind which middleware, and what is
  served when none does. The matching is that of the gin library: segment by segment, where a parameter matches
  any segment that is not empty. It also redirects a path with a slash too many or too few; such paths
  count as not found here.

  Parameters: whether the limiter lets an address pass, the parser of tokens with its time, and which files the
  built frontend has.
\<close>

section \<open>Routes\<close>

datatype segment = Fixed js_string | Parameter

datatype handler =
    Auth_Status | Auth_Setup | Auth_Login
  | List_Servers | Create_Server | Get_Server | Update_Server | Delete_Server | Test_Connection
  | Sftp_List | Sftp_Upload | Sftp_Download | Sftp_Mkdir | Sftp_Delete
  | Terminal_Socket | Rdp_Socket

record route =
  rt_method :: http_method
  rt_path :: "segment list"
  rt_limited :: bool
  rt_protected :: bool
  rt_handler :: handler

definition api_route :: "http_method \<Rightarrow> segment list \<Rightarrow> handler \<Rightarrow> route" where
  "api_route m p h =
     \<lparr>rt_method = m, rt_path = Fixed [] # Fixed (js ''api'') # p, rt_limited = False, rt_protected = False, rt_handler = h\<rparr>"

definition auth_group :: "http_method \<Rightarrow> js_string \<Rightarrow> handler \<Rightarrow> route" where
  "auth_group m p h = api_route m [Fixed (js ''auth''), Fixed p] h"

definition limited :: "http_method \<Rightarrow> js_string \<Rightarrow> handler \<Rightarrow> route" where
  "limited m p h = (auth_group m p h)\<lparr>rt_limited := True\<rparr>"

definition servers_group :: "http_method \<Rightarrow> segment list \<Rightarrow> handler \<Rightarrow> route" where
  "servers_group m p h = (api_route m (Fixed (js ''servers'') # p) h)\<lparr>rt_protected := True\<rparr>"

definition files_group :: "http_method \<Rightarrow> segment list \<Rightarrow> handler \<Rightarrow> route" where
  "files_group m p h = servers_group m (Parameter # Fixed (js ''files'') # p) h"

definition routes :: "route list" where
  "routes =
     [auth_group Http_Get (js ''status'') Auth_Status,
      limited Http_Post (js ''setup'') Auth_Setup,
      limited Http_Post (js ''login'') Auth_Login,
      servers_group Http_Get [] List_Servers,
      servers_group Http_Post [] Create_Server,
      servers_group Http_Get [Parameter] Get_Server,
      servers_group Http_Put [Parameter] Update_Server,
      servers_group Http_Delete [Parameter] Delete_Server,
      servers_group Http_Post [Parameter, Fixed (js ''test'')] Test_Connection,
      files_group Http_Get [] Sftp_List,
      files_group Http_Post [Fixed (js ''upload'')] Sftp_Upload,
      files_group Http_Get [Fixed (js ''download'')] Sftp_Download,
      files_group Http_Post [Fixed (js ''mkdir'')] Sftp_Mkdir,
      files_group Http_Delete [] Sftp_Delete,
      api_route Http_Get [Fixed (js ''terminal''), Parameter] Terminal_Socket,
      api_route Http_Get [Fixed (js ''rdp''), Parameter] Rdp_Socket]"

section \<open>Matching\<close>

definition path_unit :: "16 word" where "path_unit = 0x2F"

fun match_segments :: "segment list \<Rightarrow> js_string list \<Rightarrow> js_string list option" where
  "match_segments [] [] = Some []"
| "match_segments (Fixed s # ps) (x # xs) = (if x = s then match_segments ps xs else None)"
| "match_segments (Parameter # ps) (x # xs) = (if x = [] then None else map_option ((#) x) (match_segments ps xs))"
| "match_segments ps xs = None"

fun find_route :: "route list \<Rightarrow> http_method \<Rightarrow> js_string list \<Rightarrow> (route \<times> js_string list) option" where
  "find_route [] m xs = None"
| "find_route (rt # rts) m xs =
     (case (if rt_method rt = m then match_segments (rt_path rt) xs else None) of
        None \<Rightarrow> find_route rts m xs
      | Some ps \<Rightarrow> Some (rt, ps))"

definition route_of :: "http_method \<Rightarrow> js_string \<Rightarrow> (route \<times> js_string list) option" where
  "route_of m path = find_route routes m (js_split path_unit path)"

section \<open>Dispatch\<close>

datatype served =
    Call handler "js_string list" "claims option"
  | Too_Many
  | Unauthorized js_string
  | Api_Not_Found
  | File js_string js_string
  | Index

definition api_prefix :: js_string where "api_prefix = js ''/api/''"

text \<open>What is served where no route matches: the files of the frontend, and its first page for everything else.\<close>

definition no_route :: "(js_string \<Rightarrow> bool) \<Rightarrow> js_string \<Rightarrow> served" where
  "no_route exists_file path =
     (if path = js ''/api'' \<or> starts_with path api_prefix then Api_Not_Found
      else if path \<noteq> js ''/'' \<and> exists_file path then
        File path (if starts_with path (js ''/assets/'') then js ''public, max-age=31536000, immutable'' else js ''no-cache'')
      else Index)"

definition dispatch ::
    "bool \<Rightarrow> jwt_parser \<Rightarrow> int \<Rightarrow> (js_string \<Rightarrow> bool) \<Rightarrow> http_method \<Rightarrow> js_string \<Rightarrow> js_string option \<Rightarrow> served" where
  "dispatch passes parse now exists_file m path header =
     (case route_of m path of
        None \<Rightarrow> no_route exists_file path
      | Some (rt, ps) \<Rightarrow>
          if rt_limited rt \<and> \<not> passes then Too_Many
          else if rt_protected rt then
            (case jwt_middleware parse now header of
               Rejected e \<Rightarrow> Unauthorized e
             | Admitted c \<Rightarrow> Call (rt_handler rt) ps (Some c))
          else Call (rt_handler rt) ps None)"

text \<open>The headers and the limit of the body that are set for every request.\<close>

definition frame_options :: "js_string \<Rightarrow> js_string" where
  "frame_options path = (if path = js ''/rdp.html'' then js ''SAMEORIGIN'' else js ''DENY'')"

definition ends_with :: "js_string \<Rightarrow> js_string \<Rightarrow> bool" where
  "ends_with s t \<longleftrightarrow> length t \<le> length s \<and> drop (length s - length t) s = t"

definition body_limit :: "js_string \<Rightarrow> nat option" where
  "body_limit path =
     (if starts_with path api_prefix \<and> \<not> ends_with path (js ''/files/upload'') then Some (2 ^ 20) else None)"

section \<open>The requests of the browser\<close>

lemma digits_no_slash [simp]: "path_unit \<notin> set (int_digits i)" "int_digits i \<noteq> []"
proof -
  have "path_unit \<notin> set (nat_digits n)" for n
    using nat_digits_are_digits [of n] by (auto simp: path_unit_def is_digit_def word_le_nat_alt list_all_iff)
  then show "path_unit \<notin> set (int_digits i)" "int_digits i \<noteq> []"
    by (auto simp: int_digits_def path_unit_def)
qed

lemma split_api:
  "js_split path_unit (js ''/api/auth/status'') = [[], js ''api'', js ''auth'', js ''status'']"
  "js_split path_unit (js ''/api/auth/setup'') = [[], js ''api'', js ''auth'', js ''setup'']"
  "js_split path_unit (js ''/api/auth/login'') = [[], js ''api'', js ''auth'', js ''login'']"
  "js_split path_unit (js ''/api/servers'') = [[], js ''api'', js ''servers'']"
  by code_simp+

lemma split_server:
  "js_split path_unit (js ''/api/servers/'' @ int_digits i) = [[], js ''api'', js ''servers'', int_digits i]"
  "js_split path_unit (js ''/api/terminal/'' @ int_digits i) = [[], js ''api'', js ''terminal'', int_digits i]"
  "js_split path_unit (js ''/api/rdp/'' @ int_digits i) = [[], js ''api'', js ''rdp'', int_digits i]"
  "js_split path_unit (js ''/api/servers/'' @ int_digits i @ js ''/test'') = [[], js ''api'', js ''servers'', int_digits i, js ''test'']"
  "js_split path_unit (js ''/api/servers/'' @ int_digits i @ js ''/files'') = [[], js ''api'', js ''servers'', int_digits i, js ''files'']"
  "js_split path_unit (js ''/api/servers/'' @ int_digits i @ js ''/files/upload'')
    = [[], js ''api'', js ''servers'', int_digits i, js ''files'', js ''upload'']"
  "js_split path_unit (js ''/api/servers/'' @ int_digits i @ js ''/files/download'')
    = [[], js ''api'', js ''servers'', int_digits i, js ''files'', js ''download'']"
  "js_split path_unit (js ''/api/servers/'' @ int_digits i @ js ''/files/mkdir'')
    = [[], js ''api'', js ''servers'', int_digits i, js ''files'', js ''mkdir'']"
  using js_split_append_sep [OF digits_no_slash(1) [of i]] js_split_plain [OF digits_no_slash(1) [of i]]
  by (simp_all add: js_def path_unit_def)

lemmas route_groups = api_route_def auth_group_def limited_def servers_group_def files_group_def

text \<open>What a request of the API client reaches: the handler, its parameters, and whether it is limited and protected.\<close>

definition reached :: "http_method \<Rightarrow> js_string \<Rightarrow> (handler \<times> js_string list \<times> bool \<times> bool) option" where
  "reached m path = map_option (\<lambda>(rt, ps). (rt_handler rt, ps, rt_limited rt, rt_protected rt)) (route_of m path)"

definition request_reaches :: "request \<Rightarrow> (handler \<times> js_string list \<times> bool \<times> bool) option" where
  "request_reaches rq = reached (rq_method rq) (base_url @ rq_path rq)"

lemma fixed_inject: "js a = js b \<longleftrightarrow> a = b" "[] \<noteq> js ''x''" "js ''x'' \<noteq> []"
  by (simp_all add: js_inject)

lemma api_paths:
  "base_url @ js ''/auth/status'' = js ''/api/auth/status''" "base_url @ js ''/auth/setup'' = js ''/api/auth/setup''"
  "base_url @ js ''/auth/login'' = js ''/api/auth/login''" "base_url @ js ''/servers'' = js ''/api/servers''"
  "base_url @ server_path i = js ''/api/servers/'' @ int_digits i"
  "base_url @ server_path i @ js ''/test'' = js ''/api/servers/'' @ int_digits i @ js ''/test''"
  "base_url @ files_path i = js ''/api/servers/'' @ int_digits i @ js ''/files''"
  "base_url @ files_path i @ js ''/upload'' = js ''/api/servers/'' @ int_digits i @ js ''/files/upload''"
  "base_url @ files_path i @ js ''/download'' = js ''/api/servers/'' @ int_digits i @ js ''/files/download''"
  "base_url @ files_path i @ js ''/mkdir'' = js ''/api/servers/'' @ int_digits i @ js ''/files/mkdir''"
  by (simp_all add: base_url_def server_path_def files_path_def js_def)


section \<open>Who is served\<close>

lemma find_route_mem: "find_route rts m xs = Some (rt, ps) \<Longrightarrow> rt \<in> set rts"
  by (induction rts) (auto split: option.splits)

definition public_handlers :: "handler list" where
  "public_handlers = [Auth_Status, Auth_Setup, Auth_Login, Terminal_Socket, Rdp_Socket]"

lemma routes_protected:
  "list_all (\<lambda>rt. (rt_protected rt \<longleftrightarrow> rt_handler rt \<notin> set public_handlers) \<and>
     (rt_limited rt \<longleftrightarrow> rt_handler rt = Auth_Setup \<or> rt_handler rt = Auth_Login)) routes"
  by (simp add: routes_def route_groups public_handlers_def)

text \<open>
  Claim C12. Without a valid token no server and no file is served. Whatever the method and the path of a request, the handlers of
  servers and files are called only for a request that the middleware admitted, and with its claims; those of
  setup and login only when the limiter let it pass; the other three ask for the token themselves, or give
  nothing away.
\<close>

theorem servers_and_files_need_a_token:
  assumes "dispatch passes parse now exists_file m path header = Call h ps c"
  shows "(h \<notin> set public_handlers \<longrightarrow> (\<exists>cl. c = Some cl \<and> jwt_middleware parse now header = Admitted cl
        \<and> (\<exists>t. validate_token parse now t = Some cl)))
    \<and> (h = Auth_Setup \<or> h = Auth_Login \<longrightarrow> passes)"
proof -
  obtain rt where rt: "route_of m path = Some (rt, ps)" "rt_handler rt = h"
    and c: "rt_limited rt \<longrightarrow> passes" "rt_protected rt \<longrightarrow> (\<exists>cl. c = Some cl \<and> jwt_middleware parse now header = Admitted cl)"
    using assms by (auto simp: dispatch_def no_route_def split: option.splits if_splits admission.splits)
  have r: "(rt_protected rt \<longleftrightarrow> h \<notin> set public_handlers) \<and> (rt_limited rt \<longleftrightarrow> h = Auth_Setup \<or> h = Auth_Login)"
    using routes_protected find_route_mem [OF rt(1)[unfolded route_of_def]] rt(2) by (auto simp: list_all_iff)
  have "\<exists>t. validate_token parse now t = Some cl" if "jwt_middleware parse now header = Admitted cl" for cl
    using that by (auto simp: jwt_middleware_def Let_def split: option.splits if_splits)
  then show ?thesis
    using r c by blast
qed

text \<open>The frame of a remote desktop may be shown by the program itself, and nothing else by anyone.\<close>

lemma only_the_rdp_page_may_be_framed: "frame_options path \<noteq> js ''DENY'' \<longleftrightarrow> path = js ''/rdp.html''"
  by (simp add: frame_options_def fixed_inject)

text \<open>Uploads alone are not held to the one MiB of the other requests.\<close>

lemma upload_is_not_limited:
  "body_limit (base_url @ rq_path (upload_file i q up)) = None"
  "body_limit (base_url @ rq_path (create_server f)) = Some (2 ^ 20)"
proof -
  have "ends_with (s @ t) t" for s t
    by (simp add: ends_with_def)
  from this [of "js ''/api/servers/'' @ int_digits i" "js ''/files/upload''"]
  show "body_limit (base_url @ rq_path (upload_file i q up)) = None"
    by (simp add: body_limit_def upload_file_def call_def api_paths)
  have "starts_with (js ''/api/servers'') api_prefix" "\<not> ends_with (js ''/api/servers'') (js ''/files/upload'')"
    by code_simp+
  then show "body_limit (base_url @ rq_path (create_server f)) = Some (2 ^ 20)"
    by (simp add: body_limit_def create_server_def call_def api_paths)
qed

text \<open>The paths of the pages reach the first page of the frontend, whatever method, when they are no files.\<close>

lemma pages_are_served:
  "dispatch passes parse now (\<lambda>p. False) Http_Get (js ''/login'') header = Index"
  "dispatch passes parse now (\<lambda>p. False) Http_Get (js ''/setup'') header = Index"
  "dispatch passes parse now exists_file Http_Get (js ''/'') header = Index"
proof -
  have "route_of Http_Get (js ''/login'') = None" "route_of Http_Get (js ''/setup'') = None" "route_of Http_Get (js ''/'') = None"
    by code_simp+
  moreover have "\<not> starts_with (js ''/login'') api_prefix" "\<not> starts_with (js ''/setup'') api_prefix" "\<not> starts_with (js ''/'') api_prefix"
    by code_simp+
  ultimately show
    "dispatch passes parse now (\<lambda>p. False) Http_Get (js ''/login'') header = Index"
    "dispatch passes parse now (\<lambda>p. False) Http_Get (js ''/setup'') header = Index"
    "dispatch passes parse now exists_file Http_Get (js ''/'') header = Index"
    by (simp_all add: dispatch_def no_route_def fixed_inject)
qed

definition one_claim :: claims where
  "one_claim = \<lparr>cl_user = 1, cl_name = js ''admin'', cl_issuer = issuer_name, cl_issued_at = 1, cl_expires_at = Some 9,
     cl_not_before = None\<rparr>"

definition one_token :: jwt_parser where
  "one_token t = (if t = js ''k'' then Some (js ''HS256'', one_claim) else None)"

theorem servers_and_files_need_a_token_witness:
  "dispatch True one_token 5 (\<lambda>p. False) Http_Get (js ''/api/servers/7'') (Some (js ''Bearer k''))
      = Call Get_Server [js ''7''] (Some one_claim)
    \<and> jwt_middleware one_token 5 (Some (js ''Bearer k'')) = Admitted one_claim"
proof -
  have "0x20 \<in> set (js ''Bearer k'')" "takeWhile (\<lambda>u. u \<noteq> 0x20) (js ''Bearer k'') = js ''Bearer''"
    "tl (dropWhile (\<lambda>u. u \<noteq> 0x20) (js ''Bearer k'')) = js ''k''"
    by code_simp+
  then have m: "jwt_middleware one_token 5 (Some (js ''Bearer k'')) = Admitted one_claim"
    by (simp add: jwt_middleware_def validate_token_def one_token_def one_claim_def)
  have "js_split path_unit (js ''/api/servers/7'') = [[], js ''api'', js ''servers'', js ''7'']"
    by code_simp
  then have d: "dispatch True one_token 5 (\<lambda>p. False) Http_Get (js ''/api/servers/7'') (Some (js ''Bearer k''))
      = Call Get_Server [js ''7''] (Some one_claim)"
    using m by (simp add: dispatch_def route_of_def routes_def route_groups fixed_inject)
  show ?thesis
    using servers_and_files_need_a_token [OF d] d by (simp add: public_handlers_def)
qed

end
