(* ===== verification/Startup.thy ===== *)
theory Startup
  imports Accounts Credential_Upgrade
begin

text \<open>
  The start of the server: its configuration and the file that keeps its secrets
  (\<open>internal/config/config.go\<close>), and what that means for the credentials sealed in an earlier run.

  The environment is a function, empty where a variable is not set; files are a map from paths to contents. How
  the operations on files and the random source fare is an argument, of type \<open>luck\<close>; \<open>exe_db\<close> is the path of
  the database beside the executable, when it can be found.
\<close>

section \<open>The file of secrets\<close>

record luck =
  ok_read :: bool
  ok_chmod :: bool
  ok_mkdir :: bool
  ok_create :: bool
  ok_write :: "nat option"
  ok_sync :: bool
  drawn :: "bytes option \<times> bytes option"

datatype config_error =
    Secrets_Unreadable | Secrets_Corrupt | Secrets_Insecure | No_Directory | No_Secret | Not_Created
  | Not_Written | Not_Synced | Weak_Secret | Bad_Encryption_Key | Default_Key

record secrets =
  sc_jwt :: js_string
  sc_key :: js_string

text \<open>\<open>json.Unmarshal\<close> into the two fields.\<close>

fun bind_secrets :: "(js_string \<times> json) list \<Rightarrow> secrets \<Rightarrow> secrets option" where
  "bind_secrets [] s = Some s"
| "bind_secrets ((k, v) # ms) s =
     (if names_field k (js ''jwt_secret'') \<or> names_field k (js ''encryption_key'') then
        (case v of
           JNull \<Rightarrow> bind_secrets ms s
         | JStr t \<Rightarrow>
             bind_secrets ms
               (if names_field k (js ''jwt_secret'') then s\<lparr>sc_jwt := go_json_text t\<rparr> else s\<lparr>sc_key := go_json_text t\<rparr>)
         | _ \<Rightarrow> None)
      else bind_secrets ms s)"

definition parse_secrets :: "bytes \<Rightarrow> secrets option" where
  "parse_secrets data =
     (case json_parse (go_text data) of
        Some JNull \<Rightarrow> Some \<lparr>sc_jwt = [], sc_key = []\<rparr>
      | Some (JObj ms) \<Rightarrow> bind_secrets ms \<lparr>sc_jwt = [], sc_key = []\<rparr>
      | _ \<Rightarrow> None)"

definition newline :: "16 word" where "newline = 0x0A"
definition quote :: "16 word" where "quote = 0x22"

text \<open>\<open>json.MarshalIndent\<close> of the two fields, whose values are hexadecimal, and the newline at the end.\<close>

definition secrets_text :: "secrets \<Rightarrow> js_string" where
  "secrets_text s =
     js ''{'' @ newline # js ''  '' @ quote # js ''jwt_secret'' @ quote # js '': '' @ quote # sc_jwt s @ quote # js '','' @
     newline # js ''  '' @ quote # js ''encryption_key'' @ quote # js '': '' @ quote # sc_key s @ quote # newline # js ''}'' @ [newline]"

type_synonym files = "js_string \<rightharpoonup> bytes"

definition load_or_create :: "luck \<Rightarrow> js_string \<Rightarrow> files \<Rightarrow> (config_error + secrets) \<times> files" where
  "load_or_create l path fs =
     (if \<not> ok_read l then (Inl Secrets_Unreadable, fs)
      else (case fs path of
          Some data \<Rightarrow>
            (case parse_secrets data of
               None \<Rightarrow> (Inl Secrets_Corrupt, fs)
             | Some s \<Rightarrow> (if ok_chmod l then Inr s else Inl Secrets_Insecure, fs))
        | None \<Rightarrow>
            if \<not> ok_mkdir l then (Inl No_Directory, fs)
            else (case drawn l of
                (Some a, Some b) \<Rightarrow>
                  (let s = \<lparr>sc_jwt = hex_encode a, sc_key = hex_encode b\<rparr>; data = text_encode (secrets_text s)
                   in if \<not> ok_create l then (Inl Not_Created, fs)
                      else (case ok_write l of
                          Some n \<Rightarrow> (Inl Not_Written, fs(path \<mapsto> take n data))
                        | None \<Rightarrow> (if ok_sync l then Inr s else Inl Not_Synced, fs(path \<mapsto> data))))
              | _ \<Rightarrow> (Inl No_Secret, fs))))"

section \<open>The configuration\<close>

record app_config =
  ac_db_path :: js_string
  ac_jwt_secret :: js_string
  ac_encryption_key :: js_string
  ac_listen :: js_string
  ac_secrets_path :: js_string

definition get_env :: "(js_string \<Rightarrow> js_string) \<Rightarrow> js_string \<Rightarrow> js_string \<Rightarrow> js_string" where
  "get_env env key fallback = (if env key \<noteq> [] then env key else fallback)"

definition legacy_key :: js_string where
  "legacy_key = js ''0123456789abcdef0123456789abcdef0123456789abcdef0123456789abcdef''"

definition default_jwt_secret :: js_string where
  "default_jwt_secret = js ''opsup-default-jwt-secret-change-me-in-prod''"

definition environment_config :: "(js_string \<Rightarrow> js_string) \<Rightarrow> js_string option \<Rightarrow> app_config" where
  "environment_config env exe_db =
     (let db = (if env (js ''OPSUP_DB_PATH'') \<noteq> [] then env (js ''OPSUP_DB_PATH'')
                else (case exe_db of None \<Rightarrow> js ''./opsup.db'' | Some p \<Rightarrow> p))
      in \<lparr>ac_db_path = db, ac_jwt_secret = env (js ''OPSUP_JWT_SECRET''),
          ac_encryption_key = env (js ''OPSUP_ENCRYPTION_KEY''), ac_listen = get_env env (js ''OPSUP_LISTEN'') (js '':8080''),
          ac_secrets_path = get_env env (js ''OPSUP_SECRETS_PATH'') (db @ js ''.secrets.json'')\<rparr>)"

text \<open>The checks at the end of \<open>Load\<close>; the length of the secret is that of its bytes.\<close>

definition check_config :: "app_config \<Rightarrow> config_error + app_config" where
  "check_config c =
     (if length (text_encode (ac_jwt_secret c)) < 32 \<or> ac_jwt_secret c = default_jwt_secret then Inl Weak_Secret
      else (case hex_decode (ac_encryption_key c) of
          None \<Rightarrow> Inl Bad_Encryption_Key
        | Some k \<Rightarrow>
            if length k \<noteq> 32 then Inl Bad_Encryption_Key
            else if hex_encode k = legacy_key then Inl Default_Key
            else Inr (c\<lparr>ac_encryption_key := hex_encode k\<rparr>)))"

definition load_config ::
    "(js_string \<Rightarrow> js_string) \<Rightarrow> js_string option \<Rightarrow> luck \<Rightarrow> files \<Rightarrow> (config_error + app_config) \<times> files" where
  "load_config env exe_db l fs =
     (let c = environment_config env exe_db
      in if ac_jwt_secret c \<noteq> [] \<and> ac_encryption_key c \<noteq> [] then (check_config c, fs)
         else (case load_or_create l (ac_secrets_path c) fs of
             (Inl e, fs1) \<Rightarrow> (Inl e, fs1)
           | (Inr s, fs1) \<Rightarrow>
               (check_config
                  (c\<lparr>ac_jwt_secret := if ac_jwt_secret c = [] then sc_jwt s else ac_jwt_secret c,
                     ac_encryption_key := if ac_encryption_key c = [] then sc_key s else ac_encryption_key c\<rparr>),
                fs1)))"

section \<open>Reading what was written\<close>

lemma hex_units: "u \<in> set (hex_encode bs) \<Longrightarrow> 0x30 \<le> u \<and> u \<le> 0x66 \<and> u \<noteq> 0x5C"
proof -
  have "list_all (\<lambda>n. 0x30 \<le> hex_char n \<and> hex_char n \<le> 0x66 \<and> hex_char n \<noteq> 0x5C) [0..<16]"
    by code_simp
  then have h: "0x30 \<le> hex_char n \<and> hex_char n \<le> 0x66 \<and> hex_char n \<noteq> 0x5C" if "n < 16" for n
    using that by (simp add: list_all_iff del: upt_rec_numeral)
  have "unat b < 256" for b :: "8 word"
    using unsigned_less [of b] by simp
  then have "unat b div 16 < 16" for b :: "8 word"
    by (simp add: less_mult_imp_div_less)
  then have "\<forall>u \<in> set [hex_char (unat b div 16), hex_char (unat b mod 16)]. 0x30 \<le> u \<and> u \<le> 0x66 \<and> u \<noteq> 0x5C"
    for b :: "8 word"
    using h [of "unat b div 16"] h [of "unat b mod 16"] by simp
  then show "u \<in> set (hex_encode bs) \<Longrightarrow> ?thesis"
    by (auto simp: hex_encode_def)
qed

lemma hex_plain: "plain_key (hex_encode bs)" "ascii (hex_encode bs)"
  using hex_units [of _ bs] by (fastforce simp: plain_key_def ascii_def word_le_nat_alt word_less_nat_alt word_unat_eq_iff)+

lemma string_member:
  assumes "plain_key k" "plain_key v" "list_all json_ws ws"
  shows "p_members (Suc (Suc n)) (ws @ 0x22 # k @ 0x22 # 0x3A # 0x20 # 0x22 # v @ 0x22 # r)
    = (case skip_ws r of [] \<Rightarrow> None
       | d # ds \<Rightarrow>
           if d = 0x7D then Some ([(k, JStr v)], ds)
           else if d = 0x2C then map_option (map_prod ((#) (k, JStr v)) id) (p_members (Suc n) ds) else None)"
proof -
  have w: "skip_ws (ws @ 0x22 # x) = 0x22 # x" for x
    using assms(3) by (induction ws) (simp_all add: skip_ws_def json_ws_def)
  have c: "skip_ws (0x3A # x) = 0x3A # x" "skip_ws (0x20 # 0x22 # x) = 0x22 # x" for x
    by (simp_all add: skip_ws_def json_ws_def)
  have v: "p_value (Suc n) (0x22 # v @ 0x22 # r) = Some (JStr v, r)"
    using p_string_plain [OF assms(2)] by simp
  show ?thesis
    using p_string_plain [OF assms(1)] by (subst p_members.simps) (simp add: w c v del: p_members.simps p_value.simps)
qed

lemma secret_name_facts:
  "plain_key (js ''jwt_secret'')" "plain_key (js ''encryption_key'')"
  "names_field (js ''jwt_secret'') (js ''jwt_secret'')" "names_field (js ''encryption_key'') (js ''encryption_key'')"
  "\<not> names_field (js ''encryption_key'') (js ''jwt_secret'')"
  by code_simp+

lemma secrets_text_units:
  "secrets_text s = 0x7B # [0x0A, 0x20, 0x20] @ 0x22 # js ''jwt_secret'' @ 0x22 # 0x3A # 0x20 # 0x22 # sc_jwt s @ 0x22 #
     0x2C # [0x0A, 0x20, 0x20] @ 0x22 # js ''encryption_key'' @ 0x22 # 0x3A # 0x20 # 0x22 # sc_key s @ 0x22 # [0x0A, 0x7D, 0x0A]"
  by (simp add: secrets_text_def newline_def quote_def js_def)

lemma secrets_round_trip:
  assumes "sc_jwt s = hex_encode a" "sc_key s = hex_encode b"
  shows "parse_secrets (text_encode (secrets_text s)) = Some s"
proof -
  let ?t = "secrets_text s"
  have "ascii (js ''jwt_secret'')" "ascii (js ''encryption_key'')"
    by code_simp+
  then have "ascii ?t"
    using assms hex_plain(2) by (auto simp: secrets_text_units ascii_def)
  then have g: "go_text (text_encode ?t) = ?t"
    by (simp add: go_text_encode ascii_well_formed)
  have ws: "list_all json_ws [0x0A, 0x20, 0x20]" "skip_ws (0x2C # x) = 0x2C # x" "skip_ws [0x0A, 0x7D, 0x0A] = [0x7D, 0x0A]"
    "skip_ws [0x0A] = []" "skip_ws (0x7B # x) = 0x7B # x" "skip_ws ([0x0A, 0x20, 0x20] @ 0x22 # x) = 0x22 # x" for x
    by (simp_all add: skip_ws_def json_ws_def)
  obtain n where n: "2 * length ?t + 1 = Suc (Suc (Suc (Suc n)))"
    by (simp add: secrets_text_units)
  let ?r = "0x22 # js ''jwt_secret'' @ 0x22 # 0x3A # 0x20 # 0x22 # sc_jwt s @ 0x22 #
     0x2C # [0x0A, 0x20, 0x20] @ 0x22 # js ''encryption_key'' @ 0x22 # 0x3A # 0x20 # 0x22 # sc_key s @ 0x22 # [0x0A, 0x7D, 0x0A]"
  have m: "p_members (Suc (Suc (Suc n))) ?r
      = Some ([(js ''jwt_secret'', JStr (sc_jwt s)), (js ''encryption_key'', JStr (sc_key s))], [0x0A])"
    using string_member [of "js ''jwt_secret''" "sc_jwt s" "[]" "Suc n"]
      string_member [of "js ''encryption_key''" "sc_key s" "[0x0A, 0x20, 0x20]" n "[0x0A, 0x7D, 0x0A]"]
      secret_name_facts(1,2) hex_plain(1) assms ws by (simp del: p_members.simps)
  have "p_value (Suc (Suc (Suc (Suc n)))) ?t
      = Some (JObj [(js ''jwt_secret'', JStr (sc_jwt s)), (js ''encryption_key'', JStr (sc_key s))], [0x0A])"
    unfolding secrets_text_units using m ws(6) by (simp del: p_members.simps append.simps)
  then have "json_parse ?t = Some (JObj [(js ''jwt_secret'', JStr (sc_jwt s)), (js ''encryption_key'', JStr (sc_key s))])"
    unfolding json_parse_def n using ws(4) ws(5) by (simp add: secrets_text_units del: p_value.simps)
  then show ?thesis
    using secret_name_facts(3-5) assms hex_plain(2) by (simp add: parse_secrets_def g go_json_text_id ascii_well_formed)
qed

section \<open>What a start promises\<close>

lemma checked_config:
  assumes "check_config c = Inr c'"
  obtains k where "hex_decode (ac_encryption_key c) = Some k" "length k = 32" "c' = c\<lparr>ac_encryption_key := hex_encode k\<rparr>"
    "32 \<le> length (text_encode (ac_jwt_secret c))" "ac_jwt_secret c \<noteq> default_jwt_secret" "hex_encode k \<noteq> legacy_key"
  using assms by (auto simp: check_config_def split: option.splits if_splits)

lemma checked_key: "check_config c = Inr c' \<Longrightarrow> aes_key (ac_encryption_key c') \<noteq> None"
  by (erule checked_config) (simp add: aes_key_def)

lemma load_or_create_keeps: "fs path = Some data \<Longrightarrow> load_or_create l path fs = (res, fs') \<Longrightarrow> fs' = fs"
  by (auto simp: load_or_create_def split: if_splits option.splits)

lemma load_or_create_again:
  assumes "load_or_create l path fs = (Inr s, fs')" "ok_read l'" "ok_chmod l'"
  shows "load_or_create l' path fs' = (Inr s, fs')"
proof (cases "fs path")
  case None
  obtain a b where "drawn l = (Some a, Some b)"
    using None assms(1) by (cases "drawn l"; cases "fst (drawn l)"; cases "snd (drawn l)")
      (auto simp: load_or_create_def split: if_splits)
  then have "s = \<lparr>sc_jwt = hex_encode a, sc_key = hex_encode b\<rparr>" "fs' = fs(path \<mapsto> text_encode (secrets_text s))"
    using None assms(1) by (auto simp: load_or_create_def Let_def split: if_splits option.splits)
  then show ?thesis
    using assms(2,3) secrets_round_trip [of s a b] by (simp add: load_or_create_def)
next
  case (Some data)
  then show ?thesis
    using assms by (auto simp: load_or_create_def split: if_splits option.splits)
qed

text \<open>
  Claim C15. What was sealed before a restart opens after it. A start that succeeds has a key of 32 bytes that is not the old
  default, and a secret of at least 32 bytes that is not the default either; and any later start in the same environment,
  if it can read the file of secrets, has the same configuration, however its random source and the rest fare, and
  leaves the file alone; so that a credential sealed in one run is opened in the next.
\<close>

theorem what_was_sealed_opens_after_a_restart:
  assumes "\<And>k n p. length n = nonce_size \<Longrightarrow> unseal k n (seal k n p) = Some p"
    and "load_config env exe_db l fs = (Inr c, fs')" and "ok_read l'" and "ok_chmod l'"
  shows "(\<exists>k. aes_key (ac_encryption_key c) = Some k \<and> length k = 32) \<and> ac_encryption_key c \<noteq> legacy_key
    \<and> 32 \<le> length (text_encode (ac_jwt_secret c)) \<and> ac_jwt_secret c \<noteq> default_jwt_secret
    \<and> load_config env exe_db l' fs' = (Inr c, fs')
    \<and> (\<forall>p sealed. encrypt seal rnd p (ac_encryption_key c) = Some sealed \<longrightarrow>
        decrypt unseal sealed (ac_encryption_key (projr (fst (load_config env exe_db l' fs')))) = Some p)"
proof -
  have again: "load_config env exe_db l' fs' = (Inr c, fs')"
  proof (cases "ac_jwt_secret (environment_config env exe_db) \<noteq> [] \<and> ac_encryption_key (environment_config env exe_db) \<noteq> []")
    case False
    let ?path = "ac_secrets_path (environment_config env exe_db)"
    obtain s where s: "load_or_create l ?path fs = (Inr s, fs')"
      using assms(2) False by (auto simp: load_config_def Let_def split: prod.splits sum.splits)
    then show ?thesis
      using assms(2) False load_or_create_again [OF s assms(3,4)] by (auto simp: load_config_def Let_def)
  qed (use assms(2) in \<open>simp add: load_config_def Let_def\<close>)
  obtain c0 where c0: "check_config c0 = Inr c"
    using assms(2) by (auto simp: load_config_def Let_def split: prod.splits sum.splits if_splits)
  then obtain k where "length k = 32" "c = c0\<lparr>ac_encryption_key := hex_encode k\<rparr>"
    "32 \<le> length (text_encode (ac_jwt_secret c0))" "ac_jwt_secret c0 \<noteq> default_jwt_secret" "hex_encode k \<noteq> legacy_key"
    by (rule checked_config)
  then show ?thesis
    using again decrypt_encrypt [where unseal = unseal and seal = seal, OF assms(1)] by (simp add: aes_key_def)
qed

text \<open>A file that is there is never replaced, whatever happens, so no key is lost by a start.\<close>

lemma secrets_are_never_replaced:
  "fs path = Some data \<Longrightarrow> load_config env exe_db l fs = (res, fs') \<Longrightarrow> fs' path = Some data"
  by (auto simp: load_config_def load_or_create_def Let_def split: if_splits prod.splits sum.splits option.splits)

text \<open>
  A creation that is interrupted before anything is written leaves a file that every later start refuses, though no
  key was ever used.
\<close>

lemma interrupted_creation_blocks_the_start:
  assumes "env (js ''OPSUP_JWT_SECRET'') = []" "fs path = None" "path = ac_secrets_path (environment_config env exe_db)"
    and "ok_read l" "ok_mkdir l" "drawn l = (Some a, Some b)" "ok_create l" "ok_write l = Some 0"
    and "ok_read l'"
  shows "\<exists>fs'. load_config env exe_db l fs = (Inl Not_Written, fs') \<and> load_config env exe_db l' fs' = (Inl Secrets_Corrupt, fs')"
proof -
  have "parse_secrets [] = None"
    by code_simp
  moreover have "ac_jwt_secret (environment_config env exe_db) = []"
    using assms(1) by (simp add: environment_config_def Let_def)
  ultimately show ?thesis
    using assms(2-9) by (simp add: load_config_def load_or_create_def Let_def)
qed

section \<open>Serving\<close>

text \<open>
  \<open>run\<close> of \<open>main.go\<close> up to the point where it serves: the configuration, the database, the upgrade of its
  credentials. \<open>rnd\<close> draws the nonces, \<open>opens\<close> and \<open>ok\<close> say whether the database can be opened and its
  transaction succeeds.
\<close>

datatype start_error = Config_Failed config_error | Database_Failed | Upgrade_Failed upgrade_error

definition start_server ::
    "cipher \<Rightarrow> decipher \<Rightarrow> (int \<Rightarrow> bool \<Rightarrow> (nat \<Rightarrow> 8 word) option) \<Rightarrow> (js_string \<Rightarrow> js_string) \<Rightarrow> js_string option \<Rightarrow>
      luck \<Rightarrow> bool \<Rightarrow> bool \<Rightarrow> files \<Rightarrow> database \<Rightarrow> (start_error + app_config) \<times> files \<times> database" where
  "start_server seal unseal rnd env exe_db l opens ok fs d =
     (case load_config env exe_db l fs of
        (Inl e, fs1) \<Rightarrow> (Inl (Config_Failed e), fs1, d)
      | (Inr c, fs1) \<Rightarrow>
          if \<not> opens then (Inl Database_Failed, fs1, d)
          else (case upgrade_credentials (\<lambda>v. decrypt unseal v (ac_encryption_key c)) (\<lambda>v. decrypt unseal v legacy_key)
                  (\<lambda>i k p. encrypt seal (rnd i k) p (ac_encryption_key c)) ok d of
              (Inl e, d1) \<Rightarrow> (Inl (Upgrade_Failed e), fs1, d1)
            | (Inr n, d1) \<Rightarrow> (Inr c, fs1, d1)))"

lemma upgrade_relates:
  assumes "db_ok d" "recrypts enc dec" "upgrade_credentials dec old enc ok d = (Inr n, d')"
  shows "rel_option (upgraded dec old) (rows d i) (rows d' i)"
proof -
  obtain us where us: "upgrade_rows dec old enc (all_rows d) = Inr us" "d' = fold set_secrets us d"
    using assms(3) by (auto simp: upgrade_credentials_def split: sum.splits if_splits)
  show ?thesis
    unfolding us(2)
    by (rule rows_upgraded [OF assms(1) upgrade_rows_cover [OF assms(2) us(1) all_rows_ids(1) [OF assms(1)]]])
qed

lemma usable_row:
  assumes "upgraded dec old r0 r" "rw_protocol r \<noteq> js ''rdp''"
  shows "\<exists>cfg. connection_config dec r = Inr cfg"
proof -
  have "plaintext dec (rw_private_key r) \<noteq> None" "plaintext dec (rw_password r) \<noteq> None"
    using assms(1) unfolding upgraded_def by blast+
  then obtain k p where "plaintext dec (rw_private_key r) = Some k" "plaintext dec (rw_password r) = Some p"
    by blast
  then show ?thesis
    using assms(2) by (auto simp: connection_config_def plaintext_def Let_def split: if_splits)
qed

text \<open>
  Claim C14. A server that has started can use what it stores. When the start of the server succeeds, whichever key sealed a
  credential before, its key opens every credential, so that no SSH server fails for its credentials; nothing else of
  any row has changed, and no row came or went.
\<close>

theorem a_started_server_can_use_its_servers:
  assumes "\<And>k n p. length n = nonce_size \<Longrightarrow> unseal k n (seal k n p) = Some p" and "db_ok d"
    and "start_server seal unseal rnd env exe_db l opens ok fs d = (Inr c, fs', d')"
  shows "(rows d i = None \<longleftrightarrow> rows d' i = None)
    \<and> (\<forall>r. rows d' i = Some r \<longrightarrow>
        (\<exists>r0. rows d i = Some r0 \<and> shown r = shown r0)
        \<and> (rw_protocol r \<noteq> js ''rdp'' \<longrightarrow>
            (\<exists>cfg. connection_config (\<lambda>v. decrypt unseal v (ac_encryption_key c)) r = Inr cfg)))"
proof -
  let ?dec = "\<lambda>v. decrypt unseal v (ac_encryption_key c)" and ?old = "\<lambda>v. decrypt unseal v legacy_key"
  let ?enc = "\<lambda>i k p. encrypt seal (rnd i k) p (ac_encryption_key c)"
  obtain n where u: "upgrade_credentials ?dec ?old ?enc ok d = (Inr n, d')"
    using assms(3) by (auto simp: start_server_def split: prod.splits sum.splits if_splits)
  have "recrypts ?enc ?dec"
    using decrypt_encrypt [where unseal = unseal and seal = seal, OF assms(1)] encrypt_not_empty
    unfolding recrypts_def by blast
  then have rel: "rel_option (upgraded ?dec ?old) (rows d i) (rows d' i)"
    using upgrade_relates [OF assms(2) _ u] by blast
  then have "\<exists>r0. rows d i = Some r0 \<and> upgraded ?dec ?old r0 r" if "rows d' i = Some r" for r
    using that by (auto simp: option_rel_Some2)
  then have "(\<exists>r0. rows d i = Some r0 \<and> shown r = shown r0)
      \<and> (rw_protocol r \<noteq> js ''rdp'' \<longrightarrow> (\<exists>cfg. connection_config ?dec r = Inr cfg))" if "rows d' i = Some r" for r
    using that usable_row [of ?dec ?old _ r] by (metis upgraded_def)
  moreover have "rows d i = None \<longleftrightarrow> rows d' i = None"
    using rel by (cases "rows d i"; cases "rows d' i") simp_all
  ultimately show ?thesis
    by blast
qed

section \<open>Instances\<close>

definition first_luck :: luck where
  "first_luck = \<lparr>ok_read = True, ok_chmod = True, ok_mkdir = True, ok_create = True, ok_write = None, ok_sync = True,
     drawn = (Some (replicate 32 1), Some (replicate 32 2))\<rparr>"

definition later_luck :: luck where
  "later_luck = \<lparr>ok_read = True, ok_chmod = True, ok_mkdir = False, ok_create = False, ok_write = Some 0, ok_sync = False,
     drawn = (None, None)\<rparr>"

lemma first_start:
  "\<exists>c fs. load_config (\<lambda>v. []) None first_luck Map.empty = (Inr c, fs) \<and> ac_encryption_key c = hex_encode (replicate 32 2)"
proof -
  have "length (hex_encode (replicate 32 1)) = 64"
    by (simp add: hex_encode_def length_concat sum_list_replicate)
  then have l: "length (text_encode (hex_encode (replicate 32 1))) = 64"
    by (simp add: text_encode_ascii [OF hex_plain(2)])
  have "length default_jwt_secret = 42"
    by code_simp
  then have d: "hex_encode (replicate 32 1) \<noteq> default_jwt_secret"
    using \<open>length (hex_encode (replicate 32 1)) = 64\<close> by auto
  have n: "hex_encode (replicate 32 2) \<noteq> legacy_key"
  proof -
    have "hd (hex_encode (replicate 32 2)) = hd legacy_key" "hd (tl (hex_encode (replicate 32 2))) \<noteq> hd (tl legacy_key)"
      by code_simp+
    then show ?thesis
      by metis
  qed
  show ?thesis
    using l d n by (simp add: load_config_def environment_config_def load_or_create_def first_luck_def check_config_def Let_def)
qed

theorem what_was_sealed_opens_after_a_restart_witness:
  "\<exists>c fs. load_config (\<lambda>v. []) None first_luck Map.empty = (Inr c, fs) \<and> ac_encryption_key c = hex_encode (replicate 32 2)
    \<and> load_config (\<lambda>v. []) None later_luck fs = (Inr c, fs)"
proof -
  obtain c fs where c: "load_config (\<lambda>v. []) None first_luck Map.empty = (Inr c, fs)" "ac_encryption_key c = hex_encode (replicate 32 2)"
    using first_start by blast
  have later: "ok_read later_luck" "ok_chmod later_luck"
    by (simp_all add: later_luck_def)
  show ?thesis
    using what_was_sealed_opens_after_a_restart [of sample_unseal sample_seal, OF sample_cipher c(1) later] c by blast
qed

text \<open>A server whose key was sealed earlier.\<close>

definition sealed_row :: row where
  "sealed_row = sample_row\<lparr>rw_private_key := hex_encode (replicate 12 7 @ sample_seal [3] (replicate 12 7) [1, 2])\<rparr>"

lemma sealed_row_ok: "db_ok (db (one_row sealed_row))"
proof -
  have "rw_auth_type sample_row = js ''key''" "rw_jump_server_id sample_row = None"
    by (simp_all add: sample_row_def row_of_def request_of_def sample_server_form_def protocol_names)
  then have "row_ok sealed_row"
    using sample_row_ok by (simp add: row_ok_def ssh_row_ok_def rdp_row_ok_def sealed_row_def hex_encode_def)
  then show ?thesis
    using sample_row_ok by (simp add: db_ok_def one_row_def sealed_row_def)
qed

lemma sealed_row_opens:
  assumes "aes_key key \<noteq> None"
  shows "decrypt sample_unseal (rw_private_key sealed_row) key \<noteq> None"
proof -
  obtain k where "aes_key key = Some k" "hex_decode key \<noteq> None"
    using assms by (auto simp: aes_key_def split: option.splits)
  then show ?thesis
    by (auto simp: decrypt_def sealed_row_def nonce_size_def sample_unseal_def sample_seal_def)
qed

theorem a_started_server_can_use_its_servers_witness:
  "\<exists>c fs d'. start_server sample_seal sample_unseal (\<lambda>i k. Some (\<lambda>j. 9)) (\<lambda>v. []) None first_luck True True Map.empty
      (db (one_row sealed_row)) = (Inr c, fs, d')
    \<and> (\<forall>r. rows d' 1 = Some r \<longrightarrow> (\<exists>r0. shown r = shown r0))"
proof -
  obtain c fs where c: "load_config (\<lambda>v. []) None first_luck Map.empty = (Inr c, fs)" "ac_encryption_key c = hex_encode (replicate 32 2)"
    using first_start by blast
  have "aes_key (hex_encode (replicate 32 2)) \<noteq> None"
    by (simp add: aes_key_def)
  then have k: "decrypt sample_unseal (rw_private_key sealed_row) (ac_encryption_key c) \<noteq> None"
    using sealed_row_opens c(2) by simp
  have p: "rw_password sealed_row = []"
    by (simp add: sealed_row_def sample_row_def row_of_def)
  have a: "all_rows (db (one_row sealed_row)) = [sealed_row]"
    by (simp add: all_rows_def one_row_def)
  have s: "start_server sample_seal sample_unseal (\<lambda>i k. Some (\<lambda>j. 9)) (\<lambda>v. []) None first_luck True True Map.empty
      (db (one_row sealed_row)) = (Inr c, fs, db (one_row sealed_row))"
    using k p by (simp add: start_server_def c(1) upgrade_credentials_def a upgrade_row_def upgrade_value_def)
  show ?thesis
    using a_started_server_can_use_its_servers [of sample_unseal sample_seal, OF sample_cipher sealed_row_ok s, of 1] s
    by blast
qed

end
