(* ===== verification/Spec2Isabelle.thy ===== *)
theory Spec2Isabelle
  imports Terminal_View Shell_Properties Server_Edit Server_Types Credential_Upgrade
    File_View File_Tasks Tabs_View Sidebar_View Rdp Jump_Host Session Pages_View Rate_Limit
    Remote_Files Rdp_Relay Router Startup
begin

text \<open>
  A web console for servers: SSH terminals, a file manager over SFTP, and remote desktops. This library
  models the TypeScript program under \<open>src/ui/src\<close> and the parts of the Go program under
  \<open>src/internal\<close> that the frontend's promises rest on, and proves what makes them correct. File names below
  are relative to \<open>src/ui/src\<close>, those that begin with \<open>internal\<close> to \<open>src\<close>.

  \<^bold>\<open>The program.\<close> A visitor signs in (\<open>hooks/useAuth.ts\<close>); the token is kept in \<open>localStorage\<close> and added to
  every request by the API client (\<open>api/client.ts\<close>). The main page (\<open>pages/MainPage.tsx\<close>) holds the open
  tabs, the sidebar the list of servers, and a form adds and edits them. A terminal tab owns a connection hook
  (\<open>hooks/useTerminalConnection.ts\<close>) that joins an xterm terminal to a WebSocket; an RDP tab owns a frame with
  a page of its own (\<open>rdp/client.ts\<close>) and talks to it by messages; the file manager is a dialog over a
  directory hook (\<open>hooks/useDirectory.ts\<close>). The hard part throughout is asynchrony: callbacks of closed
  connections, replies to superseded requests, actions that end after the user moved on, a socket whose buffer
  fills. The code answers with generation numbers, and so do the theories.

  On the other side of the socket, \<open>internal/api/terminal_handler.go\<close> joins it to an SSH session, with a
  goroutine per direction. Servers are stored by \<open>internal/api/server_handler.go\<close>, their credentials sealed by
  \<open>internal/crypto/encryption.go\<close>, re-sealed at a change of key by \<open>internal/database/credentials.go\<close>, and used by
  \<open>internal/api/connection.go\<close> to dial a machine, directly or through one other. The terminal is proved as
  a whole, from the typed text to the bytes the shell receives and back, and so is a credential, from the
  form it is typed into to the login it is used for. The one user of the program signs in with
  \<open>internal/api/auth_handler.go\<close>, behind \<open>rate_limit.go\<close>; the tokens of \<open>internal/auth\<close> are followed from the
  reply to the header that \<open>middleware.go\<close> reads.

  \<^bold>\<open>How it is modelled.\<close> A component is a record of its states and refs, a datatype of the events that can
  reach it (one per callback the code registers, and one per move of its environment), and a total step
  function that runs the whole handler. An asynchronous function is cut at its awaits: what is waiting is part
  of the state, and the reply is an event that may come at any later time, in any order, or never. A run is any
  list of events (\<open>run\<close> of \<open>Interfaces\<close>), so a statement about all runs covers all interleavings. An
  exception is a branch: a Boolean, an option or a result value of the operation that raises it.

  \<^bold>\<open>The theories.\<close>
  \<^item> \<open>Js_Prelude\<close>: strings as lists of 16-bit code units and the string methods the code calls.
  \<^item> \<open>Interfaces\<close>: the locales \<open>kv_store\<close>, \<open>machine\<close> and \<open>generation_machine\<close>, and what follows from
    their laws. \<open>Browser\<close> adds \<open>socket_laws\<close>, what the pump needs of a socket. Each is interpreted on the
    definitions of the components: \<open>kv_store\<close> on the browser's storage, \<open>machine\<close> on the theme, the
    terminal, the server's end of it and both together, the signed-in user, the directory, the tasks of
    the file manager, the workspace, the sidebar, the dialog of the form, the RDP page, the stored servers,
    their types, the accounts, the limiter, an upload and the relay,
    \<open>generation_machine\<close> on the terminal, the directory and the form.
  \<^item> \<open>Codec\<close>, \<open>Json\<close>: \<open>TextEncoder\<close>, \<open>TextDecoder\<close> and \<open>JSON.parse\<close>, with their round trips.
  \<^item> \<open>Browser\<close>: \<open>localStorage\<close>, \<open>location\<close>, \<open>encodeURIComponent\<close> and the WebSocket object.
  \<^item> \<open>Terminal_Frames\<close>: \<open>inputFrames\<close> and the resize frame.
  \<^item> \<open>Terminal_Connection\<close>: the hook itself, one definition per closure of \<open>useTerminalConnection.ts\<close>
    (\<open>connect\<close>, \<open>release\<close>, \<open>fail\<close>, \<open>pump\<close>, \<open>send_input\<close>, \<open>send_resize\<close>, \<open>on_message\<close> and the
    rest) and the step function \<open>terminal_step\<close>.
  \<^item> \<open>Terminal_Invariant\<close>, \<open>Terminal_Flow\<close>, \<open>Terminal_Status\<close>, \<open>Terminal_Drain\<close>: its resources, the
    stream of typed bytes, its status and errors, and backpressure; \<open>Terminal_Properties\<close> states the results
    over all runs. \<open>Terminal_View\<close> has the touch gestures (\<open>utils/terminalTouch.ts\<close>) and the tab
    (\<open>components/TerminalTab.tsx\<close>).
  \<^item> \<open>Terminal_Wire\<close>: what the hook puts on the socket and takes off it. \<open>Terminal_Server\<close>: the handler
    (\<open>terminal_handler\<close>) and \<open>runTerminal\<close>, its goroutines as events of \<open>shell_step\<close>; \<open>End_To_End\<close>: hook, handler
    and a socket in between; \<open>Shell_Properties\<close>: the abstract pipe they implement, and the results.
  \<^item> \<open>Theme\<close>: \<open>contexts/ThemeContext.tsx\<close> and the terminal colours.
  \<^item> \<open>Api\<close>, \<open>Auth\<close>: \<open>types/index.ts\<close>, \<open>api/*.ts\<close>, the hook, the two pages and the guard of \<open>App.tsx\<close>.
  \<^item> \<open>Directory\<close>, \<open>File_Manager\<close>, \<open>File_Properties\<close>: the directory hook, \<open>components/FileManager.tsx\<close>
    and its results.
    \<open>File_Tasks\<close>: its actions end.
  \<^item> \<open>Workspace\<close>: the tabs of \<open>MainPage.tsx\<close> and \<open>components/TerminalTabs.tsx\<close>.
  \<^item> \<open>View\<close>, \<open>File_View\<close>, \<open>Tabs_View\<close>, \<open>Sidebar_View\<close>, \<open>Form_View\<close>, \<open>Pages_View\<close>: what the components
    show and offer, as data: which control is on, what it is labelled and which event it raises. The form's
    rules are read off its fields (\<open>field_errors\<close>), and only its controls can change it (\<open>offered_step\<close>).
  \<^item> \<open>Sidebar\<close>, \<open>Server_Form\<close>, \<open>Rdp\<close>: \<open>ServerSidebar.tsx\<close>; \<open>ServerFormModal.tsx\<close> with
    \<open>utils/hostKey.ts\<close>; \<open>rdp/client.ts\<close> with \<open>components/RdpTab.tsx\<close>.
  \<^item> \<open>Server_Request\<close>: the body of a save, decoded, validated and normalised. \<open>Server_Store\<close>: the table, the
    encryption, and the handlers as jobs of one query per step (\<open>store_step\<close>). \<open>Server_Properties\<close>: the rows
    stay valid and the replies independent of secrets. \<open>Server_Types\<close>: the JSON of a server against
    the interface of \<open>types/index.ts\<close>. \<open>Server_Edit\<close>: the form and the store together.
  \<^item> \<open>Gateway\<close>: resolving a stored server and dialing it, as a list of acts; \<open>Jump_Host\<close>: the choice of a
    jump server from the dialog to the dial. \<open>Credential_Upgrade\<close>: the change of the key.
  \<^item> \<open>Go_Path\<close>: \<open>Clean\<close>, \<open>Join\<close>, \<open>Base\<close> and \<open>Dir\<close> of Go's paths. \<open>Remote_Upload\<close>: \<open>Client.Upload\<close> of
    \<open>internal/sftpclient\<close>, one operation per step. \<open>Remote_Files\<close>: the handlers of
    \<open>internal/api/sftp_handler.go\<close>, and browser and server together.
  \<^item> \<open>Rdp_Wire\<close>: the first messages of the RDP gateway, in DER. \<open>Rdp_Gateway\<close>: \<open>RDPHandler\<close> up to the TLS
    connection, as a list of acts; \<open>Rdp_Relay\<close>: \<open>relayRDP\<close>, its goroutines as events.
  \<^item> \<open>Router\<close>: \<open>internal/api/router.go\<close>, against the requests of \<open>Api\<close>. \<open>Startup\<close>: \<open>internal/config/config.go\<close>
    and the start of \<open>main.go\<close>.
  \<^item> \<open>Accounts\<close>: the user, the handlers for setup, login and status as jobs of one query per step, tokens
    and the middleware; \<open>Rate_Limit\<close>: the limiter; \<open>Session\<close>: setup page, server, login, client and middleware
    together.
\<close>

text \<open>
  \<^bold>\<open>What is shown.\<close>
  \<^item> Terminal: the bytes a connection hands to the shell are a prefix of the UTF-8 text typed into it, in order
    and without gaps, and all of it once the queue has drained; nothing goes out before the server confirmed
    the connection; connections other than the current one hold no timer, subscription or socket and their
    late callbacks change nothing; the first error stays; the buffer of the socket is bounded.
  \<^item> Terminal, both ends: whatever the two ends and the socket do, the shell receives a prefix of what was
    typed, the terminal shows a prefix of what the shell produced, and it says \<open>connected\<close> only over a session;
    this is a refinement of the abstract pipe. The messages the server reads have a bounded size, and a
    session is opened only for a valid token.
  \<^item> Servers: a save accepts just what the form accepts; whatever requests overlap, every row can be used
    by the gateways; no reply depends on a secret, and every reply has the type the frontend declares; an edit
    that changes nothing keeps the row.
  \<^item> Credentials: what was typed is what logs in; a credential is sent only to a machine that showed the
    pinned key, and without a pin to none; a failed dial closes what it opened; a change of the key loses nothing,
    and what one run of the server sealed the next opens.
  \<^item> Files: the files shown are always the answer to the latest request for the path shown; an action changes
    files only in the directory it was started in, whatever was opened since; an upload sends every file once;
    every action ends with the answers it waits for; a button is on just when its handler does something. On
    the server an upload is all or nothing, ends, and stays in its directory; what was uploaded is listed and
    downloaded again.
  \<^item> Session: there is one administrator, who gets in with the password of the setup, and nobody else does;
    sign-in attempts are limited; every request of the browser reaches its handler, and none about servers or files
    without a token; hook and guard agree in every run; every request carries the stored token; a
    401 ends at the login page; the redirects between the public pages end.
  \<^item> Workspace, sidebar, form, RDP page: one tab per server and one active tab; the
    sidebar shows every match; a form
    sends one kind of secret; a password reaches the engine once and is cleared.
  \<^item> Remote desktops: the gateway reads canonical requests only, dials the stored address of a stored desktop and
    nothing else, the one the page shows, and relays only over TLS with the right certificate; the relay is a
    pipe in both directions, and ends.
  \<^item> Flaws: some results are about what the code does and should not, and say so where they stand: an input
    frame lost without the warning, a background tab whose closing moves the selection, a wrong password that
    reloads the login page, a server list replaced by an older one, a failed RDP configuration that locks its
    form, a jump server that is stored and always refused, a name the form accepts and the server does not,
    a group that starts collapsed, a hidden key that is sent, a listing through a link whose entries are
    other files, a link that cannot be deleted, a start that is blocked by its own unfinished file.

  \<^bold>\<open>Bounds and termination.\<close> Every definition is total. The pump (\<open>pump_loop\<close>), the frames
  (\<open>frames_from\<close>) and the size units (\<open>size_loop\<close>) recurse on a measure. Only \<open>json_parse\<close> takes fuel, one
  more than twice the length of its text; \<open>fuel_enough\<close> shows that more fuel changes nothing. Bytes
  and code units are 8-bit and 16-bit words; the numbers of the program are integers, natural or rational numbers, where the
  code's doubles are exact or their rounding is named in the theory; a JSON number is an integer
  or the exact decimal of its literal. Draining is a liveness result with an
  explicit number of rounds, 16 frames each, for an open socket whose buffer empties between them.

  \<^bold>\<open>Parameters.\<close> Code outside the repository is an argument: the size \<open>FitAddon.fit\<close> finds, the
  outcome of a request, the values the form library validated and its own rules, \<open>toLowerCase\<close> and
  \<open>localeCompare\<close> and \<open>toLocaleString\<close>, the RDP engine, and whether React runs a state updater at once or while rendering;
  on the server AES-GCM with its nonces, bcrypt, the JWT library (of which \<open>jwt_contract\<close> says that it parses what it
  signed, and \<open>unforged\<close> that nobody else signs), whether a query succeeds, the clock, the
  parser of private keys, and the SFTP library, of which \<open>answers_truly\<close> says that it lists and reads
  the files there are, the TLS library, of which \<open>tls_contract\<close> says that it succeeds only with certificates the
  configuration accepts, and the handshake of the SSH library, of which \<open>ssh_contract\<close> states that it sends
  credentials only after the callback for the host key agreed.

  \<^bold>\<open>Not modelled.\<close> Style and layout, the viewport height of the main page, \<open>main.tsx\<close> and the build
  configuration. Of the Go program: the SQL of the migrations, deadlines of
  requests other than as operations that fail, logging, the shutdown by a signal, and
  \<open>internal/terminal/manager.go\<close>, which nothing uses.
\<close>

end
